theory Spec2Isabelle
  imports Main
begin

text \<open>
  A model of the blood donor integration: the time normalisation, the last donation date
  and the earliest allowed date, the resolution of the target date, the tolerance
  window, the authenticated calls to the remote service with their re-login on a 401
  answer, the selection of the closest slot, the booking, and the update scheduler.
  Functions keep the names they have in \<^verbatim>\<open>booking_helper.py\<close>, \<^verbatim>\<open>blood_donor.py\<close> and
  \<^verbatim>\<open>utils.py\<close>.
\<close>

section \<open>Python values used by the integration\<close>

text \<open>
  Exceptions are values: a computation that may raise returns \<open>exn + 'a\<close>, with
  \<open>Inl\<close> the exception that was raised. A string is the list of its code points,
  each below 256.
\<close>

datatype exn =
    ValueError | TypeError | KeyError | IndexError | AttributeError
  | UnboundLocalError | OverflowError | TimeoutError | ClientError | JSONDecodeError
  | RecursionError | CancelledError

type_synonym 'a res = "exn + 'a"

definition bind_res :: "'a res \<Rightarrow> ('a \<Rightarrow> 'b res) \<Rightarrow> 'b res" where
  "bind_res m f = (case m of Inl e \<Rightarrow> Inl e | Inr x \<Rightarrow> f x)"

subsection \<open>String methods\<close>

text \<open>\<^verbatim>\<open>s.count(c)\<close> for a one-character \<open>c\<close>.\<close>

definition py_count :: "char \<Rightarrow> string \<Rightarrow> nat" where
  "py_count c s = length (filter (\<lambda>x. x = c) s)"

text \<open>
  \<^verbatim>\<open>s.split(c)\<close> for a one-character separator: never empty, one field more than
  separators.
\<close>

fun py_split :: "char \<Rightarrow> string \<Rightarrow> string list" where
  "py_split c [] = [[]]"
| "py_split c (x # xs) =
     (if x = c then [] # py_split c xs
      else (case py_split c xs of [] \<Rightarrow> [[x]] | w # ws \<Rightarrow> (x # w) # ws))"

text \<open>\<^verbatim>\<open>c.join(fields)\<close>.\<close>

fun py_join :: "char \<Rightarrow> string list \<Rightarrow> string" where
  "py_join c [] = []"
| "py_join c [w] = w"
| "py_join c (w # v # ws) = w @ c # py_join c (v # ws)"

text \<open>\<^verbatim>\<open>s.replace(c, "")\<close>: every occurrence of the character is removed.\<close>

definition py_remove :: "char \<Rightarrow> string \<Rightarrow> string" where
  "py_remove c s = filter (\<lambda>x. x \<noteq> c) s"

text \<open>
  \<^verbatim>\<open>s.zfill(width)\<close>: zeros are added on the left up to the width; a leading sign
  stays in front of the zeros.
\<close>

definition py_zfill :: "nat \<Rightarrow> string \<Rightarrow> string" where
  "py_zfill width s =
     (if width \<le> length s then s
      else (case s of
              [] \<Rightarrow> replicate width CHR ''0''
            | x # xs \<Rightarrow>
                if x = CHR ''+'' \<or> x = CHR ''-''
                then x # replicate (width - length s) CHR ''0'' @ xs
                else replicate (width - length s) CHR ''0'' @ s))"

section \<open>Time normalisation\<close>

text \<open>
  \<^verbatim>\<open>normalize_time\<close> of \<^verbatim>\<open>booking_helper.py\<close>. The argument is \<open>None\<close> or a string
  (the service schema coerces \<^verbatim>\<open>target_time\<close> to \<^verbatim>\<open>str\<close>). None of the string methods
  used raises on a string, so the model has no exception branch.
\<close>

definition normalize_time :: "string option \<Rightarrow> string" where
  "normalize_time time_input =
     (case time_input of
        None \<Rightarrow> ''12:55''
      | Some t0 \<Rightarrow>
          (let t1 = (if py_count CHR '':'' t0 = 2
                     then py_join CHR '':'' (take 2 (py_split CHR '':'' t0))
                     else t0);
               time_str = py_remove CHR '':'' t1;
               time_str = py_zfill 4 time_str
           in take 2 time_str @ '':'' @ drop 2 time_str))"

text \<open>
  The same steps in the words of the description: the text before the second colon when
  there are exactly two, the text without its colons, plain left padding with zeros, and
  the test for a leading sign.
\<close>

definition strip_seconds :: "string \<Rightarrow> string" where
  "strip_seconds s =
     (if py_count CHR '':'' s = 2
      then takeWhile (\<lambda>x. x \<noteq> CHR '':'') s @ CHR '':'' #
           takeWhile (\<lambda>x. x \<noteq> CHR '':'') (tl (dropWhile (\<lambda>x. x \<noteq> CHR '':'') s))
      else s)"


definition pad4 :: "string \<Rightarrow> string" where
  "pad4 s = replicate (4 - length s) CHR ''0'' @ s"

definition signed :: "string \<Rightarrow> bool" where
  "signed s = (case s of [] \<Rightarrow> False | x # _ \<Rightarrow> x = CHR ''+'' \<or> x = CHR ''-'')"

definition pad3 :: "string \<Rightarrow> string" where
  "pad3 s = replicate (3 - length s) CHR ''0'' @ s"

definition time_digits :: "string \<Rightarrow> string" where
  "time_digits s = py_remove CHR '':'' (strip_seconds s)"

text \<open>
  The normalisation as described: seconds stripped, colons removed, left-padded with
  zeros to four characters, cut after the second character.
\<close>

definition described_normalize :: "string \<Rightarrow> string" where
  "described_normalize s = (let z = pad4 (time_digits s) in take 2 z @ '':'' @ drop 2 z)"

section \<open>JSON values and the Python operations applied to them\<close>

text \<open>
  The payloads of the remote service are JSON; after \<^verbatim>\<open>response.json()\<close> they are Python
  dictionaries, lists, strings, integers, booleans and \<^verbatim>\<open>None\<close>. An object is an
  association list that stands for the dictionary (first binding of a key). Numbers are
  integers.
\<close>

datatype json =
    JNull | JBool bool | JNum int | JStr string | JArr "json list" | JObj "(string \<times> json) list"

text \<open>Truth value of a Python object, as \<^verbatim>\<open>if x\<close> and \<^verbatim>\<open>not x\<close> read it.\<close>

fun py_truthy :: "json \<Rightarrow> bool" where
  "py_truthy JNull = False"
| "py_truthy (JBool b) = b"
| "py_truthy (JNum n) = (n \<noteq> 0)"
| "py_truthy (JStr s) = (s \<noteq> [])"
| "py_truthy (JArr xs) = (xs \<noteq> [])"
| "py_truthy (JObj kvs) = (kvs \<noteq> [])"

text \<open>\<^verbatim>\<open>x[key]\<close> with a string key: only a dictionary accepts it.\<close>

fun py_getitem :: "json \<Rightarrow> string \<Rightarrow> json res" where
  "py_getitem (JObj kvs) k = (case map_of kvs k of None \<Rightarrow> Inl KeyError | Some v \<Rightarrow> Inr v)"
| "py_getitem _ k = Inl TypeError"

text \<open>\<^verbatim>\<open>x.get(key, default)\<close>: a method of dictionaries only.\<close>

fun py_get :: "json \<Rightarrow> string \<Rightarrow> json \<Rightarrow> json res" where
  "py_get (JObj kvs) k dflt = Inr (case map_of kvs k of None \<Rightarrow> dflt | Some v \<Rightarrow> v)"
| "py_get _ k dflt = Inl AttributeError"

text \<open>\<^verbatim>\<open>for x in v\<close>: a list gives its elements, a dictionary its keys, a string its characters.\<close>

fun py_iter :: "json \<Rightarrow> json list res" where
  "py_iter (JArr xs) = Inr xs"
| "py_iter (JObj kvs) = Inr (map (\<lambda>kv. JStr (fst kv)) kvs)"
| "py_iter (JStr s) = Inr (map (\<lambda>c. JStr [c]) s)"
| "py_iter _ = Inl TypeError"

text \<open>\<^verbatim>\<open>len(v)\<close>.\<close>

fun py_len :: "json \<Rightarrow> nat res" where
  "py_len (JArr xs) = Inr (length xs)"
| "py_len (JObj kvs) = Inr (length kvs)"
| "py_len (JStr s) = Inr (length s)"
| "py_len _ = Inl TypeError"

text \<open>A string method called on a value: \<^verbatim>\<open>AttributeError\<close> unless the value is a string.\<close>

fun as_str :: "json \<Rightarrow> string res" where
  "as_str (JStr s) = Inr s"
| "as_str _ = Inl AttributeError"

subsection \<open>Integer parsing\<close>

definition is_digit :: "char \<Rightarrow> bool" where
  "is_digit c = (c \<in> set ''0123456789'')"

definition digit_val :: "char \<Rightarrow> int" where
  "digit_val c = int (length (takeWhile (\<lambda>d. d \<noteq> c) ''0123456789''))"

text \<open>
  The blanks that \<^verbatim>\<open>int\<close> drops around a number: the ASCII ones, and the code points
  133 (next line) and 160 (no-break space).
\<close>

definition is_space :: "char \<Rightarrow> bool" where
  "is_space c =
     (let n = (of_char c :: nat) in n = 32 \<or> (9 \<le> n \<and> n \<le> 13) \<or> n = 133 \<or> n = 160)"

definition py_strip :: "string \<Rightarrow> string" where
  "py_strip s = rev (dropWhile is_space (rev (dropWhile is_space s)))"

text \<open>Digits of a decimal literal: single underscores are allowed between digits.\<close>

fun valid_digits :: "string \<Rightarrow> bool" where
  "valid_digits [] = False"
| "valid_digits [c] = is_digit c"
| "valid_digits (c # d # r) =
     (is_digit c \<and> (if d = CHR ''_'' then valid_digits r else valid_digits (d # r)))"

definition digits_value :: "string \<Rightarrow> int" where
  "digits_value s = foldl (\<lambda>a c. 10 * a + digit_val c) 0 (filter (\<lambda>c. c \<noteq> CHR ''_'') s)"

text \<open>
  \<^verbatim>\<open>int(s)\<close> for a string: surrounding whitespace is dropped, one sign is allowed, and
  more than 4300 digits are refused (the interpreter's limit on integer string
  conversion). Every failure is a \<^verbatim>\<open>ValueError\<close>.
\<close>

definition py_int_str :: "string \<Rightarrow> int res" where
  "py_int_str s =
     (let t = py_strip s;
          neg = (t \<noteq> [] \<and> hd t = CHR ''-'');
          body = (if t \<noteq> [] \<and> (hd t = CHR ''-'' \<or> hd t = CHR ''+'') then tl t else t)
      in if \<not> valid_digits body then Inl ValueError
         else if 4300 < length (filter is_digit body) then Inl ValueError
         else Inr (if neg then - digits_value body else digits_value body))"

text \<open>\<^verbatim>\<open>int(v)\<close> for a JSON value.\<close>

fun py_int :: "json \<Rightarrow> int res" where
  "py_int (JNum n) = Inr n"
| "py_int (JBool b) = Inr (if b then 1 else 0)"
| "py_int (JStr s) = py_int_str s"
| "py_int _ = Inl TypeError"

subsection \<open>Dates, times of day, durations\<close>

text \<open>
  A \<^verbatim>\<open>date\<close> is its proleptic Gregorian ordinal (\<^verbatim>\<open>date.toordinal()\<close>): day 1 is
  0001-01-01, day 3652059 is 9999-12-31, and nothing outside that range exists. A
  \<^verbatim>\<open>datetime\<close> and a \<^verbatim>\<open>timedelta\<close> are counted in microseconds, a datetime from
  the start of ordinal day 0.
\<close>

type_synonym date = int
type_synonym datetime = int
type_synonym timedelta = int

definition MAXORDINAL :: int where
  "MAXORDINAL = 3652059"

definition date_ok :: "date \<Rightarrow> bool" where
  "date_ok d = (1 \<le> d \<and> d \<le> MAXORDINAL)"

definition us_per_day :: int where
  "us_per_day = 86400000000"

definition us_per_hour :: int where
  "us_per_hour = 3600000000"

definition is_leap :: "int \<Rightarrow> bool" where
  "is_leap y = (y mod 4 = 0 \<and> (y mod 100 \<noteq> 0 \<or> y mod 400 = 0))"

definition days_in_month :: "int \<Rightarrow> int \<Rightarrow> int" where
  "days_in_month y m =
     (if m = 2 then (if is_leap y then 29 else 28)
      else if m = 4 \<or> m = 6 \<or> m = 9 \<or> m = 11 then 30 else 31)"

definition days_before_year :: "int \<Rightarrow> int" where
  "days_before_year y = (y - 1) * 365 + (y - 1) div 4 - (y - 1) div 100 + (y - 1) div 400"

definition days_before_month :: "int \<Rightarrow> int \<Rightarrow> int" where
  "days_before_month y m = sum_list (map (days_in_month y) [1 .. m - 1])"

text \<open>\<^verbatim>\<open>date(year, month, day)\<close>: a \<^verbatim>\<open>ValueError\<close> outside the calendar.\<close>

definition py_date :: "int \<Rightarrow> int \<Rightarrow> int \<Rightarrow> date res" where
  "py_date y m d =
     (if 1 \<le> y \<and> y \<le> 9999 \<and> 1 \<le> m \<and> m \<le> 12 \<and> 1 \<le> d \<and> d \<le> days_in_month y m
      then Inr (days_before_year y + days_before_month y m + d)
      else Inl ValueError)"

text \<open>\<^verbatim>\<open>timedelta(days=n)\<close> and a timedelta of a given length: at most 999999999 days.\<close>

definition timedelta_days :: "int \<Rightarrow> int res" where
  "timedelta_days n = (if \<bar>n\<bar> \<le> 999999999 then Inr n else Inl OverflowError)"

definition timedelta_us :: "int \<Rightarrow> timedelta res" where
  "timedelta_us u =
     (if - 999999999 * us_per_day \<le> u \<and> u < 1000000000 * us_per_day then Inr u
      else Inl OverflowError)"

text \<open>\<^verbatim>\<open>d + timedelta(days=n)\<close> for a date: an \<^verbatim>\<open>OverflowError\<close> outside the range.\<close>

definition date_add :: "date \<Rightarrow> int \<Rightarrow> date res" where
  "date_add d n = (if date_ok (d + n) then Inr (d + n) else Inl OverflowError)"

text \<open>\<^verbatim>\<open>d.weekday()\<close>: Monday is 0, Sunday is 6.\<close>

definition weekday :: "date \<Rightarrow> int" where
  "weekday d = (d + 6) mod 7"

text \<open>\<^verbatim>\<open>time(hour, minute)\<close>, kept as the microseconds since midnight.\<close>

definition py_time :: "int \<Rightarrow> int \<Rightarrow> int res" where
  "py_time h m =
     (if 0 \<le> h \<and> h < 24 \<and> 0 \<le> m \<and> m < 60 then Inr ((h * 3600 + m * 60) * 1000000)
      else Inl ValueError)"

text \<open>\<^verbatim>\<open>datetime.combine(d, t)\<close>, and the date of a datetime.\<close>

definition combine :: "date \<Rightarrow> int \<Rightarrow> datetime" where
  "combine d t = d * us_per_day + t"

definition date_of :: "datetime \<Rightarrow> date" where
  "date_of dt = dt div us_per_day"

text \<open>\<^verbatim>\<open>dt + delta\<close> for a datetime: the result must be a datetime of the years 1 to 9999.\<close>

definition datetime_add :: "datetime \<Rightarrow> timedelta \<Rightarrow> datetime res" where
  "datetime_add dt u = (if date_ok (date_of (dt + u)) then Inr (dt + u) else Inl OverflowError)"

subsection \<open>Parsing a date with the format year-month-day\<close>

text \<open>
  \<^verbatim>\<open>datetime.strptime(s, "%Y-%m-%d").date()\<close>. The format is matched as the library's
  pattern does: four digits, a month written \<open>1[0-2]\<close>, \<open>0[1-9]\<close> or \<open>[1-9]\<close>, a day
  written \<open>3[01]\<close>, \<open>[12][0-9]\<close>, \<open>0[1-9]\<close>, \<open>[1-9]\<close> or a space and \<open>[1-9]\<close>, with
  nothing left over; then the date must exist. Every failure is a \<^verbatim>\<open>ValueError\<close>.
\<close>

definition nonzero_digit :: "char \<Rightarrow> bool" where
  "nonzero_digit c = (is_digit c \<and> c \<noteq> CHR ''0'')"

fun month_field :: "string \<Rightarrow> int option" where
  "month_field [a] = (if nonzero_digit a then Some (digit_val a) else None)"
| "month_field [a, b] =
     (if a = CHR ''1'' \<and> b \<in> set ''012'' then Some (10 + digit_val b)
      else if a = CHR ''0'' \<and> nonzero_digit b then Some (digit_val b)
      else None)"
| "month_field _ = None"

fun day_field :: "string \<Rightarrow> int option" where
  "day_field [a] = (if nonzero_digit a then Some (digit_val a) else None)"
| "day_field [a, b] =
     (if a = CHR ''3'' \<and> b \<in> set ''01'' then Some (30 + digit_val b)
      else if a \<in> set ''12'' \<and> is_digit b then Some (10 * digit_val a + digit_val b)
      else if (a = CHR ''0'' \<or> a = CHR '' '') \<and> nonzero_digit b then Some (digit_val b)
      else None)"
| "day_field _ = None"

definition strptime_ymd :: "string \<Rightarrow> date res" where
  "strptime_ymd s =
     (let y = take 4 s; r = drop 4 s in
      if length y = 4 \<and> list_all is_digit y \<and> r \<noteq> [] \<and> hd r = CHR ''-''
      then (let mt = takeWhile (\<lambda>c. c \<noteq> CHR ''-'') (tl r);
                r2 = dropWhile (\<lambda>c. c \<noteq> CHR ''-'') (tl r)
            in case (month_field mt, r2) of
                 (Some m, x # dt) \<Rightarrow>
                   (case day_field dt of
                      Some d \<Rightarrow> py_date (digits_value y) m d
                    | None \<Rightarrow> Inl ValueError)
               | _ \<Rightarrow> Inl ValueError)
      else Inl ValueError)"

text \<open>
  The date text of an appointment: \<^verbatim>\<open>apt["session"]["sessionDate"].split("T")[0]\<close>.
  The first field of a split always exists.
\<close>

definition session_date_str :: "json \<Rightarrow> string res" where
  "session_date_str apt =
     bind_res (py_getitem apt ''session'') (\<lambda>sess.
     bind_res (py_getitem sess ''sessionDate'') (\<lambda>sd.
     bind_res (as_str sd) (\<lambda>s. Inr (hd (py_split CHR ''T'' s)))))"

definition appointment_date :: "json \<Rightarrow> date res" where
  "appointment_date apt = bind_res (session_date_str apt) strptime_ymd"

subsection \<open>Exception classes\<close>

text \<open>
  \<^verbatim>\<open>except C\<close> catches the class \<open>C\<close> and its subclasses: a JSON decoding error is a
  \<^verbatim>\<open>ValueError\<close>.
\<close>

definition is_instance :: "exn \<Rightarrow> exn \<Rightarrow> bool" where
  "is_instance e c = (e = c \<or> (e = JSONDecodeError \<and> c = ValueError))"

definition caught :: "exn list \<Rightarrow> exn \<Rightarrow> bool" where
  "caught cs e = list_ex (is_instance e) cs"

section \<open>The coordinator and the last donation date\<close>

text \<open>
  The coordinator holds the account snapshot. \<^verbatim>\<open>async_refresh\<close> fetches the account
  again: the outcome of the fetch is \<open>Some\<close> new snapshot or \<open>None\<close> when it failed, and a
  failed refresh keeps the old snapshot. It does not raise.
\<close>

record coordinator =
  data :: "json option"
  last_update_success :: bool

definition async_refresh :: "json option \<Rightarrow> coordinator \<Rightarrow> coordinator" where
  "async_refresh fetched c =
     (case fetched of
        Some d \<Rightarrow> c\<lparr>data := Some d, last_update_success := True\<rparr>
      | None \<Rightarrow> c\<lparr>last_update_success := False\<rparr>)"

text \<open>\<^verbatim>\<open>not coordinator.data\<close>.\<close>

definition no_data :: "coordinator \<Rightarrow> bool" where
  "no_data c = (case data c of None \<Rightarrow> True | Some d \<Rightarrow> \<not> py_truthy d)"

text \<open>
  The coordinator after the first statement of \<^verbatim>\<open>get_last_donation_date\<close>: a missing or
  stale snapshot is refreshed.
\<close>

definition refreshed_if_stale :: "json option \<Rightarrow> coordinator \<Rightarrow> coordinator" where
  "refreshed_if_stale fetched c =
     (if no_data c \<or> \<not> last_update_success c then async_refresh fetched c else c)"

text \<open>
  The first loop of \<^verbatim>\<open>get_last_donation_date\<close> only logs, but it evaluates the date
  text of every appointment and catches \<^verbatim>\<open>KeyError\<close> and \<^verbatim>\<open>IndexError\<close> alone.
\<close>

fun log_appointments :: "json list \<Rightarrow> unit res" where
  "log_appointments [] = Inr ()"
| "log_appointments (apt # rest) =
     (case session_date_str apt of
        Inl e \<Rightarrow> if caught [KeyError, IndexError] e then log_appointments rest else Inl e
      | Inr _ \<Rightarrow> log_appointments rest)"

text \<open>The second loop collects the dates that parse.\<close>

fun appointment_dates :: "json list \<Rightarrow> date list res" where
  "appointment_dates [] = Inr []"
| "appointment_dates (apt # rest) =
     (case appointment_date apt of
        Inl e \<Rightarrow>
          if caught [KeyError, ValueError, IndexError] e then appointment_dates rest else Inl e
      | Inr d \<Rightarrow> bind_res (appointment_dates rest) (\<lambda>ds. Inr (d # ds)))"

text \<open>\<^verbatim>\<open>max(xs)\<close> of a list.\<close>

definition py_max :: "int list \<Rightarrow> int res" where
  "py_max xs = (case xs of [] \<Rightarrow> Inl ValueError | x # r \<Rightarrow> Inr (fold max r x))"

text \<open>
  \<^verbatim>\<open>get_last_donation_date\<close>, given the outcome \<open>fetched\<close> of the refresh it may start
  and the date \<open>today\<close> (the clock is read several times; one run is taken to fall on
  one day). The result is \<open>None\<close>, or the date, or the exception that leaves the
  function.
\<close>

definition get_last_donation_date :: "json option \<Rightarrow> date \<Rightarrow> coordinator \<Rightarrow> date option res" where
  "get_last_donation_date fetched today c =
     (let c1 = refreshed_if_stale fetched c in
      case data c1 of
        None \<Rightarrow> Inr None
      | Some d \<Rightarrow>
          if \<not> py_truthy d then Inr None
          else
            bind_res (py_get d ''appointments'' (JArr [])) (\<lambda>appointments.
            if \<not> py_truthy appointments
            then bind_res (date_add today (- 60)) (\<lambda>r. Inr (Some r))
            else
              bind_res (py_len appointments) (\<lambda>_.
              bind_res (py_iter appointments) (\<lambda>apts.
              bind_res (log_appointments apts) (\<lambda>_.
              (case bind_res (appointment_dates apts) (\<lambda>ds.
                      if ds = [] then bind_res (date_add today (- 60)) (\<lambda>r. Inr (Some r))
                      else bind_res (py_max ds) (\<lambda>r. Inr (Some r))) of
                 Inl e \<Rightarrow> bind_res (date_add today (- 60)) (\<lambda>r. Inr (Some r))
               | Inr r \<Rightarrow> Inr r))))))"

text \<open>
  Lines 378 to 384 of the service handler: the earliest allowed date, from the last
  donation date and \<^verbatim>\<open>min_days_from_last_appointment\<close>.
\<close>

definition earliest_allowed_date :: "json option \<Rightarrow> date \<Rightarrow> coordinator \<Rightarrow> int \<Rightarrow> date res" where
  "earliest_allowed_date fetched today c min_days_from_last =
     bind_res (get_last_donation_date fetched today c) (\<lambda>last_donation_date.
     bind_res (case last_donation_date of
                 Some l \<Rightarrow> bind_res (timedelta_days min_days_from_last) (date_add l)
               | None \<Rightarrow> Inr today) (\<lambda>earliest.
     Inr (max earliest today)))"

text \<open>
  The earliest allowed date in the words of the description: the later of today and the
  last date plus the minimum gap, the last date being the latest of the given dates, or
  sixty days ago when there is none.
\<close>

definition described_last :: "date \<Rightarrow> date list \<Rightarrow> date" where
  "described_last today ds = (if ds = [] then today - 60 else Max (set ds))"

definition described_earliest :: "date \<Rightarrow> int \<Rightarrow> date list \<Rightarrow> date" where
  "described_earliest today min_days ds = max (described_last today ds + min_days) today"

section \<open>The update scheduler\<close>

text \<open>\<^verbatim>\<open>get_next_appointment\<close> of \<^verbatim>\<open>utils.py\<close>: the keys of all entries are computed in
  order, the sort is stable, and three exception classes give \<open>None\<close>.\<close>

fun sort_keys :: "json list \<Rightarrow> date list res" where
  "sort_keys [] = Inr []"
| "sort_keys (x # xs) =
     bind_res (appointment_date x) (\<lambda>k. bind_res (sort_keys xs) (\<lambda>ks. Inr (k # ks)))"

definition get_next_appointment :: "json \<Rightarrow> json option res" where
  "get_next_appointment appointments =
     (if \<not> py_truthy appointments then Inr None
      else
        (case bind_res (py_iter appointments) (\<lambda>xs.
              bind_res (sort_keys xs) (\<lambda>ks.
              (case sort_key fst (zip ks xs) of
                 [] \<Rightarrow> Inl IndexError
               | kx # _ \<Rightarrow> Inr (Some (snd kx))))) of
           Inl e \<Rightarrow> if caught [KeyError, ValueError, IndexError] e then Inr None else Inl e
         | Inr r \<Rightarrow> Inr r))"

definition STANDARD_SCAN_INTERVAL :: timedelta where
  "STANDARD_SCAN_INTERVAL = 24 * us_per_hour"

definition APPOINTMENT_SCAN_INTERVAL :: timedelta where
  "APPOINTMENT_SCAN_INTERVAL = 1 * us_per_hour"

text \<open>
  The scheduler's part of the coordinator: the polling interval in force, and how many
  times the next refresh was scheduled anew.
\<close>

record scheduler =
  update_interval :: timedelta
  dynamic_update_interval :: timedelta
  next_appointment_datetime :: "datetime option"
  refreshes_scheduled :: nat

definition set_update_interval :: "timedelta \<Rightarrow> scheduler \<Rightarrow> scheduler" where
  "set_update_interval interval s =
     (if update_interval s \<noteq> interval
      then s\<lparr>dynamic_update_interval := interval, update_interval := interval,
             refreshes_scheduled := Suc (refreshes_scheduled s)\<rparr>
      else s)"

text \<open>
  The date and time of the chosen appointment, as the inner \<^verbatim>\<open>try\<close> block of
  \<^verbatim>\<open>_adjust_update_interval\<close> computes it: noon when the time text has fewer than four
  characters.
\<close>

definition appointment_datetime :: "json \<Rightarrow> (date \<times> datetime) res" where
  "appointment_datetime next_appointment =
     bind_res (appointment_date next_appointment) (\<lambda>apt_date.
     bind_res (py_get next_appointment ''time'' (JStr [])) (\<lambda>tv.
     bind_res (as_str tv) (\<lambda>ts.
     (let time_str = py_remove CHR ''T'' ts in
      if 4 \<le> length time_str
      then bind_res (py_int_str (take 2 time_str)) (\<lambda>hour.
           bind_res (py_int_str (drop 2 time_str)) (\<lambda>minute.
           bind_res (py_time hour minute) (\<lambda>t.
           Inr (apt_date, combine apt_date t))))
      else Inr (apt_date, combine apt_date (12 * us_per_hour))))))"

text \<open>
  The interval chosen for an appointment at \<open>apt_datetime\<close> on the date
  \<open>apt_date\<close> when the clock shows \<open>now\<close>. The source compares hours as floating
  point numbers with 1 and -8; both operands are whole microseconds below one day, so
  the comparisons agree with the exact ones written here.
\<close>

definition interval_for :: "datetime \<Rightarrow> date \<Rightarrow> datetime \<Rightarrow> timedelta" where
  "interval_for now apt_date apt_datetime =
     (let time_until_appointment = apt_datetime - now in
      if apt_date = date_of now
      then (if time_until_appointment > 1 * us_per_hour then APPOINTMENT_SCAN_INTERVAL
            else if time_until_appointment \<ge> - 8 * us_per_hour then APPOINTMENT_SCAN_INTERVAL
            else STANDARD_SCAN_INTERVAL)
      else if time_until_appointment \<le> 4 * us_per_hour then APPOINTMENT_SCAN_INTERVAL
      else STANDARD_SCAN_INTERVAL)"

text \<open>
  \<^verbatim>\<open>_adjust_update_interval\<close>: every exception, of the inner or of the outer
  \<^verbatim>\<open>try\<close>, ends in the standard interval.
\<close>

definition adjust_update_interval :: "json \<Rightarrow> datetime \<Rightarrow> scheduler \<Rightarrow> scheduler" where
  "adjust_update_interval d now s =
     (case py_get d ''appointments'' (JArr []) of
        Inl e \<Rightarrow> set_update_interval STANDARD_SCAN_INTERVAL s
      | Inr appointments \<Rightarrow>
          if \<not> py_truthy appointments then set_update_interval STANDARD_SCAN_INTERVAL s
          else
            (case get_next_appointment appointments of
               Inl e \<Rightarrow> set_update_interval STANDARD_SCAN_INTERVAL s
             | Inr None \<Rightarrow> set_update_interval STANDARD_SCAN_INTERVAL s
             | Inr (Some next_appointment) \<Rightarrow>
                 (case appointment_datetime next_appointment of
                    Inl e \<Rightarrow> set_update_interval STANDARD_SCAN_INTERVAL s
                  | Inr (ad, adt) \<Rightarrow>
                      set_update_interval (interval_for now ad adt)
                        (s\<lparr>next_appointment_datetime := Some adt\<rparr>))))"

text \<open>
  An appointment of the expected shape: an object whose \<open>session\<close>, when present, is an
  object whose \<open>sessionDate\<close>, when present, is a string.
\<close>

definition well_formed_appointment :: "json \<Rightarrow> bool" where
  "well_formed_appointment apt =
     (case apt of
        JObj kvs \<Rightarrow>
          (case map_of kvs ''session'' of
             None \<Rightarrow> True
           | Some (JObj skvs) \<Rightarrow>
               (case map_of skvs ''sessionDate'' of
                  None \<Rightarrow> True
                | Some (JStr sd) \<Rightarrow> True
                | Some _ \<Rightarrow> False)
           | Some _ \<Rightarrow> False)
      | _ \<Rightarrow> False)"

text \<open>The dates of the appointments whose date text parses, in the order of the list.\<close>

definition parseable_dates :: "json list \<Rightarrow> date list" where
  "parseable_dates apts =
     List.map_filter (\<lambda>apt. case appointment_date apt of Inl e \<Rightarrow> None | Inr d \<Rightarrow> Some d) apts"

section \<open>The remote service and the authenticated calls\<close>

text \<open>
  The remote service is a sequence of answers: \<open>reply srv n\<close> is what the \<open>n\<close>-th
  authenticated request of a run meets, \<open>login_reply srv m\<close> what the request of the
  \<open>m\<close>-th login meets. A request either raises (a timeout, a connection failure) or is
  answered with a status code and a body; of the body the model keeps what
  \<^verbatim>\<open>await response.text()\<close> gives (the text itself is not needed, only whether reading it
  raises) and what \<^verbatim>\<open>await response.json()\<close> gives, a value or the exception of a body
  that does not parse. The answers do not depend on the text of the request, so every
  way the service may react is some such sequence. The client counts its requests and
  its logins.

  Every call waits inside \<^verbatim>\<open>async_timeout.timeout\<close>. When the timer of a call expires,
  the wait in progress is cancelled and the \<^verbatim>\<open>with\<close> statement of that call raises
  \<^verbatim>\<open>TimeoutError\<close>: for a request this is an answer that raises \<^verbatim>\<open>TimeoutError\<close>; a
  login interrupted by the timer of the call around it raises \<^verbatim>\<open>CancelledError\<close>,
  which no handler of \<^verbatim>\<open>login\<close> catches and which becomes \<^verbatim>\<open>TimeoutError\<close> on the way
  out of the call. When the run waits, and for how long, is the environment's choice,
  that is, part of the sequence of answers.
\<close>

datatype http_reply = Raises exn | Reply nat "unit res" "json res"

record server =
  reply :: "nat \<Rightarrow> http_reply"
  login_reply :: "nat \<Rightarrow> http_reply"

text \<open>The token is \<^verbatim>\<open>None\<close> (here \<open>JNull\<close>) or the value the login answer carried.\<close>

record api =
  access_token :: json
  requests :: nat
  logins :: nat

text \<open>\<^verbatim>\<open>key in v\<close> for a string key, and \<^verbatim>\<open>v.keys()\<close> (only that it can be called).\<close>

fun py_contains :: "json \<Rightarrow> string \<Rightarrow> bool res" where
  "py_contains (JObj kvs) k = Inr (map_of kvs k \<noteq> None)"
| "py_contains (JArr xs) k = Inr (JStr k \<in> set xs)"
| "py_contains (JStr s) k =
     Inr (list_ex (\<lambda>i. take (length k) (drop i s) = k) [0 ..< Suc (length s)])"
| "py_contains _ k = Inl TypeError"

fun py_keys :: "json \<Rightarrow> unit res" where
  "py_keys (JObj kvs) = Inr ()"
| "py_keys _ = Inl AttributeError"

text \<open>
  \<^verbatim>\<open>BloodDonorApi.login\<close>, for the answer \<open>r\<close> its request meets. The handlers of the
  function turn a timeout, a client error and a value error into \<open>False\<close>; any other
  exception leaves it, for instance the \<^verbatim>\<open>AttributeError\<close> of \<^verbatim>\<open>data.get\<close> when the
  body of a 200 answer is not an object. The token is stored before the account details
  are read.
\<close>

definition login_handlers :: "exn \<Rightarrow> bool res" where
  "login_handlers e =
     (if caught [TimeoutError, ClientError, ValueError] e then Inr False else Inl e)"

definition login_with :: "http_reply \<Rightarrow> api \<Rightarrow> bool res \<times> api" where
  "login_with r a =
     (case r of
        Raises e \<Rightarrow> (login_handlers e, a)
      | Reply status text body \<Rightarrow>
          (case text of
             Inl e \<Rightarrow> (login_handlers e, a)
           | Inr _ \<Rightarrow>
               (case body of
                  Inl e \<Rightarrow> (login_handlers e, a)
                | Inr d \<Rightarrow>
                    if status \<noteq> 200 then (Inr False, a)
                    else
                      (case py_get d ''accessToken'' JNull of
                         Inl e \<Rightarrow> (login_handlers e, a)
                       | Inr tok \<Rightarrow>
                           (case bind_res (py_get d ''refreshToken'' JNull) (\<lambda>_.
                                 bind_res (py_contains d ''accountDetails'') (\<lambda>has.
                                 if has
                                 then bind_res (py_get d ''accountDetails'' (JObj [])) (\<lambda>v.
                                      bind_res (py_get v ''donorID'' JNull) (\<lambda>_. Inr True))
                                 else bind_res (py_keys d) (\<lambda>_. Inr True))) of
                              Inl e \<Rightarrow> (login_handlers e, a\<lparr>access_token := tok\<rparr>)
                            | Inr ok \<Rightarrow> (Inr ok, a\<lparr>access_token := tok\<rparr>))))))"

definition login :: "server \<Rightarrow> api \<Rightarrow> bool res \<times> api" where
  "login srv a = login_with (login_reply srv (logins a)) (a\<lparr>logins := Suc (logins a)\<rparr>)"

definition sent :: "api \<Rightarrow> api" where
  "sent a = a\<lparr>requests := Suc (requests a)\<rparr>"

definition status_401 :: "http_reply \<Rightarrow> bool" where
  "status_401 r = (case r of Raises e \<Rightarrow> False | Reply status text body \<Rightarrow> status = 401)"

text \<open>The exception with which a cancelled wait leaves the \<^verbatim>\<open>with\<close> statement of a call.\<close>

definition timer_exit :: "exn \<Rightarrow> exn" where
  "timer_exit e = (if e = CancelledError then TimeoutError else e)"

subsection \<open>Sessions and slots\<close>

text \<open>
  What \<^verbatim>\<open>get_sessions_for_date\<close> and \<^verbatim>\<open>get_slots_for_session\<close> do with an answer
  whose status is not 401. They have no \<^verbatim>\<open>try\<close> block: an exception of the request, of
  \<^verbatim>\<open>response.text()\<close> (read for the log line of a status other than 200) or of
  \<^verbatim>\<open>response.json()\<close> leaves the function.
\<close>

definition list_result :: "string \<Rightarrow> http_reply \<Rightarrow> json res" where
  "list_result key r =
     (case r of
        Raises e \<Rightarrow> Inl (timer_exit e)
      | Reply status text body \<Rightarrow>
          if status \<noteq> 200
          then (case text of Inl e \<Rightarrow> Inl (timer_exit e) | Inr _ \<Rightarrow> Inr (JArr []))
          else (case bind_res body (\<lambda>d. py_get d key (JArr [])) of
                  Inl e \<Rightarrow> Inl (timer_exit e)
                | Inr v \<Rightarrow> Inr v))"

text \<open>
  One invocation of either function, with \<open>retry\<close> for the invocation of itself it
  makes after a 401 answer and a successful login.
\<close>

definition fetch_list ::
    "string \<Rightarrow> server \<Rightarrow> (api \<Rightarrow> json res \<times> api) \<Rightarrow> api \<Rightarrow> json res \<times> api" where
  "fetch_list key srv retry a =
     (let r = reply srv (requests a); a1 = sent a in
      if status_401 r
      then (case login srv a1 of
              (Inl e, a2) \<Rightarrow> (Inl (timer_exit e), a2)
            | (Inr ok, a2) \<Rightarrow> if ok then retry a2 else (Inr (JArr []), a2))
      else (list_result key r, a1))"

text \<open>
  The invocations nest on the interpreter's stack: \<open>depth\<close> is the number of nested
  invocations that still fit below the running one. The invocation that does not fit
  raises \<^verbatim>\<open>RecursionError\<close>.
\<close>

fun get_sessions_for_date :: "server \<Rightarrow> nat \<Rightarrow> api \<Rightarrow> json res \<times> api" where
  "get_sessions_for_date srv 0 a =
     fetch_list ''sessions'' srv (\<lambda>a2. (Inl RecursionError, a2)) a"
| "get_sessions_for_date srv (Suc depth) a =
     fetch_list ''sessions'' srv (get_sessions_for_date srv depth) a"

fun get_slots_for_session :: "server \<Rightarrow> nat \<Rightarrow> api \<Rightarrow> json res \<times> api" where
  "get_slots_for_session srv 0 a =
     fetch_list ''slots'' srv (\<lambda>a2. (Inl RecursionError, a2)) a"
| "get_slots_for_session srv (Suc depth) a =
     fetch_list ''slots'' srv (get_slots_for_session srv depth) a"

subsection \<open>Booking\<close>

datatype booking_error =
    Authentication_failed
  | Response_text nat
  | Booking_returned_status json
  | Failed_to_parse
  | Exception_text exn

datatype booking_result = Booking_success json | Booking_failure booking_error

definition booking_ok :: "booking_result \<Rightarrow> bool" where
  "booking_ok b = (case b of Booking_success d \<Rightarrow> True | Booking_failure e \<Rightarrow> False)"

text \<open>
  What \<^verbatim>\<open>book_appointment\<close> returns for an answer whose status is not 401. The whole
  body of the function is inside \<^verbatim>\<open>try ... except Exception\<close>.
\<close>

definition booking_of_reply :: "http_reply \<Rightarrow> booking_result" where
  "booking_of_reply r =
     (case r of
        Raises e \<Rightarrow> Booking_failure (Exception_text (timer_exit e))
      | Reply status text body \<Rightarrow>
          (case text of
             Inl e \<Rightarrow> Booking_failure (Exception_text (timer_exit e))
           | Inr _ \<Rightarrow>
               if status \<noteq> 200 then Booking_failure (Response_text status)
               else (case bind_res body (\<lambda>d.
                            bind_res (py_get d ''status'' (JStr [])) (\<lambda>st. Inr (d, st))) of
                       Inl e \<Rightarrow> if e = JSONDecodeError then Booking_failure Failed_to_parse
                                else Booking_failure (Exception_text (timer_exit e))
                     | Inr (d, st) \<Rightarrow>
                         if st = JStr ''B'' then Booking_success d
                         else Booking_failure (Booking_returned_status st))))"

definition book_once ::
    "server \<Rightarrow> (api \<Rightarrow> booking_result \<times> api) \<Rightarrow> api \<Rightarrow> booking_result \<times> api" where
  "book_once srv retry a =
     (let r = reply srv (requests a); a1 = sent a in
      if status_401 r
      then (case login srv a1 of
              (Inl e, a2) \<Rightarrow> (Booking_failure (Exception_text (timer_exit e)), a2)
            | (Inr ok, a2) \<Rightarrow>
                if ok then retry a2 else (Booking_failure Authentication_failed, a2))
      else (booking_of_reply r, a1))"

text \<open>
  The \<^verbatim>\<open>RecursionError\<close> of the invocation that does not fit is raised inside the
  \<^verbatim>\<open>try\<close> block of the invocation that makes it.
\<close>

fun book_appointment :: "server \<Rightarrow> nat \<Rightarrow> api \<Rightarrow> booking_result \<times> api" where
  "book_appointment srv 0 a =
     book_once srv (\<lambda>a2. (Booking_failure (Exception_text RecursionError), a2)) a"
| "book_appointment srv (Suc depth) a = book_once srv (book_appointment srv depth) a"

subsection \<open>Account details and awards\<close>

text \<open>
  \<^verbatim>\<open>_get_account_details\<close> and \<^verbatim>\<open>_get_awards\<close> of \<^verbatim>\<open>blood_donor.py\<close>: the handlers of
  the functions catch timeouts, client errors and value errors, which give \<open>None\<close>;
  any other exception leaves the function. Both read the text of the answer before
  they look at its status.
\<close>

definition details_handlers :: "json option res \<Rightarrow> json option res" where
  "details_handlers x =
     (case x of
        Inl e \<Rightarrow>
          if caught [TimeoutError, ClientError, ValueError] (timer_exit e) then Inr None
          else Inl (timer_exit e)
      | Inr v \<Rightarrow> Inr v)"

definition text_fails :: "http_reply \<Rightarrow> bool" where
  "text_fails r =
     (case r of Raises e \<Rightarrow> False
      | Reply status text body \<Rightarrow> (case text of Inl e \<Rightarrow> True | Inr _ \<Rightarrow> False))"

definition details_of_reply :: "http_reply \<Rightarrow> json option res" where
  "details_of_reply r =
     details_handlers
       (case r of
          Raises e \<Rightarrow> Inl e
        | Reply status text body \<Rightarrow>
            (case text of
               Inl e \<Rightarrow> Inl e
             | Inr _ \<Rightarrow>
                 if status \<noteq> 200 then Inr None
                 else bind_res body (\<lambda>d.
                      bind_res (py_contains d ''appointments'') (\<lambda>has.
                      bind_res (if has then bind_res (py_get d ''appointments'' (JArr []))
                                              (\<lambda>v. bind_res (py_len v) (\<lambda>_. Inr ()))
                                else py_keys d) (\<lambda>_. Inr (Some d))))))"

definition details_once ::
    "(http_reply \<Rightarrow> json option res) \<Rightarrow> server \<Rightarrow> (api \<Rightarrow> json option res \<times> api) \<Rightarrow> api
       \<Rightarrow> json option res \<times> api" where
  "details_once answer srv retry a =
     (let r = reply srv (requests a); a1 = sent a in
      if status_401 r \<and> \<not> text_fails r
      then (case login srv a1 of
              (Inl e, a2) \<Rightarrow> (details_handlers (Inl e), a2)
            | (Inr ok, a2) \<Rightarrow> if ok then retry a2 else (Inr None, a2))
      else (answer r, a1))"

text \<open>
  Before its request \<^verbatim>\<open>_get_account_details\<close> logs the start of the token,
  \<^verbatim>\<open>self._access_token[:10] if self._access_token else "None"\<close>: a token that is true
  and is neither a string nor a list cannot be sliced.
\<close>

definition token_preview :: "json \<Rightarrow> unit res" where
  "token_preview tok =
     (if py_truthy tok
      then (case tok of JStr s \<Rightarrow> Inr () | JArr xs \<Rightarrow> Inr () | _ \<Rightarrow> Inl TypeError)
      else Inr ())"

definition account_details_once ::
    "server \<Rightarrow> (api \<Rightarrow> json option res \<times> api) \<Rightarrow> api \<Rightarrow> json option res \<times> api" where
  "account_details_once srv retry a =
     (case token_preview (access_token a) of
        Inl e \<Rightarrow> (details_handlers (Inl e), a)
      | Inr _ \<Rightarrow> details_once details_of_reply srv retry a)"

fun get_account_details :: "server \<Rightarrow> nat \<Rightarrow> api \<Rightarrow> json option res \<times> api" where
  "get_account_details srv 0 a =
     account_details_once srv (\<lambda>a2. (Inl RecursionError, a2)) a"
| "get_account_details srv (Suc depth) a =
     account_details_once srv (get_account_details srv depth) a"

definition awards_of_reply :: "http_reply \<Rightarrow> json option res" where
  "awards_of_reply r =
     details_handlers
       (case r of
          Raises e \<Rightarrow> Inl e
        | Reply status text body \<Rightarrow>
            (case text of
               Inl e \<Rightarrow> Inl e
             | Inr _ \<Rightarrow>
                 if status \<noteq> 200 then Inr None else bind_res body (\<lambda>d. Inr (Some d))))"

fun get_awards :: "server \<Rightarrow> nat \<Rightarrow> api \<Rightarrow> json option res \<times> api" where
  "get_awards srv 0 a = details_once awards_of_reply srv (\<lambda>a2. (Inl RecursionError, a2)) a"
| "get_awards srv (Suc depth) a = details_once awards_of_reply srv (get_awards srv depth) a"

subsection \<open>Runs of answers\<close>

text \<open>
  A 401 answer whose text can be read, an answer with another status or none, a login
  answer on which \<^verbatim>\<open>login\<close> returns \<open>True\<close>, and one on which it returns \<open>False\<close>.
\<close>

definition unauthorized :: "http_reply \<Rightarrow> bool" where
  "unauthorized r = (status_401 r \<and> \<not> text_fails r)"

definition answered :: "http_reply \<Rightarrow> bool" where
  "answered r = (\<not> status_401 r)"

definition blank_api :: api where
  "blank_api = \<lparr>access_token = JNull, requests = 0, logins = 0\<rparr>"

definition accepts :: "http_reply \<Rightarrow> bool" where
  "accepts r = (fst (login_with r blank_api) = Inr True)"

definition refuses :: "http_reply \<Rightarrow> bool" where
  "refuses r = (fst (login_with r blank_api) = Inr False)"

text \<open>The client after \<open>k\<close> rounds of a request that is answered 401 and a login.\<close>

fun relogged :: "server \<Rightarrow> nat \<Rightarrow> api \<Rightarrow> api" where
  "relogged srv 0 a = a"
| "relogged srv (Suc k) a = relogged srv k (snd (login srv (sent a)))"

text \<open>The client after \<open>k\<close> such rounds, one more 401 answer and one more login.\<close>

definition relogged_refused :: "server \<Rightarrow> nat \<Rightarrow> api \<Rightarrow> api" where
  "relogged_refused srv k a = snd (login srv (sent (relogged srv k a)))"

text \<open>
  \<open>k\<close> answers from the \<open>n\<close>-th on are 401 answers, \<open>k\<close> logins from the \<open>m\<close>-th on
  succeed.
\<close>

definition unauthorized_run :: "server \<Rightarrow> nat \<Rightarrow> nat \<Rightarrow> bool" where
  "unauthorized_run srv n k = list_all (\<lambda>i. unauthorized (reply srv (n + i))) [0 ..< k]"

definition logins_succeed :: "server \<Rightarrow> nat \<Rightarrow> nat \<Rightarrow> bool" where
  "logins_succeed srv m k = list_all (\<lambda>i. accepts (login_reply srv (m + i))) [0 ..< k]"


text \<open>The token can be logged by each of the first \<open>k\<close> invocations.\<close>

definition previewable :: "server \<Rightarrow> nat \<Rightarrow> api \<Rightarrow> bool" where
  "previewable srv k a =
     list_all (\<lambda>j. token_preview (access_token (relogged srv j a)) = Inr ()) [0 ..< k]"

section \<open>The slot matching engine\<close>

subsection \<open>Inputs of the service\<close>

text \<open>
  The call data of \<^verbatim>\<open>booking_helper\<close> after the service schema: a date or nothing, a
  day name or nothing, the time text or nothing. The tolerance is the length of
  \<^verbatim>\<open>timedelta(hours=tolerance_hours)\<close> in microseconds.
\<close>

record call_data =
  venue_id :: string
  target_date :: "date option"
  target_day_of_week :: "string option"
  target_time :: "string option"
  tolerance_hours :: "int option"
  procedure_code :: "string option"
  auto_book :: "bool option"
  min_days_from_last_appointment :: "int option"

definition DAYS_OF_WEEK :: "(string \<times> int) list" where
  "DAYS_OF_WEEK =
     [(''monday'', 0), (''tuesday'', 1), (''wednesday'', 2), (''thursday'', 3),
      (''friday'', 4), (''saturday'', 5), (''sunday'', 6)]"

definition lower_char :: "char \<Rightarrow> char" where
  "lower_char c =
     (let n = (of_char c :: nat) in if 65 \<le> n \<and> n \<le> 90 then char_of (n + 32) else c)"

text \<open>\<^verbatim>\<open>validate_day_of_week\<close>: \<open>None\<close> stands for the \<^verbatim>\<open>vol.Invalid\<close> it raises.\<close>

definition validate_day_of_week :: "string option \<Rightarrow> string option option" where
  "validate_day_of_week v =
     (case v of
        None \<Rightarrow> Some None
      | Some s \<Rightarrow>
          (let lowercase_value = map lower_char s in
           if map_of DAYS_OF_WEEK lowercase_value \<noteq> None then Some (Some lowercase_value)
           else None))"

subsection \<open>The target date and the tolerance window\<close>

text \<open>\<^verbatim>\<open>xs[i]\<close> on a list.\<close>

definition py_index :: "'a list \<Rightarrow> nat \<Rightarrow> 'a res" where
  "py_index xs i = (if i < length xs then Inr (xs ! i) else Inl IndexError)"

text \<open>Lines 359 to 361: the time of day from the normalised text.\<close>

definition parse_target_time :: "string \<Rightarrow> int res" where
  "parse_target_time target_time_str =
     (let parts = py_split CHR '':'' target_time_str in
      bind_res (py_index parts 0) (\<lambda>p0.
      bind_res (py_int_str p0) (\<lambda>hour.
      bind_res (py_index parts 1) (\<lambda>p1.
      bind_res (py_int_str p1) (\<lambda>minute.
      py_time hour minute)))))"

text \<open>
  Lines 388 to 407: the next date from \<open>current_date\<close> on whose weekday is
  \<open>target_day_idx\<close>.
\<close>

definition next_weekday_date :: "date \<Rightarrow> int \<Rightarrow> date res" where
  "next_weekday_date current_date target_day_idx =
     (let current_day_idx = weekday current_date;
          days_to_add =
            (if current_day_idx = target_day_idx then 0
             else (let d = (target_day_idx - current_day_idx) mod 7 in
                   if d < 0 then d + 7 else d))
      in bind_res (timedelta_days days_to_add) (date_add current_date))"

text \<open>
  Lines 368 to 408. The local variable \<^verbatim>\<open>day_of_week\<close> is assigned only in the
  \<^verbatim>\<open>else\<close> branch of the test for an explicit date; the statements after the branch
  run in both cases and read it. \<open>None\<close> is the unassigned variable.
\<close>

definition resolve_target_date ::
    "json option \<Rightarrow> date \<Rightarrow> coordinator \<Rightarrow> date option \<Rightarrow> string option \<Rightarrow> int \<Rightarrow> (date \<times> date) res" where
  "resolve_target_date fetched today c given_date given_day min_days_from_last =
     bind_res (case given_date of
                 Some d \<Rightarrow> Inr None
               | None \<Rightarrow>
                   (case given_day of
                      None \<Rightarrow> Inl KeyError
                    | Some w \<Rightarrow> (case map_of DAYS_OF_WEEK w of
                                   None \<Rightarrow> Inl KeyError
                                 | Some i \<Rightarrow> Inr (Some w)))) (\<lambda>day_of_week.
     bind_res (earliest_allowed_date fetched today c min_days_from_last) (\<lambda>earliest.
     bind_res (case day_of_week of
                 None \<Rightarrow> Inl UnboundLocalError
               | Some w \<Rightarrow> (case map_of DAYS_OF_WEEK w of
                              None \<Rightarrow> Inl KeyError
                            | Some i \<Rightarrow> Inr i)) (\<lambda>target_day_idx.
     bind_res (next_weekday_date earliest target_day_idx) (\<lambda>tdate.
     Inr (earliest, tdate)))))"

text \<open>Lines 410 to 417: the tolerance window, cut to the target date.\<close>

definition tolerance_window :: "date \<Rightarrow> int \<Rightarrow> int \<Rightarrow> (datetime \<times> datetime \<times> datetime) res" where
  "tolerance_window tdate ttime tolerance =
     (let target_datetime = combine tdate ttime in
      bind_res (timedelta_us tolerance) (\<lambda>delta.
      bind_res (datetime_add target_datetime (- delta)) (\<lambda>start_datetime.
      bind_res (timedelta_us tolerance) (\<lambda>delta.
      bind_res (datetime_add target_datetime delta) (\<lambda>end_datetime.
      Inr (target_datetime,
           max start_datetime (combine tdate 0),
           min end_datetime (combine tdate (86399 * 1000000))))))))"

record plan =
  plan_earliest :: date
  plan_date :: date
  plan_time :: int
  plan_datetime :: datetime
  plan_start :: datetime
  plan_end :: datetime

text \<open>Lines 358 to 423, all of them before the \<^verbatim>\<open>try\<close> block of the handler.\<close>

definition make_plan :: "json option \<Rightarrow> date \<Rightarrow> coordinator \<Rightarrow> call_data \<Rightarrow> plan res" where
  "make_plan fetched today c validated =
     bind_res (parse_target_time (normalize_time (target_time validated))) (\<lambda>tt.
     (let tolerance = (case tolerance_hours validated of None \<Rightarrow> 2 * us_per_hour | Some t \<Rightarrow> t);
          min_days_from_last =
            (case min_days_from_last_appointment validated of None \<Rightarrow> 14 | Some n \<Rightarrow> n)
      in bind_res (resolve_target_date fetched today c (target_date validated)
                     (target_day_of_week validated) min_days_from_last) (\<lambda>ed.
         bind_res (tolerance_window (snd ed) tt tolerance) (\<lambda>w.
         Inr \<lparr>plan_earliest = fst ed, plan_date = snd ed, plan_time = tt,
              plan_datetime = fst w, plan_start = fst (snd w), plan_end = snd (snd w)\<rparr>))))"

subsection \<open>Sessions with availability\<close>

fun has_availability :: "json list \<Rightarrow> bool res" where
  "has_availability [] = Inr False"
| "has_availability (period # rest) =
     bind_res (py_get period ''availableSlots'' (JNum 0)) (\<lambda>v.
     bind_res (py_int v) (\<lambda>n.
     if n > 0 then Inr True else has_availability rest))"

text \<open>Lines 451 to 467: identifier and date of every session with a free slot.\<close>

fun available_sessions :: "json list \<Rightarrow> (json \<times> json) list res" where
  "available_sessions [] = Inr []"
| "available_sessions (session # rest) =
     bind_res (py_get session ''sessionId'' (JStr [])) (\<lambda>session_id.
     bind_res (py_get session ''sessionDate'' (JStr [])) (\<lambda>session_date.
     bind_res (py_get session ''periods'' (JArr [])) (\<lambda>periods.
     bind_res (py_iter periods) (\<lambda>ps.
     bind_res (has_availability ps) (\<lambda>has.
     bind_res (available_sessions rest) (\<lambda>others.
     Inr (if has then (session_id, session_date) # others else others)))))))"

subsection \<open>Slots inside the window\<close>

text \<open>
  An entry of \<^verbatim>\<open>all_slots\<close>: the slot as the service sent it, with the four keys the
  engine adds. The source keeps the difference as a floating point number of hours;
  here it is the same duration in microseconds, which orders the entries the same way
  (the durations are whole minutes below one day, and the conversion is increasing and
  keeps them apart).
\<close>

record candidate =
  slot :: json
  session_id :: json
  session_date :: json
  slot_datetime :: datetime
  time_difference :: int

text \<open>Lines 495 to 512, for one slot: the entry it adds to \<^verbatim>\<open>all_slots\<close>, if any.\<close>

definition slot_entry :: "plan \<Rightarrow> json \<times> json \<Rightarrow> json \<Rightarrow> candidate option res" where
  "slot_entry p session_info sl =
     bind_res (py_get sl ''time'' (JStr [])) (\<lambda>tv.
     bind_res (as_str tv) (\<lambda>ts.
     (let slot_time_str = py_remove CHR ''T'' ts in
      if 4 \<le> length slot_time_str
      then (case bind_res (py_int_str (take 2 slot_time_str)) (\<lambda>hour.
                 bind_res (py_int_str (drop 2 slot_time_str)) (\<lambda>minute.
                 bind_res (py_time hour minute) (\<lambda>slot_time.
                 Inr (combine (plan_date p) slot_time)))) of
              Inl e \<Rightarrow> if caught [ValueError, TypeError] e then Inr None else Inl e
            | Inr sdt \<Rightarrow>
                if plan_start p \<le> sdt \<and> sdt \<le> plan_end p
                then Inr (Some \<lparr>slot = sl, session_id = fst session_info,
                                session_date = snd session_info, slot_datetime = sdt,
                                time_difference = \<bar>sdt - plan_datetime p\<bar>\<rparr>)
                else Inr None)
      else Inr None)))"

fun slot_entries :: "plan \<Rightarrow> json \<times> json \<Rightarrow> json list \<Rightarrow> candidate list res" where
  "slot_entries p session_info [] = Inr []"
| "slot_entries p session_info (sl # rest) =
     bind_res (slot_entry p session_info sl) (\<lambda>c.
     bind_res (slot_entries p session_info rest) (\<lambda>cs.
     Inr (case c of None \<Rightarrow> cs | Some x \<Rightarrow> x # cs)))"

text \<open>The entries one session contributes, from the slot list the service returned.\<close>

definition session_entries :: "plan \<Rightarrow> json \<times> json \<Rightarrow> json \<Rightarrow> candidate list res" where
  "session_entries p session_info slots =
     (if py_truthy slots then bind_res (py_iter slots) (slot_entries p session_info)
      else Inr [])"

text \<open>
  Lines 484 to 512: one slot query per session with availability, in order; the first
  exception ends the loop.
\<close>

fun collect_slots ::
    "server \<Rightarrow> nat \<Rightarrow> plan \<Rightarrow> (json \<times> json) list \<Rightarrow> api \<Rightarrow> candidate list res \<times> api" where
  "collect_slots srv depth p [] a = (Inr [], a)"
| "collect_slots srv depth p (session_info # rest) a =
     (case get_slots_for_session srv depth a of
        (Inl e, a1) \<Rightarrow> (Inl e, a1)
      | (Inr slots, a1) \<Rightarrow>
          (case session_entries p session_info slots of
             Inl e \<Rightarrow> (Inl e, a1)
           | Inr cs \<Rightarrow>
               (case collect_slots srv depth p rest a1 of
                  (Inl e, a2) \<Rightarrow> (Inl e, a2)
                | (Inr others, a2) \<Rightarrow> (Inr (cs @ others), a2))))"

text \<open>Lines 527 to 530: the stable sort by the difference, and its first entry.\<close>

definition best_slot :: "candidate list \<Rightarrow> candidate res" where
  "best_slot all_slots =
     (case sort_key time_difference all_slots of
        [] \<Rightarrow> Inl IndexError
      | b # _ \<Rightarrow> Inr b)"

subsection \<open>The search as the description gives it\<close>











subsection \<open>The result of the service\<close>

text \<open>
  The structured result \<^verbatim>\<open>{success, message, appointment, error}\<close>. The texts are kept
  as the cases the source distinguishes, with the values it formats into them.
\<close>

datatype message =
    No_message
  | No_sessions_available_for date
  | No_available_slots_found_for date
  | No_slots_within int int date
  | Appointment_booked_successfully
  | Failed_to_book booking_error
  | Found_best_available_not_booked

datatype error_value =
    Invalid_parameters
  | Date_or_day_must_be_provided
  | No_coordinators_found
  | Failed_to_login
  | No_sessions_available
  | No_available_slots
  | No_slots_within_tolerance_window
  | Booking_error booking_error
  | Exception_str exn

record appointment_data =
  appt_date :: date
  appt_time :: string
  appt_venue_id :: string
  appt_procedure :: json
  appt_session_id :: json
  appt_session_date :: json
  appt_session_time :: json
  appt_time_difference :: int

record response_data =
  success :: bool
  message :: message
  appointment :: "appointment_data option"
  error :: "error_value option"

definition initial_response :: response_data where
  "initial_response = \<lparr>success = False, message = No_message, appointment = None, error = None\<rparr>"

text \<open>\<^verbatim>\<open>not coordinator.api._access_token\<close>.\<close>

definition token_missing :: "api \<Rightarrow> bool" where
  "token_missing a = (\<not> py_truthy (access_token a))"

text \<open>
  \<^verbatim>\<open>except Exception\<close> catches every exception of the model but \<^verbatim>\<open>CancelledError\<close>,
  which derives from \<^verbatim>\<open>BaseException\<close>.
\<close>

definition except_exception :: "exn \<Rightarrow> bool" where
  "except_exception e = (e \<noteq> CancelledError)"

subsection \<open>Acting on the best slot\<close>

text \<open>Lines 531 to 546: the appointment reported for the best slot.\<close>

definition appointment_of :: "string \<Rightarrow> plan \<Rightarrow> candidate \<Rightarrow> appointment_data res" where
  "appointment_of venue p b =
     bind_res (py_get (slot b) ''time'' (JStr [])) (\<lambda>tv.
     bind_res (as_str tv) (\<lambda>ts.
     bind_res (py_get (slot b) ''procedureDescription'' (JStr [])) (\<lambda>procedure.
     bind_res (py_getitem (slot b) ''time'') (\<lambda>session_time.
     (let best_time_str = py_remove CHR ''T'' ts;
          best_time_formatted =
            (if 4 \<le> length best_time_str
             then take 2 best_time_str @ '':'' @ drop 2 best_time_str
             else best_time_str)
      in Inr \<lparr>appt_date = plan_date p, appt_time = best_time_formatted,
              appt_venue_id = venue, appt_procedure = procedure,
              appt_session_id = session_id b, appt_session_date = session_date b,
              appt_session_time = session_time,
              appt_time_difference = time_difference b\<rparr>)))))"

text \<open>
  Lines 549 to 650. The third component of the result tells whether the refresh of the
  account snapshot after a booking was started.
\<close>

definition act ::
    "server \<Rightarrow> nat \<Rightarrow> bool \<Rightarrow> appointment_data \<Rightarrow> api \<Rightarrow> response_data \<times> api \<times> bool" where
  "act srv depth auto appointment_data a =
     (if auto
      then (case book_appointment srv depth a of
              (booking_result, a1) \<Rightarrow>
                (case booking_result of
                   Booking_success d \<Rightarrow>
                     (initial_response\<lparr>success := True,
                        message := Appointment_booked_successfully,
                        appointment := Some appointment_data\<rparr>, a1, True)
                 | Booking_failure error_message \<Rightarrow>
                     (initial_response\<lparr>success := False,
                        message := Failed_to_book error_message,
                        error := Some (Booking_error error_message),
                        appointment := Some appointment_data\<rparr>, a1, False)))
      else (initial_response\<lparr>success := True,
              message := Found_best_available_not_booked,
              appointment := Some appointment_data\<rparr>, a, False))"

subsection \<open>The search\<close>

text \<open>
  Lines 425 to 546, the first part of the \<^verbatim>\<open>try\<close> block: the search ends with the
  response of one of its early returns, or with the appointment data of the best slot,
  or with the exception that reaches the handler of the block. The result of the login
  of line 428 is not looked at, only the token it leaves.
\<close>

datatype search_result = Stopped response_data | Found appointment_data

definition search ::
    "server \<Rightarrow> nat \<Rightarrow> call_data \<Rightarrow> plan \<Rightarrow> api \<Rightarrow> search_result res \<times> api" where
  "search srv depth validated p a =
     (case (if token_missing a then login srv a else (Inr True, a)) of
        (Inl e, a1) \<Rightarrow> (Inl e, a1)
      | (Inr _, a1) \<Rightarrow>
      if token_missing a1
      then (Inr (Stopped (initial_response\<lparr>error := Some Failed_to_login\<rparr>)), a1)
      else
        (case get_sessions_for_date srv depth a1 of
           (Inl e, a2) \<Rightarrow> (Inl e, a2)
         | (Inr sessions, a2) \<Rightarrow>
             if \<not> py_truthy sessions
             then (Inr (Stopped (initial_response\<lparr>
                          message := No_sessions_available_for (plan_date p),
                          error := Some No_sessions_available\<rparr>)), a2)
             else
               (case bind_res (py_iter sessions) available_sessions of
                  Inl e \<Rightarrow> (Inl e, a2)
                | Inr avail \<Rightarrow>
                    if avail = []
                    then (Inr (Stopped (initial_response\<lparr>
                                 message := No_available_slots_found_for (plan_date p),
                                 error := Some No_available_slots\<rparr>)), a2)
                    else
                      (case collect_slots srv depth p avail a2 of
                         (Inl e, a3) \<Rightarrow> (Inl e, a3)
                       | (Inr all_slots, a3) \<Rightarrow>
                           if all_slots = []
                           then (Inr (Stopped (initial_response\<lparr>
                                  message := No_slots_within
                                    (case tolerance_hours validated of
                                       None \<Rightarrow> 2 * us_per_hour | Some t \<Rightarrow> t)
                                    (plan_time p) (plan_date p),
                                  error := Some No_slots_within_tolerance_window\<rparr>)), a3)
                           else
                             (case bind_res (best_slot all_slots)
                                     (appointment_of (venue_id validated) p) of
                                Inl e \<Rightarrow> (Inl e, a3)
                              | Inr appointment_data \<Rightarrow>
                                  (Inr (Found appointment_data), a3))))))"

subsection \<open>The service handler\<close>

text \<open>
  Lines 425 to 650, the body of the \<^verbatim>\<open>try\<close> block: the search, then the booking or
  the report of the best slot.
\<close>

definition search_and_act ::
    "server \<Rightarrow> nat \<Rightarrow> call_data \<Rightarrow> plan \<Rightarrow> api \<Rightarrow> response_data res \<times> api \<times> bool" where
  "search_and_act srv depth validated p a =
     (case search srv depth validated p a of
        (Inl e, a3) \<Rightarrow> (Inl e, a3, False)
      | (Inr (Stopped resp), a3) \<Rightarrow> (Inr resp, a3, False)
      | (Inr (Found appointment_data), a3) \<Rightarrow>
          (case act srv depth (case auto_book validated of None \<Rightarrow> False | Some b \<Rightarrow> b)
                  appointment_data a3 of
             (resp, a4, refreshed) \<Rightarrow> (Inr resp, a4, refreshed)))"

text \<open>
  Line 322: the call data after the schema, or \<open>None\<close> for the \<^verbatim>\<open>vol.Invalid\<close> it
  raises. Of the validators only the one of the day of the week changes or refuses a
  value here; the other values have the types the schema coerces to.
\<close>

definition SERVICE_SCHEMA_BOOKING_HELPER :: "call_data \<Rightarrow> call_data option" where
  "SERVICE_SCHEMA_BOOKING_HELPER call =
     (case validate_day_of_week (target_day_of_week call) of
        None \<Rightarrow> None
      | Some day \<Rightarrow> Some (call\<lparr>target_day_of_week := day\<rparr>))"

text \<open>
  Whether the statements before the \<^verbatim>\<open>try\<close> block get as far as line 378, the call of
  \<^verbatim>\<open>get_last_donation_date\<close>, and whether that call starts a refresh (lines 86 and 87).
\<close>

definition reaches_last_donation :: "call_data \<Rightarrow> bool" where
  "reaches_last_donation validated =
     (case parse_target_time (normalize_time (target_time validated)) of
        Inl e \<Rightarrow> False
      | Inr tt \<Rightarrow>
          (case target_date validated of
             Some d \<Rightarrow> True
           | None \<Rightarrow>
               (case target_day_of_week validated of
                  None \<Rightarrow> False
                | Some w \<Rightarrow> map_of DAYS_OF_WEEK w \<noteq> None)))"

definition stale :: "coordinator \<Rightarrow> bool" where
  "stale c = (no_data c \<or> \<not> last_update_success c)"

definition refreshes_before_search :: "coordinator \<Rightarrow> call_data \<Rightarrow> nat" where
  "refreshes_before_search c validated =
     (if reaches_last_donation validated \<and> stale c then 1 else 0)"

text \<open>
  \<^verbatim>\<open>async_booking_helper_service\<close>, for a stack with room for \<open>depth\<close> nested
  invocations below each remote call. The result is \<open>Inr\<close> the response the handler
  returns or \<open>Inl\<close> the exception that leaves it, the client, and the number of
  refreshes of the account snapshot the run started. The coordinator is the first
  registered one, if any. The branch for parameters the schema refuses calls
  \<^verbatim>\<open>persistent_notification.async_create\<close> of the module without the \<^verbatim>\<open>hass\<close> argument
  the function requires, which is a \<^verbatim>\<open>TypeError\<close>.
\<close>

definition async_booking_helper_service ::
    "server \<Rightarrow> nat \<Rightarrow> json option \<Rightarrow> date \<Rightarrow> coordinator option \<Rightarrow> call_data \<Rightarrow> api
       \<Rightarrow> response_data res \<times> api \<times> nat" where
  "async_booking_helper_service srv depth fetched today coordinators call a =
     (case SERVICE_SCHEMA_BOOKING_HELPER call of
        None \<Rightarrow> (Inl TypeError, a, 0)
      | Some validated \<Rightarrow>
          if target_date validated = None
             \<and> (target_day_of_week validated = None \<or> target_day_of_week validated = Some [])
          then (Inr (initial_response\<lparr>error := Some Date_or_day_must_be_provided\<rparr>), a, 0)
          else
            (case coordinators of
               None \<Rightarrow> (Inr (initial_response\<lparr>error := Some No_coordinators_found\<rparr>), a, 0)
             | Some c \<Rightarrow>
                 (case make_plan fetched today c validated of
                    Inl e \<Rightarrow> (Inl e, a, refreshes_before_search c validated)
                  | Inr p \<Rightarrow>
                      (case search_and_act srv depth validated p a of
                         (Inl e, a', refreshed) \<Rightarrow>
                           (if except_exception e
                            then Inr (initial_response\<lparr>success := False,
                                        error := Some (Exception_str e)\<rparr>)
                            else Inl e,
                            a', refreshes_before_search c validated)
                       | (Inr resp, a', refreshed) \<Rightarrow>
                           (Inr resp, a',
                            refreshes_before_search c validated
                              + (if refreshed then 1 else 0))))))"
section \<open>Concrete inputs\<close>

text \<open>Day 738895 is Wednesday 2024-01-10.\<close>

definition snapshot_no_appointments :: coordinator where
  "snapshot_no_appointments =
     \<lparr>data = Some (JObj [(''appointments'', JArr [])]), last_update_success = True\<rparr>"

definition call_explicit_date :: call_data where
  "call_explicit_date =
     \<lparr>venue_id = ''V1'', target_date = Some 738900, target_day_of_week = None,
      target_time = Some ''10:00'', tolerance_hours = None, procedure_code = None,
      auto_book = None, min_days_from_last_appointment = None\<rparr>"

definition call_bad_time :: call_data where
  "call_bad_time =
     \<lparr>venue_id = ''V1'', target_date = None, target_day_of_week = Some ''monday'',
      target_time = Some ''25:00'', tolerance_hours = None, procedure_code = None,
      auto_book = None, min_days_from_last_appointment = None\<rparr>"

definition no_snapshot :: coordinator where
  "no_snapshot = \<lparr>data = None, last_update_success = False\<rparr>"

text \<open>Appointments on 2024-01-10 and on 2024-01-05, and one without a date.\<close>

definition snapshot_two_appointments :: coordinator where
  "snapshot_two_appointments =
     \<lparr>data = Some (JObj [(''appointments'',
         JArr [JObj [(''session'', JObj [(''sessionDate'', JStr ''2024-01-10T00:00:00'')])],
               JObj [(''session'', JObj [(''sessionDate'', JStr ''2024-01-05T00:00:00'')])],
               JObj [(''session'', JObj [])]])]),
      last_update_success = True\<rparr>"

text \<open>
  A snapshot whose only appointment was on 2024-01-01 (day 738886) at 10:00, the clock
  at 09:00 on 2024-01-10, and a scheduler on the standard interval.
\<close>

definition past_appointment :: json where
  "past_appointment =
     JObj [(''session'', JObj [(''sessionDate'', JStr ''2024-01-01T00:00:00'')]),
           (''time'', JStr ''T1000'')]"

definition snapshot_past_appointment :: json where
  "snapshot_past_appointment = JObj [(''appointments'', JArr [past_appointment])]"

definition nine_on_jan_10 :: datetime where
  "nine_on_jan_10 = combine 738895 (9 * us_per_hour)"

definition scheduler_standard :: scheduler where
  "scheduler_standard =
     \<lparr>update_interval = STANDARD_SCAN_INTERVAL,
      dynamic_update_interval = STANDARD_SCAN_INTERVAL,
      next_appointment_datetime = None, refreshes_scheduled = 0\<rparr>"

text \<open>
  A login answer that carries a token. A service that answers 401 twice and then 200
  with one session, and accepts every login; a service that answers 401 and whose
  login answer has the status 403; a client with a token.
\<close>

definition one_session :: json where
  "one_session =
     JObj [(''sessionId'', JStr ''S1''), (''sessionDate'', JStr ''2024-01-15T00:00:00''),
           (''periods'', JArr [JObj [(''availableSlots'', JNum 3)]])]"

definition token_reply :: http_reply where
  "token_reply = Reply 200 (Inr ()) (Inr (JObj [(''accessToken'', JStr ''token'')]))"

definition twice_unauthorized :: server where
  "twice_unauthorized =
     \<lparr>reply = (\<lambda>n. if n < 2 then Reply 401 (Inr ()) (Inl JSONDecodeError)
                     else Reply 200 (Inr ()) (Inr (JObj [(''sessions'', JArr [one_session])]))),
      login_reply = (\<lambda>m. token_reply)\<rparr>"

definition login_refused :: server where
  "login_refused =
     \<lparr>reply = (\<lambda>n. Reply 401 (Inr ()) (Inl JSONDecodeError)),
      login_reply = (\<lambda>m. Reply 403 (Inr ()) (Inr (JObj [])))\<rparr>"

definition fresh_api :: api where
  "fresh_api = \<lparr>access_token = JStr ''stale'', requests = 0, logins = 0\<rparr>"

text \<open>
  A service that answers 401 to every request and accepts every login; one whose
  requests time out; one that answers 200 with a body that is not JSON; one that answers
  503 with a text that cannot be read; one that answers 401 and whose login answer is
  200 with a list as its body; one that answers 503.
\<close>

definition always_unauthorized :: server where
  "always_unauthorized =
     \<lparr>reply = (\<lambda>n. Reply 401 (Inr ()) (Inl JSONDecodeError)),
      login_reply = (\<lambda>m. token_reply)\<rparr>"

definition timing_out :: server where
  "timing_out =
     \<lparr>reply = (\<lambda>n. Raises TimeoutError), login_reply = (\<lambda>m. token_reply)\<rparr>"

definition unparsable :: server where
  "unparsable =
     \<lparr>reply = (\<lambda>n. Reply 200 (Inr ()) (Inl JSONDecodeError)),
      login_reply = (\<lambda>m. token_reply)\<rparr>"

definition unreadable :: server where
  "unreadable =
     \<lparr>reply = (\<lambda>n. Reply 503 (Inl ClientError) (Inl JSONDecodeError)),
      login_reply = (\<lambda>m. token_reply)\<rparr>"

definition login_not_an_object :: server where
  "login_not_an_object =
     \<lparr>reply = (\<lambda>n. Reply 401 (Inr ()) (Inl JSONDecodeError)),
      login_reply = (\<lambda>m. Reply 200 (Inr ()) (Inr (JArr [])))\<rparr>"

definition unavailable :: server where
  "unavailable =
     \<lparr>reply = (\<lambda>n. Reply 503 (Inr ()) (Inl JSONDecodeError)),
      login_reply = (\<lambda>m. token_reply)\<rparr>"

text \<open>The appointment of the slot at 12:20 of the search below.\<close>

definition found_appointment :: appointment_data where
  "found_appointment =
     \<lparr>appt_date = 738900, appt_time = ''12:20'', appt_venue_id = ''V1'',
      appt_procedure = JStr ''Whole blood'', appt_session_id = JStr ''S1'',
      appt_session_date = JStr ''2024-01-15T00:00:00'', appt_session_time = JStr ''T1220'',
      appt_time_difference = 2100000000\<rparr>"

text \<open>
  A search for Monday at 12:55 with two hours of tolerance: the service answers the
  session query with one session and the slot query with slots at 13:40, 12:20, 13:30,
  18:00 and one with a malformed time. The slots at 12:20 and 13:30 are both 35 minutes
  from the target.
\<close>

definition call_monday :: call_data where
  "call_monday =
     \<lparr>venue_id = ''V1'', target_date = None, target_day_of_week = Some ''Monday'',
      target_time = Some ''12:55'', tolerance_hours = None, procedure_code = None,
      auto_book = None, min_days_from_last_appointment = None\<rparr>"

definition slot_at :: "string \<Rightarrow> json" where
  "slot_at t = JObj [(''time'', JStr t), (''procedureDescription'', JStr ''Whole blood'')]"

definition slot_service :: server where
  "slot_service =
     \<lparr>reply = (\<lambda>n. if n = 0 then Reply 200 (Inr ()) (Inr (JObj [(''sessions'', JArr [one_session])]))
                     else Reply 200 (Inr ()) (Inr (JObj [(''slots'',
                            JArr [slot_at ''T1340'', slot_at ''T1220'', slot_at ''T1330'',
                                  slot_at ''T1800'', slot_at ''T12xx''])]))),
      login_reply = (\<lambda>m. token_reply)\<rparr>"

definition monday_plan :: plan where
  "monday_plan =
     \<lparr>plan_earliest = 738895, plan_date = 738900, plan_time = 46500000000,
      plan_datetime = 63841006500000000, plan_start = 63840999300000000,
      plan_end = 63841013700000000\<rparr>"




text \<open>
  The same search with \<^verbatim>\<open>auto_book\<close>: the third request is the booking, which the
  service answers with the provider status \<open>P\<close>, or with \<open>B\<close>. A coordinator whose
  snapshot is marked stale.
\<close>

definition call_monday_book :: call_data where
  "call_monday_book = call_monday\<lparr>auto_book := Some True\<rparr>"

definition booking_service :: "string \<Rightarrow> server" where
  "booking_service st =
     \<lparr>reply = (\<lambda>n. if n < 2 then reply slot_service n
                     else Reply 200 (Inr ()) (Inr (JObj [(''status'', JStr st)]))),
      login_reply = (\<lambda>m. token_reply)\<rparr>"

definition stale_snapshot :: coordinator where
  "stale_snapshot =
     \<lparr>data = Some (JObj [(''appointments'', JArr [])]), last_update_success = False\<rparr>"
section \<open>Properties of time normalisation\<close>

lemma py_zfill_unsigned: "\<not> signed s \<Longrightarrow> py_zfill 4 s = pad4 s"
  by (cases s) (auto simp: py_zfill_def pad4_def signed_def)

lemma py_split_ne: "py_split c s \<noteq> []"
  by (induction s) (auto split: list.splits)

lemma py_split_hd: "hd (py_split c s) = takeWhile (\<lambda>x. x \<noteq> c) s"
  by (induction s) (auto split: list.splits simp: py_split_ne)

lemma py_split_tl: "tl (py_split c s) = (case dropWhile (\<lambda>x. x \<noteq> c) s of [] \<Rightarrow> [] | _ # r \<Rightarrow> py_split c r)"
proof (induction s)
  case Nil
  then show ?case by simp
next
  case (Cons x xs)
  obtain w ws where w: "py_split c xs = w # ws"
    using py_split_ne[of c xs] by (cases "py_split c xs") auto
  show ?case
  proof (cases "x = c")
    case True
    then show ?thesis by simp
  next
    case False
    then have "tl (py_split c (x # xs)) = tl (py_split c xs)" using w by simp
    then show ?thesis using False Cons.IH by simp
  qed
qed

lemma py_split_length: "length (py_split c s) = Suc (py_count c s)"
  by (induction s) (auto simp: py_count_def py_split_ne split: list.splits)

lemma take2_split:
  assumes "py_count c s = 2"
  shows "py_join c (take 2 (py_split c s)) =
         takeWhile (\<lambda>x. x \<noteq> c) s @ c # takeWhile (\<lambda>x. x \<noteq> c) (tl (dropWhile (\<lambda>x. x \<noteq> c) s))"
proof -
  obtain a r where r: "py_split c s = a # r" using py_split_ne by (cases "py_split c s") auto
  have a: "a = takeWhile (\<lambda>x. x \<noteq> c) s" using py_split_hd[of c s] r by simp
  have lr: "length r = 2" using py_split_length[of c s] assms r by simp
  then obtain b r' where r': "r = b # r'" by (cases r) auto
  have "dropWhile (\<lambda>x. x \<noteq> c) s \<noteq> []"
  proof
    assume "dropWhile (\<lambda>x. x \<noteq> c) s = []"
    then have "tl (py_split c s) = []" by (simp only: py_split_tl list.case)
    then show False using r r' by simp
  qed
  then obtain y t where d: "dropWhile (\<lambda>x. x \<noteq> c) s = y # t" by (cases "dropWhile (\<lambda>x. x \<noteq> c) s") auto
  have "py_split c t = b # r'" using py_split_tl[of c s] r r' d by simp
  then have "b = takeWhile (\<lambda>x. x \<noteq> c) t" using py_split_hd[of c t] by simp
  then show ?thesis using r r' a d by simp
qed

lemma normalize_time_general:
  "normalize_time (Some s) =
     (let z = py_zfill 4 (py_remove CHR '':'' (strip_seconds s)) in take 2 z @ '':'' @ drop 2 z)"
  by (simp add: normalize_time_def strip_seconds_def take2_split Let_def)

lemma zfill_len: "4 \<le> length (py_zfill 4 s)"
  by (cases s) (auto simp: py_zfill_def)

lemma zfill_nocolon: "CHR '':'' \<notin> set s \<Longrightarrow> CHR '':'' \<notin> set (py_zfill 4 s)"
  by (cases s) (auto simp: py_zfill_def)

lemma count_notin: "c \<notin> set s \<Longrightarrow> py_count c s = 0"
  by (induction s) (auto simp: py_count_def)

lemma count_app: "py_count c (a @ b) = py_count c a + py_count c b"
  by (simp add: py_count_def)

lemma one_colon: "py_count CHR '':'' (normalize_time x) = 1"
proof (cases x)
  case None then show ?thesis by (simp add: normalize_time_def py_count_def)
next
  case (Some s)
  define z where "z = py_zfill 4 (py_remove CHR '':'' (strip_seconds s))"
  have nc: "CHR '':'' \<notin> set z" unfolding z_def by (rule zfill_nocolon) (simp add: py_remove_def)
  have "CHR '':'' \<notin> set (take 2 z)" "CHR '':'' \<notin> set (drop 2 z)"
    using nc by (auto dest: in_set_takeD in_set_dropD)
  then have "py_count CHR '':'' (take 2 z @ '':'' @ drop 2 z) = 1"
    by (auto simp: py_count_def filter_empty_conv)
  then show ?thesis using Some by (simp add: normalize_time_general z_def Let_def)
qed

lemma normalize_time_short:
  assumes "length s \<le> 2" "CHR '':'' \<notin> set s" "\<not> signed s"
  shows "normalize_time (Some s) = ''00:'' @ replicate (2 - length s) CHR ''0'' @ s"
proof -
  have c: "py_count CHR '':'' s \<noteq> 2" using assms(2) by (simp add: count_notin)
  have r: "py_remove CHR '':'' s = s" using assms(2) by (auto simp: py_remove_def filter_id_conv)
  have z: "py_zfill 4 s = pad4 s" using assms(3) by (rule py_zfill_unsigned)
  have "length s = 0 \<or> length s = 1 \<or> length s = 2" using assms(1) by arith
  then have "take 2 (pad4 s) = ''00'' \<and> drop 2 (pad4 s) = replicate (2 - length s) CHR ''0'' @ s"
    by (auto simp: pad4_def eval_nat_numeral)
  then show ?thesis using c r z by (simp add: normalize_time_def)
qed

lemma normalize_time_signed:
  assumes "signed t" "length t < 4" "t = py_remove CHR '':'' (strip_seconds s)"
  shows "normalize_time (Some s) = (let z = hd t # pad3 (tl t) in take 2 z @ '':'' @ drop 2 z)"
proof -
  obtain c r where t: "t = c # r" and c: "c = CHR ''+'' \<or> c = CHR ''-''"
    using assms(1) by (cases t) (auto simp: signed_def)
  have "py_zfill 4 t = c # replicate (4 - length t) CHR ''0'' @ r"
    using t c assms(2) by (auto simp: py_zfill_def)
  moreover have "4 - length t = 3 - length r" using t by simp
  ultimately have "py_zfill 4 t = hd t # pad3 (tl t)" using t by (simp add: pad3_def)
  then show ?thesis using assms(3) by (simp add: normalize_time_general Let_def)
qed

lemma normalize_time_long:
  assumes "4 \<le> length (py_remove CHR '':'' (strip_seconds s))"
  shows "normalize_time (Some s) = described_normalize s"
  using assms
  by (simp add: normalize_time_general described_normalize_def time_digits_def
        py_zfill_def pad4_def Let_def)

lemma normalize_time_short_signed:
  assumes "c = CHR ''+'' \<or> c = CHR ''-''" "length r \<le> 1" "CHR '':'' \<notin> set r"
  shows "normalize_time (Some (c # r)) = c # ''0:'' @ replicate (2 - length r) CHR ''0'' @ r"
proof -
  have nc: "CHR '':'' \<notin> set (c # r)" using assms(1,3) by auto
  have cnt: "py_count CHR '':'' (c # r) \<noteq> 2" using nc by (simp add: count_notin)
  have rem: "py_remove CHR '':'' (c # r) = c # r"
    using nc by (auto simp: py_remove_def filter_id_conv)
  have "length r = 0 \<or> length r = 1" using assms(2) by arith
  then have "py_zfill 4 (c # r) = c # CHR ''0'' # replicate (2 - length r) CHR ''0'' @ r"
    using assms(1) by (auto simp: py_zfill_def eval_nat_numeral)
  then show ?thesis using cnt rem by (simp add: normalize_time_def)
qed

text \<open>
  C10. \<^verbatim>\<open>normalize_time\<close> is a total function of \<open>None\<close> and of every string.
  \<open>None\<close> gives \<open>12:55\<close>. For a string, the seconds are dropped when there are exactly
  two colons, the colons are removed, the rest is zero-filled to four characters and
  cut after the second character. The zeros are put on the left, as described, unless
  the text is shorter than four characters and starts with a sign: then the sign stays
  first and the zeros follow it. So an input of one or two characters without a sign is
  read as minutes (\<open>9\<close> gives \<open>00:09\<close>, \<open>45\<close> gives \<open>00:45\<close>), a sign with at most one
  more character gives the sign, \<open>0:\<close> and two characters (\<open>-5\<close> gives \<open>-0:05\<close>), and
  no range is checked (\<open>99:99\<close> stays \<open>99:99\<close>). The result always holds exactly one
  colon.
\<close>

theorem normalize_time_total:
  "normalize_time None = ''12:55''
   \<and> (\<forall>s. \<not> signed (time_digits s) \<or> 4 \<le> length (time_digits s) \<longrightarrow>
          normalize_time (Some s) = described_normalize s)
   \<and> (\<forall>s. signed (time_digits s) \<and> length (time_digits s) < 4 \<longrightarrow>
          normalize_time (Some s) =
          (let z = hd (time_digits s) # pad3 (tl (time_digits s))
           in take 2 z @ '':'' @ drop 2 z))
   \<and> (\<forall>s. length s \<le> 2 \<and> CHR '':'' \<notin> set s \<and> \<not> signed s \<longrightarrow>
          normalize_time (Some s) = ''00:'' @ replicate (2 - length s) CHR ''0'' @ s)
   \<and> (\<forall>c r. (c = CHR ''+'' \<or> c = CHR ''-'') \<and> length r \<le> 1 \<and> CHR '':'' \<notin> set r \<longrightarrow>
          normalize_time (Some (c # r)) = c # ''0:'' @ replicate (2 - length r) CHR ''0'' @ r)
   \<and> (\<forall>x. py_count CHR '':'' (normalize_time x) = 1)
   \<and> normalize_time (Some ''9'') = ''00:09''
   \<and> normalize_time (Some ''45'') = ''00:45''
   \<and> normalize_time (Some ''99:99'') = ''99:99''
   \<and> normalize_time (Some ''12:55:00'') = ''12:55''
   \<and> normalize_time (Some ''-5'') = ''-0:05''"
proof -
  have a: "normalize_time None = ''12:55''" by (simp add: normalize_time_def)
  have b: "normalize_time (Some s) = described_normalize s"
    if "\<not> signed (time_digits s) \<or> 4 \<le> length (time_digits s)" for s
  proof (cases "4 \<le> length (time_digits s)")
    case True
    then show ?thesis using normalize_time_long[of s] by (simp add: time_digits_def)
  next
    case False
    then have "\<not> signed (time_digits s)" using that by simp
    then show ?thesis
      by (simp add: normalize_time_general py_zfill_unsigned described_normalize_def
            time_digits_def)
  qed
  have c: "normalize_time (Some s) =
          (let z = hd (time_digits s) # pad3 (tl (time_digits s))
           in take 2 z @ '':'' @ drop 2 z)"
    if "signed (time_digits s) \<and> length (time_digits s) < 4" for s
    using that normalize_time_signed[of "time_digits s" s] by (simp add: time_digits_def)
  have e: "normalize_time (Some ''9'') = ''00:09''" "normalize_time (Some ''45'') = ''00:45''"
    "normalize_time (Some ''99:99'') = ''99:99''" "normalize_time (Some ''12:55:00'') = ''12:55''"
    "normalize_time (Some ''-5'') = ''-0:05''"
    by (simp_all add: normalize_time_def py_count_def py_remove_def py_zfill_def eval_nat_numeral)
  show ?thesis
    using a b c e normalize_time_short normalize_time_short_signed one_colon by blast
qed

theorem normalize_time_total_witness:
  "length ''7'' \<le> 2 \<and> CHR '':'' \<notin> set ''7'' \<and> \<not> signed ''7''
   \<and> normalize_time (Some ''7'') = ''00:07''
   \<and> \<not> signed (time_digits ''7:30'')
   \<and> normalize_time (Some ''7:30'') = ''07:30''
   \<and> signed (time_digits ''+1:2'') \<and> length (time_digits ''+1:2'') < 4
   \<and> normalize_time (Some ''+1:2'') = ''+0:12''
   \<and> length ''5'' \<le> 1 \<and> CHR '':'' \<notin> set ''5''
   \<and> normalize_time (Some ''-5'') = ''-0:05''"
proof -
  note r = normalize_time_total[THEN conjunct2]
  note r2 = r[THEN conjunct1, rule_format]
  note r3 = r[THEN conjunct2, THEN conjunct1, rule_format]
  note r4 = r[THEN conjunct2, THEN conjunct2, THEN conjunct1, rule_format]
  note r5 = r[THEN conjunct2, THEN conjunct2, THEN conjunct2, THEN conjunct1, rule_format]
  have d1: "time_digits ''7:30'' = ''730''" "time_digits ''+1:2'' = ''+12''"
    by (simp_all add: time_digits_def py_remove_def strip_seconds_def py_count_def)
  have h: "length ''7'' \<le> 2 \<and> CHR '':'' \<notin> set ''7'' \<and> \<not> signed ''7''"
    by (simp add: signed_def)
  have g: "\<not> signed (time_digits ''7:30'')" unfolding d1 by (simp add: signed_def)
  have k: "signed (time_digits ''+1:2'') \<and> length (time_digits ''+1:2'') < 4"
    unfolding d1 by (simp add: signed_def)
  have m: "length ''5'' \<le> 1 \<and> CHR '':'' \<notin> set ''5''" by simp
  have e1: "normalize_time (Some ''7'') = ''00:07''"
    using r4[of "''7''"] h by (simp add: eval_nat_numeral)
  have e2: "normalize_time (Some ''7:30'') = ''07:30''"
    using r2[of "''7:30''"] g unfolding described_normalize_def d1
    by (simp add: pad4_def eval_nat_numeral)
  have e3: "normalize_time (Some ''+1:2'') = ''+0:12''"
    using r3[of "''+1:2''"] k unfolding d1 by (simp add: pad3_def eval_nat_numeral)
  have e4: "normalize_time (Some ''-5'') = ''-0:05''"
    using r5[of "CHR ''-''" "''5''"] m by (simp add: eval_nat_numeral)
  show ?thesis using h g k m e1 e2 e3 e4 by blast
qed

theorem signed_time_counterexample:
  "length ''-5'' \<le> 2
   \<and> normalize_time (Some ''-5'') = ''-0:05''
   \<and> described_normalize ''-5'' = ''00:-5''
   \<and> normalize_time (Some ''-5'') \<noteq> described_normalize ''-5''"
  by (simp add: normalize_time_def described_normalize_def time_digits_def strip_seconds_def
        pad4_def py_count_def py_remove_def py_zfill_def eval_nat_numeral)

section \<open>Properties of the target date\<close>


lemma weekday_shift:
  assumes "0 \<le> i" "i < 7"
  shows "weekday (e + (i - weekday e) mod 7) = i"
proof -
  have "(e + (i - (e + 6) mod 7) mod 7 + 6) mod 7 = ((e + 6) + (i - (e + 6) mod 7) mod 7) mod 7"
    by (simp only: add.assoc add.commute[of _ 6])
  also have "\<dots> = ((e + 6) + (i - (e + 6) mod 7)) mod 7"
    by (rule mod_add_right_eq)
  also have "\<dots> = ((e + 6 + i) - (e + 6) mod 7) mod 7"
    by (simp add: algebra_simps)
  also have "\<dots> = ((e + 6 + i) - (e + 6)) mod 7"
    by (rule mod_diff_right_eq)
  also have "\<dots> = i" using assms by simp
  finally show ?thesis by (simp add: weekday_def)
qed

lemma weekday_unique:
  assumes "e \<le> d" "d \<le> e + 6" "weekday d = i"
  shows "d = e + (i - weekday e) mod 7"
proof -
  have "(i - weekday e) mod 7 = ((d + 6) mod 7 - (e + 6) mod 7) mod 7"
    using assms(3) by (simp add: weekday_def)
  also have "\<dots> = ((d + 6) - (e + 6)) mod 7"
    by (rule mod_diff_eq)
  also have "\<dots> = (d - e) mod 7" by simp
  also have "\<dots> = d - e" using assms(1,2) by simp
  finally show ?thesis by simp
qed


lemma next_weekday_date_eq:
  "next_weekday_date e i =
     (if date_ok (e + (i - weekday e) mod 7) then Inr (e + (i - weekday e) mod 7)
      else Inl OverflowError)"
proof -
  have r: "0 \<le> (i - weekday e) mod 7" "(i - weekday e) mod 7 \<le> 6" by simp_all
  have z: "weekday e = i \<Longrightarrow> (i - weekday e) mod 7 = 0" by simp
  have n: "\<not> (i - weekday e) mod 7 < 0" using r by simp
  have t: "timedelta_days ((i - weekday e) mod 7) = Inr ((i - weekday e) mod 7)"
    using r by (simp add: timedelta_days_def)
  show ?thesis
  proof (cases "weekday e = i")
    case True
    then show ?thesis
      by (simp add: next_weekday_date_def bind_res_def date_add_def timedelta_days_def)
  next
    case False
    then show ?thesis using n t
      by (simp add: next_weekday_date_def Let_def bind_res_def date_add_def)
  qed
qed

lemma days_table: "map_of DAYS_OF_WEEK w = Some i \<Longrightarrow> 0 \<le> i \<and> i < 7"
  by (auto simp: DAYS_OF_WEEK_def split: if_splits)

lemma resolve_by_day:
  assumes "map_of DAYS_OF_WEEK w = Some i" "earliest_allowed_date fetched today c m = Inr e"
  shows "resolve_target_date fetched today c None (Some w) m =
           bind_res (next_weekday_date e i) (\<lambda>d. Inr (e, d))"
  using assms by (simp add: resolve_target_date_def bind_res_def)

text \<open>
  C6. With a day of the week and no explicit date, the target date is the one date from
  the earliest allowed date to six days after it whose weekday is the requested one
  (Monday 0 to Sunday 6); it is the earliest allowed date itself when that date already
  falls on the requested weekday. The calendar ends on 9999-12-31: the resolution raises
  \<^verbatim>\<open>OverflowError\<close> exactly when no date of the week ahead has the requested weekday.
\<close>

theorem target_day_of_week_resolution:
  assumes "map_of DAYS_OF_WEEK w = Some i"
    and "earliest_allowed_date fetched today c m = Inr e"
  shows "case resolve_target_date fetched today c None (Some w) m of
           Inr (e', d) \<Rightarrow>
             e' = e \<and> date_ok d \<and> e \<le> d \<and> d \<le> e + 6 \<and> weekday d = i
             \<and> (\<forall>d'. e \<le> d' \<and> d' \<le> e + 6 \<and> weekday d' = i \<longrightarrow> d' = d)
             \<and> (weekday e = i \<longrightarrow> d = e)
         | Inl x \<Rightarrow>
             x = OverflowError
             \<and> \<not> (\<exists>d'. date_ok d' \<and> e \<le> d' \<and> d' \<le> e + 6 \<and> weekday d' = i)"
proof -
  define k where "k = (i - weekday e) mod 7"
  have i: "0 \<le> i" "i < 7" using days_table[OF assms(1)] by simp_all
  have r: "0 \<le> k" "k \<le> 6" unfolding k_def by simp_all
  have w: "weekday (e + k) = i" unfolding k_def using i by (rule weekday_shift)
  have u: "\<And>d'. e \<le> d' \<Longrightarrow> d' \<le> e + 6 \<Longrightarrow> weekday d' = i \<Longrightarrow> d' = e + k"
    unfolding k_def by (rule weekday_unique)
  have z: "weekday e = i \<Longrightarrow> k = 0" unfolding k_def by simp
  show ?thesis
  proof (cases "date_ok (e + k)")
    case True
    then have "resolve_target_date fetched today c None (Some w) m = Inr (e, e + k)"
      by (simp add: resolve_by_day[OF assms] next_weekday_date_eq k_def bind_res_def)
    then show ?thesis using True r w u z by auto
  next
    case False
    then have "resolve_target_date fetched today c None (Some w) m = Inl OverflowError"
      by (simp add: resolve_by_day[OF assms] next_weekday_date_eq k_def bind_res_def)
    moreover have "\<not> (\<exists>d'. date_ok d' \<and> e \<le> d' \<and> d' \<le> e + 6 \<and> weekday d' = i)"
      using False u by blast
    ultimately show ?thesis by simp
  qed
qed

theorem target_day_of_week_resolution_witness:
  "map_of DAYS_OF_WEEK ''wednesday'' = Some 2
   \<and> earliest_allowed_date None 738895 snapshot_no_appointments 14 = Inr 738895
   \<and> resolve_target_date None 738895 snapshot_no_appointments None (Some ''wednesday'') 14
       = Inr (738895, 738895)
   \<and> weekday 738895 = 2
   \<and> resolve_target_date None 738895 snapshot_no_appointments None (Some ''monday'') 14
       = Inr (738895, 738900)
   \<and> weekday 738900 = 0"
proof -
  have h1: "map_of DAYS_OF_WEEK ''wednesday'' = Some 2" by (simp add: DAYS_OF_WEEK_def)
  have h2: "earliest_allowed_date None 738895 snapshot_no_appointments 14 = Inr 738895"
    by code_simp
  have e1: "resolve_target_date None 738895 snapshot_no_appointments None (Some ''wednesday'') 14
       = Inr (738895, 738895)" by code_simp
  have e2: "resolve_target_date None 738895 snapshot_no_appointments None (Some ''monday'') 14
       = Inr (738895, 738900)" by code_simp
  have w: "weekday 738895 = 2" "weekday 738900 = 0" by (simp_all add: weekday_def)
  show ?thesis
    using target_day_of_week_resolution[OF h1 h2] h1 h2 e1 e2 w by simp
qed

text \<open>
  C1. An explicit \<^verbatim>\<open>target_date\<close> is not used: the statements that resolve a day of the
  week run after the branch for the explicit date as well, and read the local variable
  \<^verbatim>\<open>day_of_week\<close>, which that branch never assigns. With an explicit date the
  resolution ends in \<^verbatim>\<open>UnboundLocalError\<close> (or in an earlier exception of the
  computation of the earliest allowed date), and the handler lets it escape.
\<close>

theorem explicit_target_date_raises:
  "resolve_target_date fetched today c (Some d) day m =
     (case earliest_allowed_date fetched today c m of
        Inl x \<Rightarrow> Inl x | Inr e \<Rightarrow> Inl UnboundLocalError)
   \<and> async_booking_helper_service srv depth None 738895 (Some snapshot_no_appointments)
       call_explicit_date a = (Inl UnboundLocalError, a, 0)"
proof -
  have "resolve_target_date fetched today c (Some d) day m =
     (case earliest_allowed_date fetched today c m of
        Inl x \<Rightarrow> Inl x | Inr e \<Rightarrow> Inl UnboundLocalError)"
    by (simp add: resolve_target_date_def bind_res_def split: sum.splits)
  moreover have "async_booking_helper_service srv depth None 738895 (Some snapshot_no_appointments)
       call_explicit_date a = (Inl UnboundLocalError, a, 0)"
    by code_simp
  ultimately show ?thesis by simp
qed

text \<open>
  C2. The \<^verbatim>\<open>try\<close> block of the handler starts after the target time is parsed and the
  target date and the window are computed. A time text such as \<open>25:00\<close> passes the
  schema and the normalisation; \<^verbatim>\<open>time(25, 0)\<close> raises \<^verbatim>\<open>ValueError\<close> before the
  block, and the exception leaves the handler instead of becoming a structured result.
\<close>

theorem invalid_target_time_escapes:
  "normalize_time (target_time call_bad_time) = ''25:00''
   \<and> parse_target_time ''25:00'' = Inl ValueError
   \<and> make_plan fetched today c (call_bad_time\<lparr>target_day_of_week := Some ''monday''\<rparr>)
       = Inl ValueError
   \<and> async_booking_helper_service srv depth fetched today (Some c) call_bad_time a
       = (Inl ValueError, a, 0)"
proof -
  have n: "normalize_time (target_time call_bad_time) = ''25:00''" by code_simp
  have t: "parse_target_time ''25:00'' = Inl ValueError" by code_simp
  have p: "make_plan fetched today c (call_bad_time\<lparr>target_day_of_week := Some ''monday''\<rparr>)
       = Inl ValueError"
    using n t by (simp add: make_plan_def bind_res_def)
  have v: "SERVICE_SCHEMA_BOOKING_HELPER call_bad_time
             = Some (call_bad_time\<lparr>target_day_of_week := Some ''monday''\<rparr>)"
    by code_simp
  have "async_booking_helper_service srv depth fetched today (Some c) call_bad_time a
       = (Inl ValueError, a, 0)"
    using n t
    by (simp add: async_booking_helper_service_def v p refreshes_before_search_def
          reaches_last_donation_def)
  then show ?thesis using n t p by simp
qed

section \<open>Properties of the earliest allowed date\<close>


lemma py_date_err: "py_date y m d = Inl e \<Longrightarrow> e = ValueError"
  by (auto simp: py_date_def split: if_splits)

lemma strptime_ymd_err: "strptime_ymd s = Inl e \<Longrightarrow> e = ValueError"
  by (auto simp: strptime_ymd_def Let_def split: if_splits option.splits list.splits prod.splits dest: py_date_err)

lemma appointment_date_cases:
  "appointment_date apt =
     (case session_date_str apt of Inl e \<Rightarrow> Inl e | Inr s \<Rightarrow> strptime_ymd s)"
  by (simp add: appointment_date_def bind_res_def)

lemma appointment_dates_parseable:
  "log_appointments apts = Inr () \<Longrightarrow> appointment_dates apts = Inr (parseable_dates apts)"
proof (induction apts)
  case Nil
  then show ?case by (simp add: parseable_dates_def List.map_filter_simps)
next
  case (Cons apt rest)
  show ?case
  proof (cases "session_date_str apt")
    case (Inl e)
    with Cons.prems have c: "caught [KeyError, IndexError] e" and r: "log_appointments rest = Inr ()"
      by (auto split: if_splits)
    from c have c': "caught [KeyError, ValueError, IndexError] e" by (auto simp: caught_def)
    have "appointment_date apt = Inl e" using Inl by (simp add: appointment_date_cases)
    then show ?thesis using c' Cons.IH[OF r]
      by (simp add: parseable_dates_def List.map_filter_simps)
  next
    case (Inr s)
    with Cons.prems have r: "log_appointments rest = Inr ()" by simp
    show ?thesis
    proof (cases "strptime_ymd s")
      case (Inl e)
      then have "e = ValueError" by (rule strptime_ymd_err)
      then have "appointment_date apt = Inl ValueError" using Inl Inr by (simp add: appointment_date_cases)
      then show ?thesis using Cons.IH[OF r]
        by (simp add: parseable_dates_def List.map_filter_simps caught_def is_instance_def)
    next
      case d: (Inr d)
      then have "appointment_date apt = Inr d" using Inr by (simp add: appointment_date_cases)
      then show ?thesis using Cons.IH[OF r]
        by (simp add: parseable_dates_def List.map_filter_simps bind_res_def)
    qed
  qed
qed

lemma well_formed_session_date:
  assumes "well_formed_appointment apt"
  shows "(\<exists>s. session_date_str apt = Inr s) \<or> session_date_str apt = Inl KeyError"
proof -
  obtain kvs where a: "apt = JObj kvs"
    using assms by (cases apt) (simp_all add: well_formed_appointment_def)
  show ?thesis
  proof (cases "map_of kvs ''session''")
    case None
    then show ?thesis using a by (simp add: session_date_str_def bind_res_def)
  next
    case (Some sess)
    then obtain skvs where s: "sess = JObj skvs"
      using assms a by (cases sess) (simp_all add: well_formed_appointment_def)
    show ?thesis
    proof (cases "map_of skvs ''sessionDate''")
      case None
      then show ?thesis using a Some s by (simp add: session_date_str_def bind_res_def)
    next
      case sd: (Some v)
      then obtain t where "v = JStr t"
        using assms a Some s by (cases v) (simp_all add: well_formed_appointment_def)
      then show ?thesis using a Some s sd by (simp add: session_date_str_def bind_res_def)
    qed
  qed
qed

lemma well_formed_log:
  "list_all well_formed_appointment apts \<Longrightarrow> log_appointments apts = Inr ()"
proof (induction apts)
  case Nil
  then show ?case by simp
next
  case (Cons apt rest)
  then have w: "well_formed_appointment apt" and r: "log_appointments rest = Inr ()"
    by simp_all
  show ?case
    using well_formed_session_date[OF w] r
    by (auto simp: caught_def is_instance_def)
qed

lemma fold_max_Max: "fold max r (x::int) = Max (set (x # r))"
proof (induction r arbitrary: x)
  case Nil then show ?case by simp
next
  case (Cons y r)
  have "fold max (y # r) x = fold max r (max y x)" by simp
  also have "\<dots> = Max (set (max y x # r))" by (rule Cons.IH)
  also have "\<dots> = Max (set (x # y # r))"
    by (cases "r = []") (auto simp: max.commute max.left_commute max.assoc)
  finally show ?case .
qed

lemma py_max_Max: "ds \<noteq> [] \<Longrightarrow> py_max ds = Inr (Max (set ds))"
  by (cases ds) (simp_all add: py_max_def fold_max_Max del: set_simps)

lemma last_donation_no_data:
  assumes "c1 = refreshed_if_stale fetched c"
    and "no_data c1"
  shows "get_last_donation_date fetched today c = Inr None"
  using assms
  by (auto simp: get_last_donation_date_def Let_def no_data_def split: option.splits)

lemma last_donation_well_formed:
  assumes "c1 = refreshed_if_stale fetched c"
    and "data c1 = Some d" "py_truthy d"
    and "py_get d ''appointments'' (JArr []) = Inr (JArr apts)"
    and "log_appointments apts = Inr ()"
    and "date_ok (described_last today (parseable_dates apts))"
  shows "get_last_donation_date fetched today c =
           Inr (Some (described_last today (parseable_dates apts)))"
proof -
  have g: "get_last_donation_date fetched today c =
      (if apts = [] then bind_res (date_add today (- 60)) (\<lambda>r. Inr (Some r))
       else (case (if parseable_dates apts = [] then bind_res (date_add today (- 60)) (\<lambda>r. Inr (Some r))
                   else bind_res (py_max (parseable_dates apts)) (\<lambda>r. Inr (Some r))) of
               Inl e \<Rightarrow> bind_res (date_add today (- 60)) (\<lambda>r. Inr (Some r))
             | Inr r \<Rightarrow> Inr r))"
    using assms(1-5)
    by (simp add: get_last_donation_date_def Let_def bind_res_def appointment_dates_parseable)
  show ?thesis
  proof (cases "parseable_dates apts = []")
    case True
    then have "date_add today (- 60) = Inr (today - 60)"
      using assms(6) by (simp add: described_last_def date_add_def)
    then show ?thesis using True g by (simp add: bind_res_def described_last_def)
  next
    case False
    then have "apts \<noteq> []" by (auto simp: parseable_dates_def List.map_filter_simps)
    then show ?thesis using False g by (simp add: bind_res_def described_last_def py_max_Max)
  qed
qed


text \<open>
  C7. The earliest allowed date is the later of today and the last date plus the minimum
  gap, where the last date is the latest parseable appointment date, or sixty days ago
  when there is none, whenever the coordinator holds an account snapshot whose
  appointments are a list of well-formed entries and no date leaves the calendar. When
  the coordinator holds no snapshot after the refresh, \<^verbatim>\<open>get_last_donation_date\<close>
  returns \<^verbatim>\<open>None\<close> and the earliest allowed date is today, whatever the minimum gap.
  With the default gap of 14 days and no appointments the date is today.
\<close>

theorem earliest_allowed_date_cases:
  "(no_data (refreshed_if_stale fetched c)
        \<longrightarrow> earliest_allowed_date fetched today c m = Inr today)
    \<and> (data (refreshed_if_stale fetched c) = Some d \<and> py_truthy d
        \<and> py_get d ''appointments'' (JArr []) = Inr (JArr apts)
        \<and> list_all well_formed_appointment apts
        \<and> date_ok (described_last today (parseable_dates apts))
        \<and> \<bar>m\<bar> \<le> 999999999
        \<and> date_ok (described_last today (parseable_dates apts) + m)
        \<longrightarrow> earliest_allowed_date fetched today c m
              = Inr (described_earliest today m (parseable_dates apts)))
    \<and> described_earliest today 14 [] = today"
proof -
  define c1 where "c1 = refreshed_if_stale fetched c"
  have a: "no_data c1 \<Longrightarrow> earliest_allowed_date fetched today c m = Inr today"
    using last_donation_no_data[OF c1_def, of today]
    by (simp add: earliest_allowed_date_def bind_res_def)
  have b: "earliest_allowed_date fetched today c m
              = Inr (described_earliest today m (parseable_dates apts))"
    if h: "data c1 = Some d" "py_truthy d"
        "py_get d ''appointments'' (JArr []) = Inr (JArr apts)"
        "list_all well_formed_appointment apts"
        "date_ok (described_last today (parseable_dates apts))"
        "\<bar>m\<bar> \<le> 999999999"
        "date_ok (described_last today (parseable_dates apts) + m)"
  proof -
    have "get_last_donation_date fetched today c =
           Inr (Some (described_last today (parseable_dates apts)))"
      using c1_def h(1-3) well_formed_log[OF h(4)] h(5) by (rule last_donation_well_formed)
    then show ?thesis using h(6,7)
      by (simp add: earliest_allowed_date_def bind_res_def timedelta_days_def date_add_def
            described_earliest_def)
  qed
  have c: "described_earliest today 14 [] = today"
    by (simp add: described_earliest_def described_last_def)
  show ?thesis using a b c unfolding c1_def by blast
qed

theorem earliest_allowed_date_cases_witness:
  "earliest_allowed_date None 738895 no_snapshot 90 = Inr 738895
   \<and> parseable_dates
        [JObj [(''session'', JObj [(''sessionDate'', JStr ''2024-01-10T00:00:00'')])],
         JObj [(''session'', JObj [(''sessionDate'', JStr ''2024-01-05T00:00:00'')])],
         JObj [(''session'', JObj [])]] = [738895, 738890]
   \<and> earliest_allowed_date None 738895 snapshot_two_appointments 14 = Inr 738909
   \<and> described_earliest 738895 14 [738895, 738890] = 738909"
proof -
  let ?apts = "[JObj [(''session'', JObj [(''sessionDate'', JStr ''2024-01-10T00:00:00'')])],
         JObj [(''session'', JObj [(''sessionDate'', JStr ''2024-01-05T00:00:00'')])],
         JObj [(''session'', JObj [])]]"
  let ?d = "JObj [(''appointments'', JArr ?apts)]"
  have n: "refreshed_if_stale None no_snapshot = no_snapshot"
    by (simp add: refreshed_if_stale_def no_snapshot_def async_refresh_def no_data_def)
  have nd: "no_data (refreshed_if_stale None no_snapshot)"
    unfolding n by (simp add: no_snapshot_def no_data_def)
  have s: "refreshed_if_stale None snapshot_two_appointments = snapshot_two_appointments"
    by (simp add: refreshed_if_stale_def snapshot_two_appointments_def no_data_def)
  have p: "parseable_dates ?apts = [738895, 738890]" by code_simp
  have l: "list_all well_formed_appointment ?apts"
    by (simp add: well_formed_appointment_def)
  have h: "data (refreshed_if_stale None snapshot_two_appointments) = Some ?d \<and> py_truthy ?d
        \<and> py_get ?d ''appointments'' (JArr []) = Inr (JArr ?apts)
        \<and> list_all well_formed_appointment ?apts
        \<and> date_ok (described_last 738895 (parseable_dates ?apts))
        \<and> \<bar>14::int\<bar> \<le> 999999999
        \<and> date_ok (described_last 738895 (parseable_dates ?apts) + 14)"
    unfolding p s using l
    by (simp add: snapshot_two_appointments_def described_last_def date_ok_def MAXORDINAL_def)
  have e: "described_earliest 738895 14 [738895, 738890] = 738909"
    by (simp add: described_earliest_def described_last_def)
  have "earliest_allowed_date None 738895 no_snapshot 90 = Inr 738895"
    using earliest_allowed_date_cases[where fetched = None and c = no_snapshot
        and today = 738895 and m = 90] nd by blast
  moreover have "earliest_allowed_date None 738895 snapshot_two_appointments 14
       = Inr (described_earliest 738895 14 (parseable_dates ?apts))"
    using earliest_allowed_date_cases[where fetched = None and c = snapshot_two_appointments
        and d = ?d and apts = ?apts and today = 738895 and m = 14] h by blast
  ultimately show ?thesis using p e by simp
qed

theorem earliest_without_snapshot_counterexample:
  "earliest_allowed_date None 738895 no_snapshot 90 = Inr 738895
   \<and> described_earliest 738895 90 [] = 738925
   \<and> earliest_allowed_date None 738895 no_snapshot 90 \<noteq> Inr (described_earliest 738895 90 [])"
proof -
  have a: "earliest_allowed_date None 738895 no_snapshot 90 = Inr 738895" by code_simp
  have b: "described_earliest 738895 90 [] = 738925"
    by (simp add: described_earliest_def described_last_def)
  show ?thesis using a b by simp
qed

section \<open>Properties of the update scheduler\<close>


text \<open>
  C9. For an appointment that is not today the scheduler tests only that the time until
  the appointment is at most four hours, which every appointment of a past day
  satisfies: nine days after the only appointment of the snapshot, the interval is set
  to the near-appointment hour and the timer is scheduled anew, where the table of the
  description gives the standard interval.
\<close>

theorem past_appointment_sets_near_interval:
  "get_next_appointment (JArr [past_appointment]) = Inr (Some past_appointment)
   \<and> appointment_datetime past_appointment = Inr (738886, combine 738886 (10 * us_per_hour))
   \<and> date_of nine_on_jan_10 = 738895
   \<and> combine 738886 (10 * us_per_hour) - nine_on_jan_10 < 0
   \<and> interval_for nine_on_jan_10 738886 (combine 738886 (10 * us_per_hour))
       = APPOINTMENT_SCAN_INTERVAL
   \<and> adjust_update_interval snapshot_past_appointment nine_on_jan_10 scheduler_standard
       = \<lparr>update_interval = APPOINTMENT_SCAN_INTERVAL,
          dynamic_update_interval = APPOINTMENT_SCAN_INTERVAL,
          next_appointment_datetime = Some (combine 738886 (10 * us_per_hour)),
          refreshes_scheduled = 1\<rparr>
   \<and> APPOINTMENT_SCAN_INTERVAL \<noteq> STANDARD_SCAN_INTERVAL"
proof -
  have n: "get_next_appointment (JArr [past_appointment]) = Inr (Some past_appointment)"
    by code_simp
  have d: "appointment_datetime past_appointment
             = Inr (738886, combine 738886 (10 * us_per_hour))"
    by code_simp
  have t: "date_of nine_on_jan_10 = 738895"
    by (simp add: date_of_def nine_on_jan_10_def combine_def us_per_day_def us_per_hour_def)
  have u: "combine 738886 (10 * us_per_hour) - nine_on_jan_10 < 0"
    by (simp add: nine_on_jan_10_def combine_def us_per_day_def us_per_hour_def)
  have i: "interval_for nine_on_jan_10 738886 (combine 738886 (10 * us_per_hour))
             = APPOINTMENT_SCAN_INTERVAL"
    using t u by (simp add: interval_for_def Let_def us_per_hour_def)
  have k: "APPOINTMENT_SCAN_INTERVAL \<noteq> STANDARD_SCAN_INTERVAL"
    by (simp add: APPOINTMENT_SCAN_INTERVAL_def STANDARD_SCAN_INTERVAL_def us_per_hour_def)
  have g: "py_get snapshot_past_appointment ''appointments'' (JArr [])
             = Inr (JArr [past_appointment])"
    by (simp add: snapshot_past_appointment_def)
  have a: "adjust_update_interval snapshot_past_appointment nine_on_jan_10 scheduler_standard
       = \<lparr>update_interval = APPOINTMENT_SCAN_INTERVAL,
          dynamic_update_interval = APPOINTMENT_SCAN_INTERVAL,
          next_appointment_datetime = Some (combine 738886 (10 * us_per_hour)),
          refreshes_scheduled = 1\<rparr>"
    using k by (simp add: adjust_update_interval_def g n d i set_update_interval_def
                  scheduler_standard_def)
  show ?thesis using n d t u i a k by simp
qed

section \<open>Properties of the authenticated calls\<close>

lemma unauthorized_run_iff:
  "unauthorized_run srv n k = (\<forall>i < k. unauthorized (reply srv (n + i)))"
  by (auto simp: unauthorized_run_def list_all_iff)

lemma logins_succeed_iff:
  "logins_succeed srv m k = (\<forall>i < k. accepts (login_reply srv (m + i)))"
  by (auto simp: logins_succeed_def list_all_iff)

lemma unauthorized_run_Suc:
  "unauthorized_run srv n (Suc k) = (unauthorized (reply srv n) \<and> unauthorized_run srv (Suc n) k)"
  unfolding unauthorized_run_iff by (auto simp: less_Suc_eq_0_disj)

lemma logins_succeed_Suc:
  "logins_succeed srv m (Suc k) = (accepts (login_reply srv m) \<and> logins_succeed srv (Suc m) k)"
  unfolding logins_succeed_iff by (auto simp: less_Suc_eq_0_disj)

lemma unauthorized_run_less:
  "unauthorized_run srv n k \<Longrightarrow> j \<le> k \<Longrightarrow> unauthorized_run srv n j"
  unfolding unauthorized_run_iff by simp

lemma logins_succeed_less:
  "logins_succeed srv m k \<Longrightarrow> j \<le> k \<Longrightarrow> logins_succeed srv m j"
  unfolding logins_succeed_iff by simp

lemma unauthorized_run_last:
  "unauthorized_run srv n (Suc k) \<Longrightarrow> unauthorized (reply srv (n + k))"
  unfolding unauthorized_run_iff by simp

text \<open>The outcome of a login depends on the answer alone.\<close>

lemma login_with_fst: "fst (login_with r a) = fst (login_with r b)"
  by (simp add: login_with_def split: http_reply.splits sum.splits)

lemma login_with_counts:
  "requests (snd (login_with r a)) = requests a" "logins (snd (login_with r a)) = logins a"
  by (simp_all add: login_with_def split: http_reply.splits sum.splits)

lemma login_counts:
  "requests (snd (login srv a)) = requests a" "logins (snd (login srv a)) = Suc (logins a)"
  by (simp_all add: login_def login_with_counts)

lemma login_accepted:
  "accepts (login_reply srv (logins a)) \<Longrightarrow> fst (login srv a) = Inr True"
  using login_with_fst[of "login_reply srv (logins a)" "a\<lparr>logins := Suc (logins a)\<rparr>" blank_api]
  by (simp add: accepts_def login_def)

lemma login_refused:
  "refuses (login_reply srv (logins a)) \<Longrightarrow> fst (login srv a) = Inr False"
  using login_with_fst[of "login_reply srv (logins a)" "a\<lparr>logins := Suc (logins a)\<rparr>" blank_api]
  by (simp add: refuses_def login_def)

lemma sent_counts: "requests (sent a) = Suc (requests a)" "logins (sent a) = logins a"
  by (simp_all add: sent_def)

lemma relogged_counts:
  "requests (relogged srv k a) = requests a + k \<and> logins (relogged srv k a) = logins a + k"
  by (induction k arbitrary: a) (simp_all add: login_counts sent_counts)

lemma relogged_Suc:
  "relogged srv (Suc k) a = snd (login srv (sent (relogged srv k a)))"
  by (induction k arbitrary: a) simp_all

subsection \<open>Nested invocations\<close>

text \<open>
  A call whose invocations nest: \<open>k\<close> rounds of a 401 answer and a successful login
  leave the invocation \<open>k\<close> levels down, and one round more than the stack has room for
  ends in what the refused invocation gives.
\<close>

lemma nested_unroll:
  assumes fS: "\<And>d a. f (Suc d) a = body (f d) a"
    and retry: "\<And>r a. G a \<Longrightarrow> unauthorized (reply srv (requests a)) \<Longrightarrow>
                  accepts (login_reply srv (logins a)) \<Longrightarrow>
                  body r a = r (snd (login srv (sent a)))"
  shows "k \<le> depth \<Longrightarrow> unauthorized_run srv (requests a) k \<Longrightarrow>
         logins_succeed srv (logins a) k \<Longrightarrow> \<forall>j < k. G (relogged srv j a) \<Longrightarrow>
         f depth a = f (depth - k) (relogged srv k a)"
proof (induction k arbitrary: depth a)
  case 0
  then show ?case by simp
next
  case (Suc k)
  let ?a = "snd (login srv (sent a))"
  from Suc.prems(1) obtain d where d: "depth = Suc d" "k \<le> d" by (cases depth) auto
  from Suc.prems have h: "unauthorized (reply srv (requests a))"
      "accepts (login_reply srv (logins a))"
    and r: "unauthorized_run srv (requests ?a) k" "logins_succeed srv (logins ?a) k"
    by (simp_all add: unauthorized_run_Suc logins_succeed_Suc login_counts sent_counts)
  have g0: "G a" using Suc.prems(4)[rule_format, of 0] by simp
  have g: "\<forall>j < k. G (relogged srv j ?a)"
    using Suc.prems(4) by (auto dest: spec[of _ "Suc j" for j])
  have "f depth a = body (f d) a" using d fS by simp
  also have "\<dots> = f d ?a" using g0 h by (rule retry)
  also have "\<dots> = f (d - k) (relogged srv k ?a)" using d(2) r g by (rule Suc.IH)
  finally show ?case using d by simp
qed

lemma nested_exhausted:
  assumes f0: "\<And>a. f 0 a = body bottom a"
    and fS: "\<And>d a. f (Suc d) a = body (f d) a"
    and retry: "\<And>r a. G a \<Longrightarrow> unauthorized (reply srv (requests a)) \<Longrightarrow>
                  accepts (login_reply srv (logins a)) \<Longrightarrow>
                  body r a = r (snd (login srv (sent a)))"
    and run: "unauthorized_run srv (requests a) (Suc depth)"
    and ok: "logins_succeed srv (logins a) (Suc depth)"
    and good: "\<forall>j < Suc depth. G (relogged srv j a)"
  shows "f depth a = bottom (relogged srv (Suc depth) a)"
proof -
  let ?a = "relogged srv depth a"
  have g: "\<forall>j < depth. G (relogged srv j a)" using good by (simp add: less_Suc_eq)
  have "f depth a = f (depth - depth) ?a"
    using fS retry le_refl unauthorized_run_less[OF run] logins_succeed_less[OF ok] g
    by (rule nested_unroll) simp_all
  then have "f depth a = body bottom ?a" using f0 by simp
  moreover have "unauthorized (reply srv (requests ?a))"
    using unauthorized_run_last[OF run] by (simp add: relogged_counts)
  moreover have "accepts (login_reply srv (logins ?a))"
    using ok unfolding logins_succeed_iff by (simp add: relogged_counts)
  moreover have "G ?a" using good by simp
  ultimately have "f depth a = bottom (snd (login srv (sent ?a)))" using retry by simp
  then show ?thesis by (simp only: relogged_Suc)
qed

lemma nested_answered:
  assumes f0: "\<And>a. f 0 a = body bottom a"
    and fS: "\<And>d a. f (Suc d) a = body (f d) a"
    and retry: "\<And>r a. G a \<Longrightarrow> unauthorized (reply srv (requests a)) \<Longrightarrow>
                  accepts (login_reply srv (logins a)) \<Longrightarrow>
                  body r a = r (snd (login srv (sent a)))"
    and last: "\<And>r a. Q a \<Longrightarrow> body r a = out a"
    and le: "k \<le> depth"
    and run: "unauthorized_run srv (requests a) k"
    and ok: "logins_succeed srv (logins a) k"
    and good: "\<forall>j < k. G (relogged srv j a)"
    and q: "Q (relogged srv k a)"
  shows "f depth a = out (relogged srv k a)"
proof -
  have "f depth a = f (depth - k) (relogged srv k a)"
    using fS retry le run ok good by (rule nested_unroll)
  moreover have "f d b = body (case d of 0 \<Rightarrow> bottom | Suc e \<Rightarrow> f e) b" for d b
    by (cases d) (simp_all add: f0 fS)
  ultimately show ?thesis using last[OF q] by simp
qed

subsection \<open>One invocation\<close>

lemma unauthorized_401: "unauthorized r \<Longrightarrow> status_401 r"
  by (simp add: unauthorized_def)

lemma fetch_list_retry:
  assumes "unauthorized (reply srv (requests a))" "accepts (login_reply srv (logins a))"
  shows "fetch_list key srv r a = r (snd (login srv (sent a)))"
  using assms(1) login_accepted[of srv "sent a"] assms(2)
  by (cases "login srv (sent a)") (simp add: fetch_list_def Let_def unauthorized_def sent_counts)

lemma fetch_list_refused:
  assumes "status_401 (reply srv (requests a))" "refuses (login_reply srv (logins a))"
  shows "fetch_list key srv r a = (Inr (JArr []), snd (login srv (sent a)))"
  using assms(1) login_refused[of srv "sent a"] assms(2)
  by (cases "login srv (sent a)") (simp add: fetch_list_def Let_def sent_counts)

lemma fetch_list_answered:
  assumes "answered (reply srv (requests a))"
  shows "fetch_list key srv r a = (list_result key (reply srv (requests a)), sent a)"
  using assms by (simp add: fetch_list_def Let_def answered_def)

lemma book_once_retry:
  assumes "unauthorized (reply srv (requests a))" "accepts (login_reply srv (logins a))"
  shows "book_once srv r a = r (snd (login srv (sent a)))"
  using assms(1) login_accepted[of srv "sent a"] assms(2)
  by (cases "login srv (sent a)") (simp add: book_once_def Let_def unauthorized_def sent_counts)

lemma book_once_refused:
  assumes "status_401 (reply srv (requests a))" "refuses (login_reply srv (logins a))"
  shows "book_once srv r a = (Booking_failure Authentication_failed, snd (login srv (sent a)))"
  using assms(1) login_refused[of srv "sent a"] assms(2)
  by (cases "login srv (sent a)") (simp add: book_once_def Let_def sent_counts)

lemma book_once_answered:
  assumes "answered (reply srv (requests a))"
  shows "book_once srv r a = (booking_of_reply (reply srv (requests a)), sent a)"
  using assms by (simp add: book_once_def Let_def answered_def)

lemma details_once_retry:
  assumes "unauthorized (reply srv (requests a))" "accepts (login_reply srv (logins a))"
  shows "details_once h srv r a = r (snd (login srv (sent a)))"
  using assms(1) login_accepted[of srv "sent a"] assms(2)
  by (cases "login srv (sent a)") (simp add: details_once_def Let_def unauthorized_def sent_counts)

lemma details_once_refused:
  assumes "unauthorized (reply srv (requests a))" "refuses (login_reply srv (logins a))"
  shows "details_once h srv r a = (Inr None, snd (login srv (sent a)))"
  using assms(1) login_refused[of srv "sent a"] assms(2)
  by (cases "login srv (sent a)") (simp add: details_once_def Let_def unauthorized_def sent_counts)

lemma details_once_answered:
  assumes "answered (reply srv (requests a))"
  shows "details_once h srv r a = (h (reply srv (requests a)), sent a)"
  using assms by (simp add: details_once_def Let_def answered_def)


lemma previewable_iff:
  "previewable srv k a = (\<forall>j < k. token_preview (access_token (relogged srv j a)) = Inr ())"
  by (auto simp: previewable_def list_all_iff)

lemma account_details_once_retry:
  assumes "token_preview (access_token a) = Inr ()"
    "unauthorized (reply srv (requests a))" "accepts (login_reply srv (logins a))"
  shows "account_details_once srv r a = r (snd (login srv (sent a)))"
  using assms by (simp add: account_details_once_def details_once_retry)

lemma account_details_once_refused:
  assumes "token_preview (access_token a) = Inr ()"
    "unauthorized (reply srv (requests a))" "refuses (login_reply srv (logins a))"
  shows "account_details_once srv r a = (Inr None, snd (login srv (sent a)))"
  using assms by (simp add: account_details_once_def details_once_refused)

lemma account_details_once_answered:
  assumes "token_preview (access_token a) = Inr ()" "answered (reply srv (requests a))"
  shows "account_details_once srv r a = (details_of_reply (reply srv (requests a)), sent a)"
  using assms by (simp add: account_details_once_def details_once_answered)


subsection \<open>Rounds of re-login\<close>

lemma sessions_retries:
  assumes "k \<le> depth" "unauthorized_run srv (requests a) k"
    "logins_succeed srv (logins a) k" "answered (reply srv (requests a + k))"
  shows "get_sessions_for_date srv depth a = (list_result ''sessions'' (reply srv (requests a + k)), sent (relogged srv k a))"
proof -
  have "get_sessions_for_date srv depth a
      = (\<lambda>b. (list_result ''sessions'' (reply srv (requests b)), sent b)) (relogged srv k a)"
  proof (rule nested_answered[where f = "get_sessions_for_date srv" and body = "fetch_list ''sessions'' srv"
        and bottom = "\<lambda>a2. (Inl RecursionError, a2)" and G = "\<lambda>b. True"
        and Q = "\<lambda>b. True \<and> answered (reply srv (requests b))", OF _ _ _ _ assms(1-3)])
    show "\<forall>j < k. True" by simp
    show "True \<and> answered (reply srv (requests (relogged srv k a)))"
      using assms(4)  by (simp add: relogged_counts)
  qed (simp_all add: fetch_list_retry fetch_list_answered)
  then show ?thesis by (simp add: relogged_counts)
qed

lemma sessions_refused:
  assumes "k \<le> depth" "unauthorized_run srv (requests a) (Suc k)"
    "logins_succeed srv (logins a) k" "refuses (login_reply srv (logins a + k))"
  shows "get_sessions_for_date srv depth a = (Inr (JArr []), relogged_refused srv k a)"
proof -
  have "get_sessions_for_date srv depth a
      = (\<lambda>b. (Inr (JArr []), snd (login srv (sent b)))) (relogged srv k a)"
  proof (rule nested_answered[where f = "get_sessions_for_date srv" and body = "fetch_list ''sessions'' srv"
        and bottom = "\<lambda>a2. (Inl RecursionError, a2)" and G = "\<lambda>b. True"
        and Q = "\<lambda>b. True \<and> unauthorized (reply srv (requests b))
                    \<and> refuses (login_reply srv (logins b))",
        OF _ _ _ _ assms(1) unauthorized_run_less[OF assms(2)] assms(3)])
    show "\<forall>j < k. True" by simp
    show "True \<and> unauthorized (reply srv (requests (relogged srv k a)))
            \<and> refuses (login_reply srv (logins (relogged srv k a)))"
      using unauthorized_run_last[OF assms(2)] assms(4)  by (simp add: relogged_counts)
  qed (simp_all add: fetch_list_retry fetch_list_refused unauthorized_401)
  then show ?thesis by (simp add: relogged_refused_def)
qed

lemma sessions_exhausted:
  assumes "unauthorized_run srv (requests a) (Suc depth)"
    "logins_succeed srv (logins a) (Suc depth)"
  shows "get_sessions_for_date srv depth a = (Inl RecursionError, relogged srv (Suc depth) a)"
proof (rule nested_exhausted[where f = "get_sessions_for_date srv" and body = "fetch_list ''sessions'' srv"
        and bottom = "\<lambda>a2. (Inl RecursionError, a2)" and G = "\<lambda>b. True", OF _ _ _ assms(1,2)])
  show "\<forall>j < Suc depth. True" by simp
qed (simp_all add: fetch_list_retry)

lemma slots_retries:
  assumes "k \<le> depth" "unauthorized_run srv (requests a) k"
    "logins_succeed srv (logins a) k" "answered (reply srv (requests a + k))"
  shows "get_slots_for_session srv depth a = (list_result ''slots'' (reply srv (requests a + k)), sent (relogged srv k a))"
proof -
  have "get_slots_for_session srv depth a
      = (\<lambda>b. (list_result ''slots'' (reply srv (requests b)), sent b)) (relogged srv k a)"
  proof (rule nested_answered[where f = "get_slots_for_session srv" and body = "fetch_list ''slots'' srv"
        and bottom = "\<lambda>a2. (Inl RecursionError, a2)" and G = "\<lambda>b. True"
        and Q = "\<lambda>b. True \<and> answered (reply srv (requests b))", OF _ _ _ _ assms(1-3)])
    show "\<forall>j < k. True" by simp
    show "True \<and> answered (reply srv (requests (relogged srv k a)))"
      using assms(4)  by (simp add: relogged_counts)
  qed (simp_all add: fetch_list_retry fetch_list_answered)
  then show ?thesis by (simp add: relogged_counts)
qed

lemma slots_refused:
  assumes "k \<le> depth" "unauthorized_run srv (requests a) (Suc k)"
    "logins_succeed srv (logins a) k" "refuses (login_reply srv (logins a + k))"
  shows "get_slots_for_session srv depth a = (Inr (JArr []), relogged_refused srv k a)"
proof -
  have "get_slots_for_session srv depth a
      = (\<lambda>b. (Inr (JArr []), snd (login srv (sent b)))) (relogged srv k a)"
  proof (rule nested_answered[where f = "get_slots_for_session srv" and body = "fetch_list ''slots'' srv"
        and bottom = "\<lambda>a2. (Inl RecursionError, a2)" and G = "\<lambda>b. True"
        and Q = "\<lambda>b. True \<and> unauthorized (reply srv (requests b))
                    \<and> refuses (login_reply srv (logins b))",
        OF _ _ _ _ assms(1) unauthorized_run_less[OF assms(2)] assms(3)])
    show "\<forall>j < k. True" by simp
    show "True \<and> unauthorized (reply srv (requests (relogged srv k a)))
            \<and> refuses (login_reply srv (logins (relogged srv k a)))"
      using unauthorized_run_last[OF assms(2)] assms(4)  by (simp add: relogged_counts)
  qed (simp_all add: fetch_list_retry fetch_list_refused unauthorized_401)
  then show ?thesis by (simp add: relogged_refused_def)
qed

lemma slots_exhausted:
  assumes "unauthorized_run srv (requests a) (Suc depth)"
    "logins_succeed srv (logins a) (Suc depth)"
  shows "get_slots_for_session srv depth a = (Inl RecursionError, relogged srv (Suc depth) a)"
proof (rule nested_exhausted[where f = "get_slots_for_session srv" and body = "fetch_list ''slots'' srv"
        and bottom = "\<lambda>a2. (Inl RecursionError, a2)" and G = "\<lambda>b. True", OF _ _ _ assms(1,2)])
  show "\<forall>j < Suc depth. True" by simp
qed (simp_all add: fetch_list_retry)

lemma book_retries:
  assumes "k \<le> depth" "unauthorized_run srv (requests a) k"
    "logins_succeed srv (logins a) k" "answered (reply srv (requests a + k))"
  shows "book_appointment srv depth a = (booking_of_reply (reply srv (requests a + k)), sent (relogged srv k a))"
proof -
  have "book_appointment srv depth a
      = (\<lambda>b. (booking_of_reply (reply srv (requests b)), sent b)) (relogged srv k a)"
  proof (rule nested_answered[where f = "book_appointment srv" and body = "book_once srv"
        and bottom = "\<lambda>a2. (Booking_failure (Exception_text RecursionError), a2)" and G = "\<lambda>b. True"
        and Q = "\<lambda>b. True \<and> answered (reply srv (requests b))", OF _ _ _ _ assms(1-3)])
    show "\<forall>j < k. True" by simp
    show "True \<and> answered (reply srv (requests (relogged srv k a)))"
      using assms(4)  by (simp add: relogged_counts)
  qed (simp_all add: book_once_retry book_once_answered)
  then show ?thesis by (simp add: relogged_counts)
qed

lemma book_refused:
  assumes "k \<le> depth" "unauthorized_run srv (requests a) (Suc k)"
    "logins_succeed srv (logins a) k" "refuses (login_reply srv (logins a + k))"
  shows "book_appointment srv depth a = (Booking_failure Authentication_failed, relogged_refused srv k a)"
proof -
  have "book_appointment srv depth a
      = (\<lambda>b. (Booking_failure Authentication_failed, snd (login srv (sent b)))) (relogged srv k a)"
  proof (rule nested_answered[where f = "book_appointment srv" and body = "book_once srv"
        and bottom = "\<lambda>a2. (Booking_failure (Exception_text RecursionError), a2)" and G = "\<lambda>b. True"
        and Q = "\<lambda>b. True \<and> unauthorized (reply srv (requests b))
                    \<and> refuses (login_reply srv (logins b))",
        OF _ _ _ _ assms(1) unauthorized_run_less[OF assms(2)] assms(3)])
    show "\<forall>j < k. True" by simp
    show "True \<and> unauthorized (reply srv (requests (relogged srv k a)))
            \<and> refuses (login_reply srv (logins (relogged srv k a)))"
      using unauthorized_run_last[OF assms(2)] assms(4)  by (simp add: relogged_counts)
  qed (simp_all add: book_once_retry book_once_refused unauthorized_401)
  then show ?thesis by (simp add: relogged_refused_def)
qed

lemma book_exhausted:
  assumes "unauthorized_run srv (requests a) (Suc depth)"
    "logins_succeed srv (logins a) (Suc depth)"
  shows "book_appointment srv depth a = (Booking_failure (Exception_text RecursionError), relogged srv (Suc depth) a)"
proof (rule nested_exhausted[where f = "book_appointment srv" and body = "book_once srv"
        and bottom = "\<lambda>a2. (Booking_failure (Exception_text RecursionError), a2)" and G = "\<lambda>b. True", OF _ _ _ assms(1,2)])
  show "\<forall>j < Suc depth. True" by simp
qed (simp_all add: book_once_retry)

lemma details_retries:
  assumes "k \<le> depth" "unauthorized_run srv (requests a) k"
    "logins_succeed srv (logins a) k" "answered (reply srv (requests a + k))"
    "previewable srv (Suc k) a"
  shows "get_account_details srv depth a = (details_of_reply (reply srv (requests a + k)), sent (relogged srv k a))"
proof -
  have "get_account_details srv depth a
      = (\<lambda>b. (details_of_reply (reply srv (requests b)), sent b)) (relogged srv k a)"
  proof (rule nested_answered[where f = "get_account_details srv" and body = "account_details_once srv"
        and bottom = "\<lambda>a2. (Inl RecursionError, a2)" and G = "\<lambda>b. token_preview (access_token b) = Inr ()"
        and Q = "\<lambda>b. token_preview (access_token b) = Inr () \<and> answered (reply srv (requests b))", OF _ _ _ _ assms(1-3)])
    show "\<forall>j < k. token_preview (access_token (relogged srv j a)) = Inr ()" using assms(5) by (simp add: previewable_iff)
    show "token_preview (access_token (relogged srv k a)) = Inr () \<and> answered (reply srv (requests (relogged srv k a)))"
      using assms(4) assms(5)[unfolded previewable_iff] by (simp add: relogged_counts)
  qed (simp_all add: account_details_once_retry account_details_once_answered)
  then show ?thesis by (simp add: relogged_counts)
qed

lemma details_refused:
  assumes "k \<le> depth" "unauthorized_run srv (requests a) (Suc k)"
    "logins_succeed srv (logins a) k" "refuses (login_reply srv (logins a + k))"
    "previewable srv (Suc k) a"
  shows "get_account_details srv depth a = (Inr None, relogged_refused srv k a)"
proof -
  have "get_account_details srv depth a
      = (\<lambda>b. (Inr None, snd (login srv (sent b)))) (relogged srv k a)"
  proof (rule nested_answered[where f = "get_account_details srv" and body = "account_details_once srv"
        and bottom = "\<lambda>a2. (Inl RecursionError, a2)" and G = "\<lambda>b. token_preview (access_token b) = Inr ()"
        and Q = "\<lambda>b. token_preview (access_token b) = Inr () \<and> unauthorized (reply srv (requests b))
                    \<and> refuses (login_reply srv (logins b))",
        OF _ _ _ _ assms(1) unauthorized_run_less[OF assms(2)] assms(3)])
    show "\<forall>j < k. token_preview (access_token (relogged srv j a)) = Inr ()" using assms(5) by (simp add: previewable_iff)
    show "token_preview (access_token (relogged srv k a)) = Inr () \<and> unauthorized (reply srv (requests (relogged srv k a)))
            \<and> refuses (login_reply srv (logins (relogged srv k a)))"
      using unauthorized_run_last[OF assms(2)] assms(4) assms(5)[unfolded previewable_iff] by (simp add: relogged_counts)
  qed (simp_all add: account_details_once_retry account_details_once_refused unauthorized_401)
  then show ?thesis by (simp add: relogged_refused_def)
qed

lemma details_exhausted:
  assumes "unauthorized_run srv (requests a) (Suc depth)"
    "logins_succeed srv (logins a) (Suc depth)"
    "previewable srv (Suc depth) a"
  shows "get_account_details srv depth a = (Inl RecursionError, relogged srv (Suc depth) a)"
proof (rule nested_exhausted[where f = "get_account_details srv" and body = "account_details_once srv"
        and bottom = "\<lambda>a2. (Inl RecursionError, a2)" and G = "\<lambda>b. token_preview (access_token b) = Inr ()", OF _ _ _ assms(1,2)])
  show "\<forall>j < Suc depth. token_preview (access_token (relogged srv j a)) = Inr ()" using assms(3) by (simp add: previewable_iff)
qed (simp_all add: account_details_once_retry)

lemma awards_retries:
  assumes "k \<le> depth" "unauthorized_run srv (requests a) k"
    "logins_succeed srv (logins a) k" "answered (reply srv (requests a + k))"
  shows "get_awards srv depth a = (awards_of_reply (reply srv (requests a + k)), sent (relogged srv k a))"
proof -
  have "get_awards srv depth a
      = (\<lambda>b. (awards_of_reply (reply srv (requests b)), sent b)) (relogged srv k a)"
  proof (rule nested_answered[where f = "get_awards srv" and body = "details_once awards_of_reply srv"
        and bottom = "\<lambda>a2. (Inl RecursionError, a2)" and G = "\<lambda>b. True"
        and Q = "\<lambda>b. True \<and> answered (reply srv (requests b))", OF _ _ _ _ assms(1-3)])
    show "\<forall>j < k. True" by simp
    show "True \<and> answered (reply srv (requests (relogged srv k a)))"
      using assms(4)  by (simp add: relogged_counts)
  qed (simp_all add: details_once_retry details_once_answered)
  then show ?thesis by (simp add: relogged_counts)
qed

lemma awards_refused:
  assumes "k \<le> depth" "unauthorized_run srv (requests a) (Suc k)"
    "logins_succeed srv (logins a) k" "refuses (login_reply srv (logins a + k))"
  shows "get_awards srv depth a = (Inr None, relogged_refused srv k a)"
proof -
  have "get_awards srv depth a
      = (\<lambda>b. (Inr None, snd (login srv (sent b)))) (relogged srv k a)"
  proof (rule nested_answered[where f = "get_awards srv" and body = "details_once awards_of_reply srv"
        and bottom = "\<lambda>a2. (Inl RecursionError, a2)" and G = "\<lambda>b. True"
        and Q = "\<lambda>b. True \<and> unauthorized (reply srv (requests b))
                    \<and> refuses (login_reply srv (logins b))",
        OF _ _ _ _ assms(1) unauthorized_run_less[OF assms(2)] assms(3)])
    show "\<forall>j < k. True" by simp
    show "True \<and> unauthorized (reply srv (requests (relogged srv k a)))
            \<and> refuses (login_reply srv (logins (relogged srv k a)))"
      using unauthorized_run_last[OF assms(2)] assms(4)  by (simp add: relogged_counts)
  qed (simp_all add: details_once_retry details_once_refused unauthorized_401)
  then show ?thesis by (simp add: relogged_refused_def)
qed

lemma awards_exhausted:
  assumes "unauthorized_run srv (requests a) (Suc depth)"
    "logins_succeed srv (logins a) (Suc depth)"
  shows "get_awards srv depth a = (Inl RecursionError, relogged srv (Suc depth) a)"
proof (rule nested_exhausted[where f = "get_awards srv" and body = "details_once awards_of_reply srv"
        and bottom = "\<lambda>a2. (Inl RecursionError, a2)" and G = "\<lambda>b. True", OF _ _ _ assms(1,2)])
  show "\<forall>j < Suc depth. True" by simp
qed (simp_all add: details_once_retry)

text \<open>
  C3. A 401 answer starts one login and, when the login returns true, one nested
  invocation of the same call, which treats its own answer in the same way. So \<open>k\<close>
  successive 401 answers with successful logins cost exactly \<open>k\<close> logins and \<open>k\<close>
  retries, for every \<open>k\<close> the stack has room for, and the call then returns what the
  next answer gives (an answer that raises, such as the expiry of the timer of the call,
  included); the not-authenticated failure is reported only when a login returns false;
  for the account details this holds as long as each invocation can log its token;
  and the retries are bounded by the stack alone: when one answer more than the stack
  has room for is a 401 answer and every login succeeds, the invocation that does not
  fit raises \<^verbatim>\<open>RecursionError\<close>, which leaves the four reading calls and which
  \<^verbatim>\<open>book_appointment\<close> reports as a failure.
\<close>

theorem reauthentication_retries:
  "(k \<le> depth \<and> unauthorized_run srv (requests a) k \<and> logins_succeed srv (logins a) k
      \<and> answered (reply srv (requests a + k)) \<longrightarrow>
        get_sessions_for_date srv depth a
          = (list_result ''sessions'' (reply srv (requests a + k)), sent (relogged srv k a))
      \<and> get_slots_for_session srv depth a
          = (list_result ''slots'' (reply srv (requests a + k)), sent (relogged srv k a))
      \<and> book_appointment srv depth a
          = (booking_of_reply (reply srv (requests a + k)), sent (relogged srv k a))
      \<and> (previewable srv (Suc k) a \<longrightarrow>
           get_account_details srv depth a
             = (details_of_reply (reply srv (requests a + k)), sent (relogged srv k a)))
      \<and> get_awards srv depth a
          = (awards_of_reply (reply srv (requests a + k)), sent (relogged srv k a))
      \<and> requests (sent (relogged srv k a)) = requests a + k + 1
      \<and> logins (sent (relogged srv k a)) = logins a + k)
   \<and> (k \<le> depth \<and> unauthorized_run srv (requests a) (Suc k)
      \<and> logins_succeed srv (logins a) k \<and> refuses (login_reply srv (logins a + k)) \<longrightarrow>
        get_sessions_for_date srv depth a = (Inr (JArr []), relogged_refused srv k a)
      \<and> get_slots_for_session srv depth a = (Inr (JArr []), relogged_refused srv k a)
      \<and> book_appointment srv depth a
          = (Booking_failure Authentication_failed, relogged_refused srv k a)
      \<and> (previewable srv (Suc k) a \<longrightarrow>
           get_account_details srv depth a = (Inr None, relogged_refused srv k a))
      \<and> get_awards srv depth a = (Inr None, relogged_refused srv k a)
      \<and> requests (relogged_refused srv k a) = requests a + k + 1
      \<and> logins (relogged_refused srv k a) = logins a + k + 1)
   \<and> (unauthorized_run srv (requests a) (Suc depth)
      \<and> logins_succeed srv (logins a) (Suc depth) \<longrightarrow>
        get_sessions_for_date srv depth a = (Inl RecursionError, relogged srv (Suc depth) a)
      \<and> get_slots_for_session srv depth a = (Inl RecursionError, relogged srv (Suc depth) a)
      \<and> book_appointment srv depth a
          = (Booking_failure (Exception_text RecursionError), relogged srv (Suc depth) a)
      \<and> (previewable srv (Suc depth) a \<longrightarrow>
           get_account_details srv depth a = (Inl RecursionError, relogged srv (Suc depth) a))
      \<and> get_awards srv depth a = (Inl RecursionError, relogged srv (Suc depth) a)
      \<and> requests (relogged srv (Suc depth) a) = requests a + depth + 1
      \<and> logins (relogged srv (Suc depth) a) = logins a + depth + 1)"
proof -
  let ?b = "relogged srv k a"
  have c: "requests ?b = requests a + k" "logins ?b = logins a + k"
    using relogged_counts[of srv k a] by simp_all
  have one: "get_sessions_for_date srv depth a
          = (list_result ''sessions'' (reply srv (requests a + k)), sent ?b)
      \<and> get_slots_for_session srv depth a
          = (list_result ''slots'' (reply srv (requests a + k)), sent ?b)
      \<and> book_appointment srv depth a
          = (booking_of_reply (reply srv (requests a + k)), sent ?b)
      \<and> (previewable srv (Suc k) a \<longrightarrow>
           get_account_details srv depth a
             = (details_of_reply (reply srv (requests a + k)), sent ?b))
      \<and> get_awards srv depth a
          = (awards_of_reply (reply srv (requests a + k)), sent ?b)
      \<and> requests (sent ?b) = requests a + k + 1
      \<and> logins (sent ?b) = logins a + k"
    if h: "k \<le> depth" "unauthorized_run srv (requests a) k" "logins_succeed srv (logins a) k"
          "answered (reply srv (requests a + k))"
    using sessions_retries[OF h] slots_retries[OF h] book_retries[OF h]
      details_retries[OF h] awards_retries[OF h] c
    by (simp add: sent_counts)
  have two: "get_sessions_for_date srv depth a = (Inr (JArr []), relogged_refused srv k a)
      \<and> get_slots_for_session srv depth a = (Inr (JArr []), relogged_refused srv k a)
      \<and> book_appointment srv depth a
          = (Booking_failure Authentication_failed, relogged_refused srv k a)
      \<and> (previewable srv (Suc k) a \<longrightarrow>
           get_account_details srv depth a = (Inr None, relogged_refused srv k a))
      \<and> get_awards srv depth a = (Inr None, relogged_refused srv k a)
      \<and> requests (relogged_refused srv k a) = requests a + k + 1
      \<and> logins (relogged_refused srv k a) = logins a + k + 1"
    if h: "k \<le> depth" "unauthorized_run srv (requests a) (Suc k)"
          "logins_succeed srv (logins a) k" "refuses (login_reply srv (logins a + k))"
    using sessions_refused[OF h] slots_refused[OF h] book_refused[OF h]
      details_refused[OF h] awards_refused[OF h] c
    by (simp add: relogged_refused_def sent_counts login_counts)
  have three: "get_sessions_for_date srv depth a = (Inl RecursionError, relogged srv (Suc depth) a)
      \<and> get_slots_for_session srv depth a = (Inl RecursionError, relogged srv (Suc depth) a)
      \<and> book_appointment srv depth a
          = (Booking_failure (Exception_text RecursionError), relogged srv (Suc depth) a)
      \<and> (previewable srv (Suc depth) a \<longrightarrow>
           get_account_details srv depth a = (Inl RecursionError, relogged srv (Suc depth) a))
      \<and> get_awards srv depth a = (Inl RecursionError, relogged srv (Suc depth) a)
      \<and> requests (relogged srv (Suc depth) a) = requests a + depth + 1
      \<and> logins (relogged srv (Suc depth) a) = logins a + depth + 1"
    if h: "unauthorized_run srv (requests a) (Suc depth)"
          "logins_succeed srv (logins a) (Suc depth)"
    using sessions_exhausted[OF h] slots_exhausted[OF h] book_exhausted[OF h]
      details_exhausted[OF h] awards_exhausted[OF h]
      relogged_counts[of srv "Suc depth" a]
    by simp
  show ?thesis using one two three by blast
qed

lemma accepts_token_reply: "accepts token_reply"
  by (simp add: accepts_def token_reply_def login_with_def bind_res_def)

lemma login_token_reply:
  "login_reply srv (logins a) = token_reply \<Longrightarrow>
   login srv a = (Inr True, a\<lparr>logins := Suc (logins a), access_token := JStr ''token''\<rparr>)"
  by (simp add: login_def token_reply_def login_with_def bind_res_def)

theorem reauthentication_retries_witness:
  "(2::nat) \<le> 2
   \<and> unauthorized_run twice_unauthorized (requests fresh_api) 2
   \<and> logins_succeed twice_unauthorized (logins fresh_api) 2
   \<and> answered (reply twice_unauthorized (requests fresh_api + 2))
   \<and> get_sessions_for_date twice_unauthorized 2 fresh_api
       = (Inr (JArr [one_session]),
          \<lparr>access_token = JStr ''token'', requests = 3, logins = 2\<rparr>)
   \<and> previewable twice_unauthorized (Suc 2) fresh_api
   \<and> get_account_details twice_unauthorized 2 fresh_api
       = (Inr (Some (JObj [(''sessions'', JArr [one_session])])),
          \<lparr>access_token = JStr ''token'', requests = 3, logins = 2\<rparr>)
   \<and> unauthorized_run login_refused (requests fresh_api) (Suc 0)
   \<and> logins_succeed login_refused (logins fresh_api) 0
   \<and> refuses (login_reply login_refused (logins fresh_api + 0))
   \<and> get_sessions_for_date login_refused 2 fresh_api
       = (Inr (JArr []), \<lparr>access_token = JStr ''stale'', requests = 1, logins = 1\<rparr>)
   \<and> unauthorized_run always_unauthorized (requests fresh_api) (Suc 2)
   \<and> logins_succeed always_unauthorized (logins fresh_api) (Suc 2)
   \<and> get_sessions_for_date always_unauthorized 2 fresh_api
       = (Inl RecursionError, \<lparr>access_token = JStr ''token'', requests = 3, logins = 3\<rparr>)
   \<and> book_appointment always_unauthorized 2 fresh_api
       = (Booking_failure (Exception_text RecursionError),
          \<lparr>access_token = JStr ''token'', requests = 3, logins = 3\<rparr>)"
proof -
  have h1: "unauthorized_run twice_unauthorized (requests fresh_api) 2
   \<and> logins_succeed twice_unauthorized (logins fresh_api) 2
   \<and> answered (reply twice_unauthorized (requests fresh_api + 2))"
    by (simp add: unauthorized_run_iff logins_succeed_iff twice_unauthorized_def
          unauthorized_def answered_def status_401_def text_fails_def fresh_api_def
          accepts_token_reply)
  have h2: "unauthorized_run login_refused (requests fresh_api) (Suc 0)
   \<and> logins_succeed login_refused (logins fresh_api) 0
   \<and> refuses (login_reply login_refused (logins fresh_api + 0))"
    by (simp add: unauthorized_run_iff logins_succeed_iff login_refused_def
          unauthorized_def status_401_def text_fails_def fresh_api_def refuses_def
          login_with_def)
  have h3: "unauthorized_run always_unauthorized (requests fresh_api) (Suc 2)
   \<and> logins_succeed always_unauthorized (logins fresh_api) (Suc 2)"
    by (simp add: unauthorized_run_iff logins_succeed_iff always_unauthorized_def
          unauthorized_def status_401_def text_fails_def accepts_token_reply)
  have e1: "list_result ''sessions'' (reply twice_unauthorized (requests fresh_api + 2))
              = Inr (JArr [one_session])"
    by (simp add: twice_unauthorized_def list_result_def bind_res_def)
  have e2: "sent (relogged twice_unauthorized 2 fresh_api)
              = \<lparr>access_token = JStr ''token'', requests = 3, logins = 2\<rparr>"
    by (simp add: eval_nat_numeral login_token_reply sent_def twice_unauthorized_def
          fresh_api_def)
  have e3: "relogged_refused login_refused 0 fresh_api
              = \<lparr>access_token = JStr ''stale'', requests = 1, logins = 1\<rparr>"
    by (simp add: relogged_refused_def login_def login_with_def sent_def login_refused_def
          fresh_api_def)
  have e4: "relogged always_unauthorized (Suc 2) fresh_api
              = \<lparr>access_token = JStr ''token'', requests = 3, logins = 3\<rparr>"
    by (simp add: eval_nat_numeral login_token_reply sent_def always_unauthorized_def
          fresh_api_def)
  have pv: "previewable twice_unauthorized (Suc 2) fresh_api" by code_simp
  have e5: "details_of_reply (reply twice_unauthorized (requests fresh_api + 2))
              = Inr (Some (JObj [(''sessions'', JArr [one_session])]))"
    by (simp add: twice_unauthorized_def details_of_reply_def details_handlers_def
          bind_res_def)
  have "get_sessions_for_date twice_unauthorized 2 fresh_api
       = (list_result ''sessions'' (reply twice_unauthorized (requests fresh_api + 2)),
          sent (relogged twice_unauthorized 2 fresh_api))
     \<and> get_account_details twice_unauthorized 2 fresh_api
       = (details_of_reply (reply twice_unauthorized (requests fresh_api + 2)),
          sent (relogged twice_unauthorized 2 fresh_api))"
    using reauthentication_retries[of 2 2 twice_unauthorized fresh_api] h1 pv by blast
  moreover have "get_sessions_for_date login_refused 2 fresh_api
       = (Inr (JArr []), relogged_refused login_refused 0 fresh_api)"
    using reauthentication_retries[of 0 2 login_refused fresh_api] h2 by blast
  moreover have "get_sessions_for_date always_unauthorized 2 fresh_api
         = (Inl RecursionError, relogged always_unauthorized (Suc 2) fresh_api)
       \<and> book_appointment always_unauthorized 2 fresh_api
         = (Booking_failure (Exception_text RecursionError),
            relogged always_unauthorized (Suc 2) fresh_api)"
    using reauthentication_retries[of 0 2 always_unauthorized fresh_api] h3 by blast
  ultimately show ?thesis using h1 h2 h3 e1 e2 e3 e4 e5 pv by simp
qed

theorem second_unauthorized_answer_counterexample:
  "status_401 (reply twice_unauthorized 0) \<and> status_401 (reply twice_unauthorized 1)
   \<and> get_sessions_for_date twice_unauthorized 2 fresh_api
       = (Inr (JArr [one_session]),
          \<lparr>access_token = JStr ''token'', requests = 3, logins = 2\<rparr>)
   \<and> get_account_details twice_unauthorized 2 fresh_api
       = (Inr (Some (JObj [(''sessions'', JArr [one_session])])),
          \<lparr>access_token = JStr ''token'', requests = 3, logins = 2\<rparr>)"
proof -
  have u: "status_401 (reply twice_unauthorized 0) \<and> status_401 (reply twice_unauthorized 1)"
    by (simp add: twice_unauthorized_def status_401_def)
  have r: "(2::nat) \<le> 2" "unauthorized_run twice_unauthorized (requests fresh_api) 2"
    "logins_succeed twice_unauthorized (logins fresh_api) 2"
    "answered (reply twice_unauthorized (requests fresh_api + 2))"
    by (simp_all add: unauthorized_run_iff logins_succeed_iff twice_unauthorized_def
          unauthorized_def answered_def status_401_def text_fails_def fresh_api_def
          accepts_token_reply)
  have b: "sent (relogged twice_unauthorized 2 fresh_api)
              = \<lparr>access_token = JStr ''token'', requests = 3, logins = 2\<rparr>"
    by (simp add: eval_nat_numeral login_token_reply sent_def twice_unauthorized_def
          fresh_api_def)
  have s: "get_sessions_for_date twice_unauthorized 2 fresh_api
       = (Inr (JArr [one_session]),
          \<lparr>access_token = JStr ''token'', requests = 3, logins = 2\<rparr>)"
    using sessions_retries[OF r] b
    by (simp add: twice_unauthorized_def list_result_def bind_res_def fresh_api_def)
  have pv: "previewable twice_unauthorized (Suc 2) fresh_api" by code_simp
  have d: "get_account_details twice_unauthorized 2 fresh_api
       = (Inr (Some (JObj [(''sessions'', JArr [one_session])])),
          \<lparr>access_token = JStr ''token'', requests = 3, logins = 2\<rparr>)"
    using details_retries[OF r pv] b
    by (simp add: twice_unauthorized_def details_of_reply_def details_handlers_def
          bind_res_def fresh_api_def)
  show ?thesis using u s d by simp
qed

lemma sessions_body:
  "\<exists>r. get_sessions_for_date srv depth a = fetch_list ''sessions'' srv r a"
  by (cases depth) auto

lemma slots_body:
  "\<exists>r. get_slots_for_session srv depth a = fetch_list ''slots'' srv r a"
  by (cases depth) auto

lemma fetch_list_login_raises:
  assumes "status_401 (reply srv (requests a))" "fst (login srv (sent a)) = Inl e"
  shows "fetch_list key srv r a = (Inl (timer_exit e), snd (login srv (sent a)))"
  using assms by (cases "login srv (sent a)") (simp add: fetch_list_def Let_def)

text \<open>
  C4. \<^verbatim>\<open>get_sessions_for_date\<close> and \<^verbatim>\<open>get_slots_for_session\<close> return an empty list
  when the answer is a 401 and the login that follows returns false, and when the answer
  has a status other than 200 and 401 and its text can be read. They contain no \<^verbatim>\<open>try\<close>
  block: a timeout or a connection failure of the request, the exception of a body that
  does not parse, an exception of reading the text of the answer and an exception of the
  login leave the function and reach the caller.
\<close>

theorem list_fetch_failures:
  "(status_401 (reply srv (requests a)) \<and> refuses (login_reply srv (logins a)) \<longrightarrow>
      get_sessions_for_date srv depth a = (Inr (JArr []), snd (login srv (sent a)))
    \<and> get_slots_for_session srv depth a = (Inr (JArr []), snd (login srv (sent a))))
   \<and> (reply srv (requests a) = Reply status (Inr u) body \<and> status \<noteq> 401 \<and> status \<noteq> 200 \<longrightarrow>
      get_sessions_for_date srv depth a = (Inr (JArr []), sent a)
    \<and> get_slots_for_session srv depth a = (Inr (JArr []), sent a))
   \<and> (reply srv (requests a) = Reply status (Inl e) body \<and> status \<noteq> 401 \<and> status \<noteq> 200 \<longrightarrow>
      get_sessions_for_date srv depth a = (Inl (timer_exit e), sent a)
    \<and> get_slots_for_session srv depth a = (Inl (timer_exit e), sent a))
   \<and> (reply srv (requests a) = Raises e \<longrightarrow>
      get_sessions_for_date srv depth a = (Inl (timer_exit e), sent a)
    \<and> get_slots_for_session srv depth a = (Inl (timer_exit e), sent a))
   \<and> (reply srv (requests a) = Reply 200 tx (Inl e) \<longrightarrow>
      get_sessions_for_date srv depth a = (Inl (timer_exit e), sent a)
    \<and> get_slots_for_session srv depth a = (Inl (timer_exit e), sent a))
   \<and> (status_401 (reply srv (requests a)) \<and> fst (login srv (sent a)) = Inl e \<longrightarrow>
      get_sessions_for_date srv depth a = (Inl (timer_exit e), snd (login srv (sent a)))
    \<and> get_slots_for_session srv depth a = (Inl (timer_exit e), snd (login srv (sent a))))"
proof -
  obtain r1 r2 where b: "get_sessions_for_date srv depth a = fetch_list ''sessions'' srv r1 a"
      "get_slots_for_session srv depth a = fetch_list ''slots'' srv r2 a"
    using sessions_body slots_body by blast
  have one: "get_sessions_for_date srv depth a = (Inr (JArr []), snd (login srv (sent a)))
    \<and> get_slots_for_session srv depth a = (Inr (JArr []), snd (login srv (sent a)))"
    if "status_401 (reply srv (requests a))" "refuses (login_reply srv (logins a))"
    using b fetch_list_refused[OF that] by simp
  have two: "get_sessions_for_date srv depth a = (Inr (JArr []), sent a)
    \<and> get_slots_for_session srv depth a = (Inr (JArr []), sent a)"
    if h: "reply srv (requests a) = Reply status (Inr u) body" "status \<noteq> 401" "status \<noteq> 200"
  proof -
    have n: "answered (reply srv (requests a))" using h by (simp add: answered_def status_401_def)
    show ?thesis using b fetch_list_answered[OF n] h by (simp add: list_result_def)
  qed
  have three: "get_sessions_for_date srv depth a = (Inl (timer_exit e), sent a)
    \<and> get_slots_for_session srv depth a = (Inl (timer_exit e), sent a)"
    if h: "reply srv (requests a) = Reply status (Inl e) body" "status \<noteq> 401" "status \<noteq> 200"
  proof -
    have n: "answered (reply srv (requests a))" using h by (simp add: answered_def status_401_def)
    show ?thesis using b fetch_list_answered[OF n] h by (simp add: list_result_def)
  qed
  have four: "get_sessions_for_date srv depth a = (Inl (timer_exit e), sent a)
    \<and> get_slots_for_session srv depth a = (Inl (timer_exit e), sent a)"
    if h: "reply srv (requests a) = Raises e"
  proof -
    have n: "answered (reply srv (requests a))" using h by (simp add: answered_def status_401_def)
    show ?thesis using b fetch_list_answered[OF n] h by (simp add: list_result_def)
  qed
  have five: "get_sessions_for_date srv depth a = (Inl (timer_exit e), sent a)
    \<and> get_slots_for_session srv depth a = (Inl (timer_exit e), sent a)"
    if h: "reply srv (requests a) = Reply 200 tx (Inl e)"
  proof -
    have n: "answered (reply srv (requests a))" using h by (simp add: answered_def status_401_def)
    show ?thesis using b fetch_list_answered[OF n] h by (simp add: list_result_def bind_res_def)
  qed
  have six: "get_sessions_for_date srv depth a = (Inl (timer_exit e), snd (login srv (sent a)))
    \<and> get_slots_for_session srv depth a = (Inl (timer_exit e), snd (login srv (sent a)))"
    if "status_401 (reply srv (requests a))" "fst (login srv (sent a)) = Inl e"
    using b fetch_list_login_raises[OF that] by simp
  show ?thesis using one two three four five six by blast
qed

theorem list_fetch_failures_witness:
  "status_401 (reply login_refused (requests fresh_api))
   \<and> refuses (login_reply login_refused (logins fresh_api))
   \<and> get_sessions_for_date login_refused 3 fresh_api
       = (Inr (JArr []), \<lparr>access_token = JStr ''stale'', requests = 1, logins = 1\<rparr>)
   \<and> reply unavailable (requests fresh_api) = Reply 503 (Inr ()) (Inl JSONDecodeError)
   \<and> get_slots_for_session unavailable 3 fresh_api
       = (Inr (JArr []), \<lparr>access_token = JStr ''stale'', requests = 1, logins = 0\<rparr>)
   \<and> reply unreadable (requests fresh_api) = Reply 503 (Inl ClientError) (Inl JSONDecodeError)
   \<and> get_slots_for_session unreadable 3 fresh_api
       = (Inl ClientError, \<lparr>access_token = JStr ''stale'', requests = 1, logins = 0\<rparr>)
   \<and> reply timing_out (requests fresh_api) = Raises TimeoutError
   \<and> get_sessions_for_date timing_out 3 fresh_api
       = (Inl TimeoutError, \<lparr>access_token = JStr ''stale'', requests = 1, logins = 0\<rparr>)
   \<and> reply unparsable (requests fresh_api) = Reply 200 (Inr ()) (Inl JSONDecodeError)
   \<and> get_slots_for_session unparsable 3 fresh_api
       = (Inl JSONDecodeError, \<lparr>access_token = JStr ''stale'', requests = 1, logins = 0\<rparr>)
   \<and> status_401 (reply login_not_an_object (requests fresh_api))
   \<and> fst (login login_not_an_object (sent fresh_api)) = Inl AttributeError
   \<and> get_sessions_for_date login_not_an_object 3 fresh_api
       = (Inl AttributeError, \<lparr>access_token = JStr ''stale'', requests = 1, logins = 1\<rparr>)"
proof -
  have h1: "status_401 (reply login_refused (requests fresh_api))
     \<and> refuses (login_reply login_refused (logins fresh_api))"
    by (simp add: login_refused_def status_401_def refuses_def login_with_def)
  have h2: "reply unavailable (requests fresh_api) = Reply 503 (Inr ()) (Inl JSONDecodeError)
     \<and> (503::nat) \<noteq> 401 \<and> (503::nat) \<noteq> 200"
    by (simp add: unavailable_def)
  have h3: "reply unreadable (requests fresh_api) = Reply 503 (Inl ClientError) (Inl JSONDecodeError)
     \<and> (503::nat) \<noteq> 401 \<and> (503::nat) \<noteq> 200"
    by (simp add: unreadable_def)
  have h4: "reply timing_out (requests fresh_api) = Raises TimeoutError"
    by (simp add: timing_out_def)
  have h5: "reply unparsable (requests fresh_api) = Reply 200 (Inr ()) (Inl JSONDecodeError)"
    by (simp add: unparsable_def)
  have h6: "status_401 (reply login_not_an_object (requests fresh_api))
     \<and> fst (login login_not_an_object (sent fresh_api)) = Inl AttributeError"
    by (simp add: login_not_an_object_def status_401_def login_def login_with_def
          login_handlers_def caught_def is_instance_def)
  have s: "sent fresh_api = \<lparr>access_token = JStr ''stale'', requests = 1, logins = 0\<rparr>"
    by (simp add: sent_def fresh_api_def)
  have l: "snd (login login_refused (sent fresh_api))
             = \<lparr>access_token = JStr ''stale'', requests = 1, logins = 1\<rparr>"
    by (simp add: login_def login_with_def sent_def login_refused_def fresh_api_def)
  have m: "snd (login login_not_an_object (sent fresh_api))
             = \<lparr>access_token = JStr ''stale'', requests = 1, logins = 1\<rparr>"
    by (simp add: login_def login_with_def sent_def login_not_an_object_def fresh_api_def)
  have t: "timer_exit ClientError = ClientError" "timer_exit TimeoutError = TimeoutError"
    "timer_exit JSONDecodeError = JSONDecodeError" "timer_exit AttributeError = AttributeError"
    by (simp_all add: timer_exit_def)
  have "get_sessions_for_date login_refused 3 fresh_api
          = (Inr (JArr []), snd (login login_refused (sent fresh_api)))"
    using list_fetch_failures[where srv = login_refused and a = fresh_api and depth = 3] h1
    by blast
  moreover have "get_slots_for_session unavailable 3 fresh_api = (Inr (JArr []), sent fresh_api)"
    using list_fetch_failures[where srv = unavailable and a = fresh_api and depth = 3
        and status = 503 and u = "()" and body = "Inl JSONDecodeError"] h2
    by blast
  moreover have "get_slots_for_session unreadable 3 fresh_api
          = (Inl (timer_exit ClientError), sent fresh_api)"
    using list_fetch_failures[where srv = unreadable and a = fresh_api and depth = 3
        and status = 503 and e = ClientError and body = "Inl JSONDecodeError"] h3
    by blast
  moreover have "get_sessions_for_date timing_out 3 fresh_api
          = (Inl (timer_exit TimeoutError), sent fresh_api)"
    using list_fetch_failures[where srv = timing_out and a = fresh_api and depth = 3
        and e = TimeoutError] h4
    by blast
  moreover have "get_slots_for_session unparsable 3 fresh_api
          = (Inl (timer_exit JSONDecodeError), sent fresh_api)"
    using list_fetch_failures[where srv = unparsable and a = fresh_api and depth = 3
        and e = JSONDecodeError and tx = "Inr ()"] h5
    by blast
  moreover have "get_sessions_for_date login_not_an_object 3 fresh_api
          = (Inl (timer_exit AttributeError), snd (login login_not_an_object (sent fresh_api)))"
    using list_fetch_failures[where srv = login_not_an_object and a = fresh_api and depth = 3
        and e = AttributeError] h6
    by blast
  ultimately show ?thesis using h1 h2 h3 h4 h5 h6 s l m t by simp
qed

theorem timeout_escapes_counterexample:
  "reply timing_out (requests fresh_api) = Raises TimeoutError
   \<and> get_sessions_for_date timing_out 3 fresh_api = (Inl TimeoutError, sent fresh_api)
   \<and> get_slots_for_session timing_out 3 fresh_api = (Inl TimeoutError, sent fresh_api)
   \<and> reply unparsable (requests fresh_api) = Reply 200 (Inr ()) (Inl JSONDecodeError)
   \<and> get_sessions_for_date unparsable 3 fresh_api = (Inl JSONDecodeError, sent fresh_api)
   \<and> get_slots_for_session unparsable 3 fresh_api = (Inl JSONDecodeError, sent fresh_api)"
proof -
  have t: "reply timing_out (requests fresh_api) = Raises TimeoutError"
    by (simp add: timing_out_def)
  have u: "reply unparsable (requests fresh_api) = Reply 200 (Inr ()) (Inl JSONDecodeError)"
    by (simp add: unparsable_def)
  have nt: "(0::nat) \<le> 3" "unauthorized_run timing_out (requests fresh_api) 0"
    "logins_succeed timing_out (logins fresh_api) 0"
    "answered (reply timing_out (requests fresh_api + 0))"
    using t by (simp_all add: answered_def status_401_def unauthorized_run_iff logins_succeed_iff)
  have nu: "(0::nat) \<le> 3" "unauthorized_run unparsable (requests fresh_api) 0"
    "logins_succeed unparsable (logins fresh_api) 0"
    "answered (reply unparsable (requests fresh_api + 0))"
    using u by (simp_all add: answered_def status_401_def unauthorized_run_iff logins_succeed_iff)
  show ?thesis
    using t u sessions_retries[OF nt] slots_retries[OF nt]
      sessions_retries[OF nu] slots_retries[OF nu]
    by (simp add: list_result_def bind_res_def timer_exit_def)
qed

section \<open>Properties of the booking\<close>

lemma booking_of_reply_ok:
  "booking_ok (booking_of_reply r)
     = (\<exists>d. r = Reply 200 (Inr ()) (Inr d)
            \<and> py_get d ''status'' (JStr []) = Inr (JStr ''B''))"
proof (cases r)
  case (Raises e)
  then show ?thesis by (simp add: booking_of_reply_def booking_ok_def)
next
  case (Reply status tx body)
  show ?thesis
  proof (cases tx)
    case (Inl e)
    then show ?thesis using Reply by (simp add: booking_of_reply_def booking_ok_def)
  next
    case tx: (Inr u)
    show ?thesis
    proof (cases "status = 200")
      case False
      then show ?thesis using Reply tx by (simp add: booking_of_reply_def booking_ok_def)
    next
      case True
      show ?thesis
      proof (cases body)
        case (Inl e)
        then show ?thesis using Reply True tx
          by (simp add: booking_of_reply_def booking_ok_def bind_res_def)
      next
        case (Inr d)
        then show ?thesis using Reply True tx
          by (cases "py_get d ''status'' (JStr [])")
             (auto simp: booking_of_reply_def booking_ok_def bind_res_def)
      qed
    qed
  qed
qed

lemma booking_of_reply_status:
  assumes "r = Reply 200 (Inr u) (Inr d)" "py_get d ''status'' (JStr []) = Inr st"
    "st \<noteq> JStr ''B''"
  shows "booking_of_reply r = Booking_failure (Booking_returned_status st)"
  using assms by (simp add: booking_of_reply_def bind_res_def)

lemma status_401_not_200: "status_401 r \<Longrightarrow> r \<noteq> Reply 200 t b"
  by (auto simp: status_401_def)

text \<open>
  One invocation ends on a success exactly when the last answer it or its nested
  invocation received was a 200 answer with the status \<open>B\<close>.
\<close>

lemma book_once_last:
  assumes b: "book_once srv retry a = (res, a1)"
    and r: "\<And>res a1. status_401 (reply srv (requests a)) \<Longrightarrow>
              retry (snd (login srv (sent a))) = (res, a1) \<Longrightarrow>
              booking_ok res
                = (\<exists>d. reply srv (requests a1 - 1) = Reply 200 (Inr ()) (Inr d)
                       \<and> py_get d ''status'' (JStr []) = Inr (JStr ''B''))"
  shows "booking_ok res
           = (\<exists>d. reply srv (requests a1 - 1) = Reply 200 (Inr ()) (Inr d)
                  \<and> py_get d ''status'' (JStr []) = Inr (JStr ''B''))"
proof (cases "status_401 (reply srv (requests a))")
  case False
  then have z: "res = booking_of_reply (reply srv (requests a))" "a1 = sent a"
    using b by (auto simp: book_once_def Let_def)
  have "requests a1 - 1 = requests a" using z by (simp add: sent_counts)
  then show ?thesis using z by (simp add: booking_of_reply_ok)
next
  case True
  obtain l a2 where l: "login srv (sent a) = (l, a2)" by (cases "login srv (sent a)")
  then have a2: "a2 = snd (login srv (sent a))" by simp
  have c: "requests a2 - 1 = requests a" using a2 by (simp add: login_counts sent_counts)
  show ?thesis
  proof (cases "l = Inr True")
    case ok: True
    then have "retry a2 = (res, a1)" using b True l by (simp add: book_once_def Let_def)
    then show ?thesis using r[OF True] a2 by simp
  next
    case no: False
    then have z: "\<not> booking_ok res" "a1 = a2"
      using b True l
      by (cases l; auto simp: book_once_def Let_def booking_ok_def)+
    then show ?thesis using c status_401_not_200[OF True] by auto
  qed
qed

lemma booking_last_answer:
  "book_appointment srv depth a = (res, a1) \<Longrightarrow>
   booking_ok res
     = (\<exists>d. reply srv (requests a1 - 1) = Reply 200 (Inr ()) (Inr d)
            \<and> py_get d ''status'' (JStr []) = Inr (JStr ''B''))"
proof (induction depth arbitrary: a res a1)
  case 0
  then have b: "book_once srv (\<lambda>a2. (Booking_failure (Exception_text RecursionError), a2)) a
                  = (res, a1)"
    by simp
  show ?case
  proof (rule book_once_last[OF b])
    fix res' a1'
    assume u: "status_401 (reply srv (requests a))"
      and e: "(Booking_failure (Exception_text RecursionError), snd (login srv (sent a)))
                = (res', a1')"
    have "requests a1' - 1 = requests a" using e by (auto simp: login_counts sent_counts)
    then show "booking_ok res'
       = (\<exists>d. reply srv (requests a1' - 1) = Reply 200 (Inr ()) (Inr d)
              \<and> py_get d ''status'' (JStr []) = Inr (JStr ''B''))"
      using e status_401_not_200[OF u] by (auto simp: booking_ok_def)
  qed
next
  case (Suc depth)
  then have b: "book_once srv (book_appointment srv depth) a = (res, a1)" by simp
  show ?case by (rule book_once_last[OF b]) (rule Suc.IH)
qed

subsection \<open>The handler around the booking\<close>

lemma make_plan_day:
  assumes "make_plan fetched today c validated = Inr p"
  shows "target_date validated = None
       \<and> (\<exists>w i. target_day_of_week validated = Some w \<and> map_of DAYS_OF_WEEK w = Some i)
       \<and> reaches_last_donation validated"
  using assms
  by (auto simp: make_plan_def resolve_target_date_def bind_res_def reaches_last_donation_def
           split: sum.splits option.splits)

lemma days_table_nonempty: "map_of DAYS_OF_WEEK [] = None"
  by (simp add: DAYS_OF_WEEK_def)

lemma handler_plan:
  assumes "SERVICE_SCHEMA_BOOKING_HELPER call = Some validated"
    "make_plan fetched today c validated = Inr p"
  shows "async_booking_helper_service srv depth fetched today (Some c) call a =
     (case search_and_act srv depth validated p a of
        (Inl e, a', refreshed) \<Rightarrow>
          (if except_exception e
           then Inr (initial_response\<lparr>success := False, error := Some (Exception_str e)\<rparr>)
           else Inl e,
           a', if stale c then 1 else 0)
      | (Inr resp, a', refreshed) \<Rightarrow>
          (Inr resp, a', (if stale c then 1 else 0) + (if refreshed then 1 else 0)))"
proof -
  from make_plan_day[OF assms(2)] obtain w i where
    d: "target_date validated = None" "target_day_of_week validated = Some w"
       "map_of DAYS_OF_WEEK w = Some i" "reaches_last_donation validated"
    by blast
  have w: "w \<noteq> []" using d(3) days_table_nonempty by auto
  have rb: "(if stale c then 1 else 0) = refreshes_before_search c validated"
    using d(4) by (simp add: refreshes_before_search_def)
  show ?thesis unfolding rb using assms d(1,2) w
    by (simp add: async_booking_helper_service_def)
qed

lemma search_stopped:
  assumes "search srv depth validated p a = (Inr (Stopped r), a3)"
  shows "appointment r = None \<and> message r \<noteq> Appointment_booked_successfully \<and> \<not> success r"
  using assms
  by (auto simp: search_def initial_response_def
           split: if_splits prod.splits sum.splits search_result.splits)

lemma act_result:
  "act srv depth auto ap a =
     (if auto
      then (case book_appointment srv depth a of
              (Booking_success d, a1) \<Rightarrow>
                (\<lparr>success = True, message = Appointment_booked_successfully,
                  appointment = Some ap, error = None\<rparr>, a1, True)
            | (Booking_failure e, a1) \<Rightarrow>
                (\<lparr>success = False, message = Failed_to_book e, appointment = Some ap,
                  error = Some (Booking_error e)\<rparr>, a1, False))
      else (\<lparr>success = True, message = Found_best_available_not_booked,
             appointment = Some ap, error = None\<rparr>, a, False))"
  by (simp add: act_def initial_response_def split: prod.splits booking_result.splits)

lemma search_and_act_refresh:
  assumes "search_and_act srv depth validated p a = (r, a', refreshed)"
  shows "refreshed = (\<exists>resp. r = Inr resp \<and> message resp = Appointment_booked_successfully)"
proof (cases "search srv depth validated p a")
  case (Pair x a3)
  show ?thesis
  proof (cases x)
    case (Inl e)
    then show ?thesis using assms Pair by (auto simp: search_and_act_def)
  next
    case (Inr y)
    show ?thesis
    proof (cases y)
      case (Stopped resp)
      then show ?thesis using assms Pair Inr search_stopped[of srv depth validated p a resp a3]
        by (auto simp: search_and_act_def)
    next
      case (Found ap)
      then show ?thesis using assms Pair Inr
        by (auto simp: search_and_act_def act_result
                 split: if_splits prod.splits booking_result.splits)
    qed
  qed
qed

lemma handler_refreshes:
  assumes v: "SERVICE_SCHEMA_BOOKING_HELPER call = Some validated"
    and h: "async_booking_helper_service srv depth fetched today (Some c) call a = (r, a', n)"
  shows "n = refreshes_before_search c validated
           + (if \<exists>resp. r = Inr resp \<and> message resp = Appointment_booked_successfully
              then 1 else 0)"
proof (cases "target_date validated = None
    \<and> (target_day_of_week validated = None \<or> target_day_of_week validated = Some [])")
  case True
  then have "\<not> reaches_last_donation validated"
    by (auto simp: reaches_last_donation_def days_table_nonempty split: sum.splits)
  then show ?thesis using v h True
    by (auto simp: async_booking_helper_service_def refreshes_before_search_def
          initial_response_def)
next
  case False
  show ?thesis
  proof (cases "make_plan fetched today c validated")
    case (Inl e)
    then show ?thesis using v h False by (auto simp: async_booking_helper_service_def)
  next
    case (Inr p)
    obtain x b post where s: "search_and_act srv depth validated p a = (x, b, post)"
      by (cases "search_and_act srv depth validated p a") auto
    have post: "post = (\<exists>resp. x = Inr resp \<and> message resp = Appointment_booked_successfully)"
      using s by (rule search_and_act_refresh)
    show ?thesis
    proof (cases x)
      case e: (Inl e)
      then show ?thesis using v h False Inr s
        by (auto simp: async_booking_helper_service_def initial_response_def
                 split: if_splits)
    next
      case r: (Inr resp)
      then show ?thesis using v h False Inr s post
        by (auto simp: async_booking_helper_service_def)
    qed
  qed
qed

lemma refreshed_if_stale_eq:
  "refreshed_if_stale fetched c = (if stale c then async_refresh fetched c else c)"
  by (simp add: refreshed_if_stale_def stale_def)

lemma handler_found:
  assumes v: "SERVICE_SCHEMA_BOOKING_HELPER call = Some validated"
    and p: "make_plan fetched today c validated = Inr p"
    and s: "search srv depth validated p a = (Inr (Found ap), a3)"
  shows "async_booking_helper_service srv depth fetched today (Some c) call a =
     (case act srv depth (case auto_book validated of None \<Rightarrow> False | Some b \<Rightarrow> b) ap a3 of
        (resp, a4, refreshed) \<Rightarrow>
          (Inr resp, a4, (if stale c then 1 else 0) + (if refreshed then 1 else 0)))"
  using s by (simp add: handler_plan[OF v p] search_and_act_def split: prod.splits)

text \<open>
  C8. \<^verbatim>\<open>book_appointment\<close> reports success exactly when the answer it ends on has HTTP
  status 200 and a body whose \<open>status\<close> is \<open>B\<close>; a 200 answer with another status is a
  failure that carries the provider's status value. When the search of the helper has
  found an appointment and \<^verbatim>\<open>auto_book\<close> is set, the helper books it: on a failed
  booking its result still holds the appointment, and on a successful one it starts a
  refresh of the account snapshot; without \<^verbatim>\<open>auto_book\<close> it reports the appointment
  and starts none. The refreshes a run starts are that one and, before the search, the
  one of \<^verbatim>\<open>get_last_donation_date\<close> for a missing or stale snapshot, whatever becomes of
  the booking.
\<close>

theorem booking_success_iff:
  "(booking_ok (booking_of_reply r)
      \<longleftrightarrow> (\<exists>d. r = Reply 200 (Inr ()) (Inr d)
               \<and> py_get d ''status'' (JStr []) = Inr (JStr ''B'')))
   \<and> (r = Reply 200 (Inr u) (Inr d) \<and> py_get d ''status'' (JStr []) = Inr st
        \<and> st \<noteq> JStr ''B''
      \<longrightarrow> booking_of_reply r = Booking_failure (Booking_returned_status st))
   \<and> (book_appointment srv depth a = (res, a1) \<longrightarrow>
        (booking_ok res
           \<longleftrightarrow> (\<exists>d. reply srv (requests a1 - 1) = Reply 200 (Inr ()) (Inr d)
                    \<and> py_get d ''status'' (JStr []) = Inr (JStr ''B''))))
   \<and> (SERVICE_SCHEMA_BOOKING_HELPER call = Some validated
        \<and> make_plan fetched today c validated = Inr p
        \<and> search srv depth validated p a = (Inr (Found ap), a3)
        \<and> auto_book validated = Some True
        \<and> book_appointment srv depth a3 = (Booking_failure e, a4) \<longrightarrow>
        async_booking_helper_service srv depth fetched today (Some c) call a
          = (Inr \<lparr>success = False, message = Failed_to_book e, appointment = Some ap,
                  error = Some (Booking_error e)\<rparr>,
             a4, if stale c then 1 else 0))
   \<and> (SERVICE_SCHEMA_BOOKING_HELPER call = Some validated
        \<and> make_plan fetched today c validated = Inr p
        \<and> search srv depth validated p a = (Inr (Found ap), a3)
        \<and> auto_book validated = Some True
        \<and> book_appointment srv depth a3 = (Booking_success d', a4) \<longrightarrow>
        async_booking_helper_service srv depth fetched today (Some c) call a
          = (Inr \<lparr>success = True, message = Appointment_booked_successfully,
                  appointment = Some ap, error = None\<rparr>,
             a4, (if stale c then 1 else 0) + 1))
   \<and> (SERVICE_SCHEMA_BOOKING_HELPER call = Some validated
        \<and> make_plan fetched today c validated = Inr p
        \<and> search srv depth validated p a = (Inr (Found ap), a3)
        \<and> auto_book validated \<noteq> Some True \<longrightarrow>
        async_booking_helper_service srv depth fetched today (Some c) call a
          = (Inr \<lparr>success = True, message = Found_best_available_not_booked,
                  appointment = Some ap, error = None\<rparr>,
             a3, if stale c then 1 else 0))
   \<and> (SERVICE_SCHEMA_BOOKING_HELPER call = Some validated
        \<and> async_booking_helper_service srv depth fetched today (Some c) call a = (x, a', n)
      \<longrightarrow> n = refreshes_before_search c validated
               + (if \<exists>resp. x = Inr resp \<and> message resp = Appointment_booked_successfully
                  then 1 else 0))
   \<and> refreshed_if_stale fetched c = (if stale c then async_refresh fetched c else c)"
proof -
  have one: "booking_ok (booking_of_reply r)
      \<longleftrightarrow> (\<exists>d. r = Reply 200 (Inr ()) (Inr d)
               \<and> py_get d ''status'' (JStr []) = Inr (JStr ''B''))"
    by (rule booking_of_reply_ok)
  have two: "booking_of_reply r = Booking_failure (Booking_returned_status st)"
    if "r = Reply 200 (Inr u) (Inr d)" "py_get d ''status'' (JStr []) = Inr st"
       "st \<noteq> JStr ''B''"
    using that by (rule booking_of_reply_status)
  have three: "booking_ok res
           \<longleftrightarrow> (\<exists>d. reply srv (requests a1 - 1) = Reply 200 (Inr ()) (Inr d)
                    \<and> py_get d ''status'' (JStr []) = Inr (JStr ''B''))"
    if "book_appointment srv depth a = (res, a1)"
    using that by (rule booking_last_answer)
  have four: "async_booking_helper_service srv depth fetched today (Some c) call a
          = (Inr \<lparr>success = False, message = Failed_to_book e, appointment = Some ap,
                  error = Some (Booking_error e)\<rparr>,
             a4, if stale c then 1 else 0)"
    if "SERVICE_SCHEMA_BOOKING_HELPER call = Some validated"
       "make_plan fetched today c validated = Inr p"
       "search srv depth validated p a = (Inr (Found ap), a3)"
       "auto_book validated = Some True"
       "book_appointment srv depth a3 = (Booking_failure e, a4)"
    using that(4,5) by (simp add: handler_found[OF that(1-3)] act_result)
  have five: "async_booking_helper_service srv depth fetched today (Some c) call a
          = (Inr \<lparr>success = True, message = Appointment_booked_successfully,
                  appointment = Some ap, error = None\<rparr>,
             a4, (if stale c then 1 else 0) + 1)"
    if "SERVICE_SCHEMA_BOOKING_HELPER call = Some validated"
       "make_plan fetched today c validated = Inr p"
       "search srv depth validated p a = (Inr (Found ap), a3)"
       "auto_book validated = Some True"
       "book_appointment srv depth a3 = (Booking_success d', a4)"
    using that(4,5) by (simp add: handler_found[OF that(1-3)] act_result)
  have six: "async_booking_helper_service srv depth fetched today (Some c) call a
          = (Inr \<lparr>success = True, message = Found_best_available_not_booked,
                  appointment = Some ap, error = None\<rparr>,
             a3, if stale c then 1 else 0)"
    if "SERVICE_SCHEMA_BOOKING_HELPER call = Some validated"
       "make_plan fetched today c validated = Inr p"
       "search srv depth validated p a = (Inr (Found ap), a3)"
       "auto_book validated \<noteq> Some True"
    using that(4)
    by (cases "auto_book validated") (auto simp: handler_found[OF that(1-3)] act_result)
  have seven: "n = refreshes_before_search c validated
               + (if \<exists>resp. x = Inr resp \<and> message resp = Appointment_booked_successfully
                  then 1 else 0)"
    if "SERVICE_SCHEMA_BOOKING_HELPER call = Some validated"
       "async_booking_helper_service srv depth fetched today (Some c) call a = (x, a', n)"
    using that by (rule handler_refreshes)
  have eight: "refreshed_if_stale fetched c = (if stale c then async_refresh fetched c else c)"
    by (rule refreshed_if_stale_eq)
  show ?thesis using one two three four five six seven eight by blast
qed

lemma ev_schema_book:
  "SERVICE_SCHEMA_BOOKING_HELPER call_monday_book
     = Some (call_monday_book\<lparr>target_day_of_week := Some ''monday''\<rparr>)"
  by code_simp

lemma ev_plan_stale:
  "make_plan None 738895 stale_snapshot
     (call_monday_book\<lparr>target_day_of_week := Some ''monday''\<rparr>) = Inr monday_plan"
  by code_simp

lemma ev_search_book:
  "search (booking_service st) 3 (call_monday_book\<lparr>target_day_of_week := Some ''monday''\<rparr>)
     monday_plan fresh_api
     = (Inr (Found found_appointment), sent (sent fresh_api))"
  by code_simp

lemma ev_book_pending:
  "book_appointment (booking_service ''P'') 3 (sent (sent fresh_api))
     = (Booking_failure (Booking_returned_status (JStr ''P'')), sent (sent (sent fresh_api)))"
  by code_simp

lemma ev_book_confirmed:
  "book_appointment (booking_service ''B'') 3 (sent (sent fresh_api))
     = (Booking_success (JObj [(''status'', JStr ''B'')]), sent (sent (sent fresh_api)))"
  by code_simp

lemma ev_stale: "stale stale_snapshot" "\<not> stale snapshot_no_appointments"
  by (simp_all add: stale_def stale_snapshot_def snapshot_no_appointments_def no_data_def)

theorem booking_success_iff_witness:
  "py_get (JObj [(''status'', JStr ''P'')]) ''status'' (JStr []) = Inr (JStr ''P'')
   \<and> JStr ''P'' \<noteq> JStr ''B''
   \<and> booking_of_reply (Reply 200 (Inr ()) (Inr (JObj [(''status'', JStr ''P'')])))
       = Booking_failure (Booking_returned_status (JStr ''P''))
   \<and> SERVICE_SCHEMA_BOOKING_HELPER call_monday_book
       = Some (call_monday_book\<lparr>target_day_of_week := Some ''monday''\<rparr>)
   \<and> make_plan None 738895 stale_snapshot
        (call_monday_book\<lparr>target_day_of_week := Some ''monday''\<rparr>) = Inr monday_plan
   \<and> search (booking_service ''P'') 3
        (call_monday_book\<lparr>target_day_of_week := Some ''monday''\<rparr>) monday_plan fresh_api
       = (Inr (Found found_appointment), sent (sent fresh_api))
   \<and> auto_book (call_monday_book\<lparr>target_day_of_week := Some ''monday''\<rparr>) = Some True
   \<and> book_appointment (booking_service ''P'') 3 (sent (sent fresh_api))
       = (Booking_failure (Booking_returned_status (JStr ''P'')), sent (sent (sent fresh_api)))
   \<and> \<not> booking_ok (Booking_failure (Booking_returned_status (JStr ''P'')))
   \<and> async_booking_helper_service (booking_service ''P'') 3 None 738895 (Some stale_snapshot)
        call_monday_book fresh_api
       = (Inr \<lparr>success = False,
               message = Failed_to_book (Booking_returned_status (JStr ''P'')),
               appointment = Some found_appointment,
               error = Some (Booking_error (Booking_returned_status (JStr ''P'')))\<rparr>,
          sent (sent (sent fresh_api)), 1)
   \<and> search (booking_service ''B'') 3
        (call_monday_book\<lparr>target_day_of_week := Some ''monday''\<rparr>) monday_plan fresh_api
       = (Inr (Found found_appointment), sent (sent fresh_api))
   \<and> book_appointment (booking_service ''B'') 3 (sent (sent fresh_api))
       = (Booking_success (JObj [(''status'', JStr ''B'')]), sent (sent (sent fresh_api)))
   \<and> async_booking_helper_service (booking_service ''B'') 3 None 738895 (Some stale_snapshot)
        call_monday_book fresh_api
       = (Inr \<lparr>success = True, message = Appointment_booked_successfully,
               appointment = Some found_appointment, error = None\<rparr>,
          sent (sent (sent fresh_api)), 2)"
proof -
  let ?p = "JObj [(''status'', JStr ''P'')]"
  let ?v = "call_monday_book\<lparr>target_day_of_week := Some ''monday''\<rparr>"
  note t = booking_success_iff
  have gp: "py_get ?p ''status'' (JStr []) = Inr (JStr ''P'')" by simp
  have ne: "JStr ''P'' \<noteq> JStr ''B''" by simp
  have au: "auto_book ?v = Some True" by (simp add: call_monday_book_def)
  have nb: "\<not> booking_ok (Booking_failure (Booking_returned_status (JStr ''P'')))"
    by (simp add: booking_ok_def)
  have b2: "booking_of_reply (Reply 200 (Inr ()) (Inr ?p))
              = Booking_failure (Booking_returned_status (JStr ''P''))"
    using t[where r = "Reply 200 (Inr ()) (Inr ?p)" and u = "()" and d = ?p
        and st = "JStr ''P''"] gp ne
    by blast
  have hp: "async_booking_helper_service (booking_service ''P'') 3 None 738895
        (Some stale_snapshot) call_monday_book fresh_api
       = (Inr \<lparr>success = False,
               message = Failed_to_book (Booking_returned_status (JStr ''P'')),
               appointment = Some found_appointment,
               error = Some (Booking_error (Booking_returned_status (JStr ''P'')))\<rparr>,
          sent (sent (sent fresh_api)), if stale stale_snapshot then 1 else 0)"
    using t[where call = call_monday_book and validated = ?v and fetched = None
        and today = 738895 and c = stale_snapshot and p = monday_plan
        and srv = "booking_service ''P''" and depth = 3 and a = fresh_api
        and ap = found_appointment and ?a3.0 = "sent (sent fresh_api)"
        and e = "Booking_returned_status (JStr ''P'')"
        and ?a4.0 = "sent (sent (sent fresh_api))"]
      ev_schema_book ev_plan_stale ev_search_book[of "''P''"] au ev_book_pending
    by blast
  have hb: "async_booking_helper_service (booking_service ''B'') 3 None 738895
        (Some stale_snapshot) call_monday_book fresh_api
       = (Inr \<lparr>success = True, message = Appointment_booked_successfully,
               appointment = Some found_appointment, error = None\<rparr>,
          sent (sent (sent fresh_api)), (if stale stale_snapshot then 1 else 0) + 1)"
    using t[where call = call_monday_book and validated = ?v and fetched = None
        and today = 738895 and c = stale_snapshot and p = monday_plan
        and srv = "booking_service ''B''" and depth = 3 and a = fresh_api
        and ap = found_appointment and ?a3.0 = "sent (sent fresh_api)"
        and d' = "JObj [(''status'', JStr ''B'')]"
        and ?a4.0 = "sent (sent (sent fresh_api))"]
      ev_schema_book ev_plan_stale ev_search_book[of "''B''"] au ev_book_confirmed
    by blast
  show ?thesis
    using gp ne b2 ev_schema_book ev_plan_stale ev_search_book[of "''P''"]
      ev_search_book[of "''B''"] au ev_book_pending ev_book_confirmed nb hp hb ev_stale(1)
    by simp
qed

theorem refresh_without_booking_counterexample:
  "async_booking_helper_service (booking_service ''P'') 3 None 738895 (Some stale_snapshot)
        call_monday_book fresh_api
       = (Inr \<lparr>success = False,
               message = Failed_to_book (Booking_returned_status (JStr ''P'')),
               appointment = Some found_appointment,
               error = Some (Booking_error (Booking_returned_status (JStr ''P'')))\<rparr>,
          sent (sent (sent fresh_api)), 1)
   \<and> async_booking_helper_service slot_service 3 None 738895 (Some stale_snapshot)
        call_monday fresh_api
       = (Inr \<lparr>success = True, message = Found_best_available_not_booked,
               appointment = Some found_appointment, error = None\<rparr>,
          sent (sent fresh_api), 1)
   \<and> refreshed_if_stale None stale_snapshot = async_refresh None stale_snapshot"
proof -
  have "async_booking_helper_service (booking_service ''P'') 3 None 738895
        (Some stale_snapshot) call_monday_book fresh_api
       = (Inr \<lparr>success = False,
               message = Failed_to_book (Booking_returned_status (JStr ''P'')),
               appointment = Some found_appointment,
               error = Some (Booking_error (Booking_returned_status (JStr ''P'')))\<rparr>,
          sent (sent (sent fresh_api)), 1)"
    by code_simp
  moreover have "async_booking_helper_service slot_service 3 None 738895 (Some stale_snapshot)
        call_monday fresh_api
       = (Inr \<lparr>success = True, message = Found_best_available_not_booked,
               appointment = Some found_appointment, error = None\<rparr>,
          sent (sent fresh_api), 1)"
    by code_simp
  moreover have "refreshed_if_stale None stale_snapshot = async_refresh None stale_snapshot"
    using ev_stale(1) by (simp add: refreshed_if_stale_eq)
  ultimately show ?thesis by simp
qed

section \<open>Properties of the slot matching engine\<close>

subsection \<open>The code computes the described lists\<close>












subsection \<open>The first entry of the stable sort\<close>





subsection \<open>From the result of the handler to the search\<close>














end
